theory Spec2Isabelle
  imports Main "HOL-Library.AList"
begin

section \<open>JavaScript values\<close>

text \<open>
  The records handled by the automation system are decoded JSON. A value is one of the
  JSON shapes; \<open>Undefined\<close> is what a read of an absent property yields, and
  \<open>Fn name\<close> is a built-in function, which only a read of an inherited member
  yields. Numbers are the integers (the identifiers and counters the program handles);
  an object is the list of its own enumerable properties in enumeration order. Strings
  are ASCII.
\<close>

datatype jsval =
    Undefined
  | Null
  | Bool bool
  | Num int
  | Str string
  | Arr "jsval list"
  | Obj "(string \<times> jsval) list"
  | Fn string

type_synonym jsobj = "(string \<times> jsval) list"

text \<open>
  A raw item is a well-formed record: no property name occurs twice, and no field is
  called \<open>__proto__\<close> (an assignment to that name does not create a property).
\<close>

definition wf_item :: "jsobj \<Rightarrow> bool" where
  "wf_item item = (distinct (map fst item) \<and> ''__proto__'' \<notin> set (map fst item))"

text \<open>JavaScript truthiness: \<open>if (x)\<close>, \<open>!x\<close>, \<open>x && y\<close>, \<open>x || y\<close>.\<close>

fun truthy :: "jsval \<Rightarrow> bool" where
  "truthy Undefined = False"
| "truthy Null = False"
| "truthy (Bool b) = b"
| "truthy (Num n) = (n \<noteq> 0)"
| "truthy (Str s) = (s \<noteq> [])"
| "truthy (Arr xs) = True"
| "truthy (Obj ps) = True"
| "truthy (Fn f) = True"

definition js_or :: "jsval \<Rightarrow> jsval \<Rightarrow> jsval" where
  "js_or a b = (if truthy a then a else b)"

text \<open>\<open>typeof x === 'object'\<close>: objects, arrays and \<open>null\<close>, not functions.\<close>

fun typeof_object :: "jsval \<Rightarrow> bool" where
  "typeof_object Null = True"
| "typeof_object (Arr xs) = True"
| "typeof_object (Obj ps) = True"
| "typeof_object v = False"

text \<open>
  Every object literal inherits the members of \<open>Object.prototype\<close>. A read
  \<open>obj[key]\<close> finds the own property first, then the inherited member, and only then
  yields \<open>undefined\<close>.
\<close>

definition objectPrototypeKeys :: "string list" where
  "objectPrototypeKeys =
     [''constructor'', ''__defineGetter__'', ''__defineSetter__'', ''hasOwnProperty'',
      ''__lookupGetter__'', ''__lookupSetter__'', ''isPrototypeOf'',
      ''propertyIsEnumerable'', ''toString'', ''valueOf'', ''__proto__'',
      ''toLocaleString'']"

datatype 'a lookup = Own 'a | Inherited string | Absent

definition js_lookup :: "(string \<times> 'a) list \<Rightarrow> string \<Rightarrow> 'a lookup" where
  "js_lookup props k =
     (case map_of props k of
        Some v \<Rightarrow> Own v
      | None \<Rightarrow> if k \<in> set objectPrototypeKeys then Inherited k else Absent)"

text \<open>
  A field read \<open>item.F\<close> on a decoded record, for a field name \<open>F\<close> that
  \<open>Object.prototype\<close> does not define.
\<close>

definition js_get :: "jsobj \<Rightarrow> string \<Rightarrow> jsval" where
  "js_get props k = (case map_of props k of Some v \<Rightarrow> v | None \<Rightarrow> Undefined)"

text \<open>
  A computed read \<open>obj[key]\<close> on a decoded record, for any key: an inherited member
  is a built-in function, except \<open>__proto__\<close>, which is the prototype object.
\<close>

definition js_index :: "jsobj \<Rightarrow> string \<Rightarrow> jsval" where
  "js_index props k =
     (case js_lookup props k of
        Own v \<Rightarrow> v
      | Inherited m \<Rightarrow> if m = ''__proto__'' then Obj [] else Fn m
      | Absent \<Rightarrow> Undefined)"

text \<open>\<open>'v' in x\<close> and \<open>x.v\<close> for a value \<open>x\<close> that is truthy and of type object.\<close>

fun js_in_v :: "jsval \<Rightarrow> bool" where
  "js_in_v (Obj ps) = (''v'' \<in> set (map fst ps))"
| "js_in_v x = False"

fun js_dot_v :: "jsval \<Rightarrow> jsval" where
  "js_dot_v (Obj ps) = js_get ps ''v''"
| "js_dot_v x = Undefined"

section \<open>Data grouper\<close>

text \<open>
  \<^verbatim>\<open>normalizeDataItem(item)\<close>: the loop \<open>for (const key in item)\<close> assigns
  \<open>normalized[key]\<close> once per key; an assignment replaces an existing property and
  appends a new one.
\<close>

definition wrapped :: "jsval \<Rightarrow> bool" where
  "wrapped x = (truthy x \<and> typeof_object x \<and> js_in_v x)"

definition normalizeStep :: "jsobj \<Rightarrow> string \<Rightarrow> jsobj \<Rightarrow> jsobj" where
  "normalizeStep item key normalized =
     (if wrapped (js_get item key)
      then AList.update key (js_dot_v (js_get item key)) normalized
      else AList.update key (js_get item key) normalized)"

definition normalizeDataItem :: "jsobj \<Rightarrow> jsobj" where
  "normalizeDataItem item = fold (normalizeStep item) (map fst item) []"



text \<open>
  Property keys. \<open>grouped[depot]\<close> converts \<open>depot\<close> to a string first: a number
  prints in decimal, an array joins its elements with commas (\<open>null\<close> and
  \<open>undefined\<close> elements print as nothing), an object prints as \<open>[object Object]\<close>
  unless a decoded \<open>toString\<close> field shadows the inherited method, in which case the
  conversion throws.
\<close>

datatype js_error = TypeError string | Error string

fun errorMessage :: "js_error \<Rightarrow> string" where
  "errorMessage (TypeError m) = m"
| "errorMessage (Error m) = m"

definition digit_char :: "nat \<Rightarrow> char" where
  "digit_char d = ''0123456789'' ! d"

fun show_nat :: "nat \<Rightarrow> string" where
  "show_nat n = (if n < 10 then [digit_char n] else show_nat (n div 10) @ [digit_char (n mod 10)])"

definition show_int :: "int \<Rightarrow> string" where
  "show_int i = (if i < 0 then CHR ''-'' # show_nat (nat (- i)) else show_nat (nat i))"

fun js_toString :: "jsval \<Rightarrow> js_error + string"
  and js_join :: "jsval list \<Rightarrow> js_error + string" where
  "js_toString Undefined = Inr ''undefined''"
| "js_toString Null = Inr ''null''"
| "js_toString (Bool b) = Inr (if b then ''true'' else ''false'')"
| "js_toString (Num n) = Inr (show_int n)"
| "js_toString (Str s) = Inr s"
| "js_toString (Arr xs) = js_join xs"
| "js_toString (Obj ps) =
     (if ''toString'' \<in> set (map fst ps)
      then Inl (TypeError ''Cannot convert object to primitive value'')
      else Inr ''[object Object]'')"
| "js_toString (Fn f) = Inr (''function '' @ f @ ''() { [native code] }'')"
| "js_join [] = Inr []"
| "js_join (x # xs) =
     (case (if x = Undefined \<or> x = Null then Inr [] else js_toString x) of
        Inl e \<Rightarrow> Inl e
      | Inr s \<Rightarrow>
          (if xs = [] then Inr s
           else (case js_join xs of Inl e \<Rightarrow> Inl e | Inr t \<Rightarrow> Inr (s @ '','' @ t))))"

text \<open>
  \<^verbatim>\<open>groupByDepot(dataArray)\<close>. The state of the loop is the object \<open>grouped\<close> (its
  own properties, each an array of normalised items) and the items reported by
  \<open>logger.warn\<close>. \<open>grouped\<close> starts as \<open>{}\<close>, so a depot key that names a member of
  \<open>Object.prototype\<close> reads that member: it is truthy, no array is created, and the
  call of its absent \<open>push\<close> throws.
\<close>

type_synonym grouped = "(string \<times> jsobj list) list"

definition groupStep :: "jsobj \<Rightarrow> grouped \<times> jsobj list \<Rightarrow> js_error + (grouped \<times> jsobj list)" where
  "groupStep item st =
     (case st of (grouped, warned) \<Rightarrow>
        let normalizedItem = normalizeDataItem item;
            depot = js_get normalizedItem ''DEPOT''
        in if \<not> truthy depot then Inr (grouped, warned @ [item])
           else (case js_toString depot of
                   Inl e \<Rightarrow> Inl e
                 | Inr key \<Rightarrow>
                     (case js_lookup grouped key of
                        Absent \<Rightarrow> Inr (AList.update key [normalizedItem] grouped, warned)
                      | Own arr \<Rightarrow> Inr (AList.update key (arr @ [normalizedItem]) grouped, warned)
                      | Inherited m \<Rightarrow> Inl (TypeError ''grouped[depot].push is not a function''))))"

fun groupLoop :: "jsobj list \<Rightarrow> grouped \<times> jsobj list \<Rightarrow> js_error + (grouped \<times> jsobj list)" where
  "groupLoop [] st = Inr st"
| "groupLoop (item # items) st =
     (case groupStep item st of Inl e \<Rightarrow> Inl e | Inr st' \<Rightarrow> groupLoop items st')"

definition groupByDepot :: "jsobj list \<Rightarrow> js_error + (grouped \<times> jsobj list)" where
  "groupByDepot dataArray = groupLoop dataArray ([], [])"

text \<open>
  Vocabulary for the grouping theorems: the depot value of an item, the bucket key it
  is filed under, and the items that can be filed at all.
\<close>

definition depotOf :: "jsobj \<Rightarrow> jsval" where
  "depotOf item = js_get (normalizeDataItem item) ''DEPOT''"

definition depotKey :: "jsobj \<Rightarrow> string option" where
  "depotKey item =
     (if truthy (depotOf item)
      then (case js_toString (depotOf item) of Inl e \<Rightarrow> None | Inr k \<Rightarrow> Some k)
      else None)"

definition fileable :: "jsobj \<Rightarrow> bool" where
  "fileable item =
     (\<not> truthy (depotOf item) \<or>
      (case js_toString (depotOf item) of
         Inl e \<Rightarrow> False
       | Inr k \<Rightarrow> k \<notin> set objectPrototypeKeys))"

definition bucket :: "grouped \<Rightarrow> string \<Rightarrow> jsobj list" where
  "bucket g k = (case map_of g k of Some xs \<Rightarrow> xs | None \<Rightarrow> [])"

text \<open>The invariant of the grouping loop: distinct own keys, none of them an inherited
  name, and no empty bucket.\<close>

definition ginv :: "grouped \<Rightarrow> bool" where
  "ginv g = (distinct (map fst g) \<and> set (map fst g) \<inter> set objectPrototypeKeys = {}
             \<and> (\<forall>k xs. map_of g k = Some xs \<longrightarrow> xs \<noteq> []))"

section \<open>Cycle runner: fetching with retry\<close>

text \<open>A property read \<open>x.name\<close> on a decoded value, for a name that is not inherited.\<close>

fun js_field :: "jsval \<Rightarrow> string \<Rightarrow> jsval" where
  "js_field (Obj ps) k = js_get ps k"
| "js_field x k = Undefined"

text \<open>
  \<^verbatim>\<open>fetchDataWithRetry(apiService, maxRetries = 3)\<close>. The collaborator
  \<open>apiService.getReleaseOrderData()\<close> catches its own failures and resolves to the
  decoded body or to \<open>null\<close>; \<open>api n\<close> is what its call number \<open>n\<close> (from 0)
  resolves to. The state counts the calls made and the ten-second delays slept. The
  loop leaves as soon as \<open>testDataArr && testDataArr.data\<close> is truthy.
\<close>

definition payloadOk :: "jsval \<Rightarrow> bool" where
  "payloadOk testDataArr = (truthy testDataArr \<and> truthy (js_field testDataArr ''data''))"

record fetchState =
  testDataArr :: jsval
  calls :: nat
  delays :: nat

function fetchLoop :: "(nat \<Rightarrow> jsval) \<Rightarrow> nat \<Rightarrow> nat \<Rightarrow> fetchState \<Rightarrow> fetchState" where
  "fetchLoop api maxRetries attempt st =
     (if attempt \<le> maxRetries then
        (let r = api (calls st);
             st1 = st\<lparr>testDataArr := r, calls := calls st + 1\<rparr>
         in if payloadOk r then st1
            else if attempt < maxRetries
              then fetchLoop api maxRetries (attempt + 1) (st1\<lparr>delays := delays st1 + 1\<rparr>)
              else fetchLoop api maxRetries (attempt + 1) st1)
      else st)"
  by pat_completeness auto
termination
  by (relation "measure (\<lambda>(api, maxRetries, attempt, st). maxRetries + 1 - attempt)") auto

definition fetchDataWithRetry :: "(nat \<Rightarrow> jsval) \<Rightarrow> nat \<Rightarrow> fetchState" where
  "fetchDataWithRetry api maxRetries =
     fetchLoop api maxRetries 1 \<lparr>testDataArr = Null, calls = 0, delays = 0\<rparr>"

declare fetchLoop.simps [simp del]

section \<open>Cycle runner: scheduling\<close>

text \<open>
  The event loop runs one callback at a time, and an \<open>async\<close> function gives the loop
  back at every \<open>await\<close>. The scheduler state counts the calls of
  \<open>processAutomation\<close> and of the body of \<open>processRealtimeData\<close> that have started
  and not yet settled. \<open>main\<close> awaits the first \<open>processAutomation()\<close> and only then
  calls \<open>setupAutoRun\<close>, whose \<open>setInterval\<close> callback calls
  \<open>processAutomation()\<close> on every tick. The field \<open>isRunning\<close> is read and written by
  \<open>processRealtimeData\<close> alone. An event that cannot happen in a state leaves it
  unchanged.
\<close>

record scheduler =
  isRunning :: bool
  realtimeInFlight :: nat
  cyclesInFlight :: nat
  startupDone :: bool
  intervalArmed :: bool

datatype sched_event =
    Startup
  | StartupSettled
  | IntervalTick
  | CountdownTick
  | CycleSettled
  | DataChange
  | RealtimeSettled

definition initialScheduler :: scheduler where
  "initialScheduler =
     \<lparr>isRunning = False, realtimeInFlight = 0, cyclesInFlight = 0,
      startupDone = False, intervalArmed = False\<rparr>"

fun sched_step :: "scheduler \<Rightarrow> sched_event \<Rightarrow> scheduler" where
  "sched_step s Startup =
     (if \<not> startupDone s \<and> cyclesInFlight s = 0
      then s\<lparr>cyclesInFlight := 1\<rparr> else s)"
| "sched_step s StartupSettled =
     (if \<not> startupDone s \<and> cyclesInFlight s = 1
      then s\<lparr>cyclesInFlight := 0, startupDone := True, intervalArmed := True\<rparr> else s)"
| "sched_step s IntervalTick =
     (if intervalArmed s then s\<lparr>cyclesInFlight := cyclesInFlight s + 1\<rparr> else s)"
| "sched_step s CountdownTick = s"
| "sched_step s CycleSettled =
     (if startupDone s \<and> 0 < cyclesInFlight s
      then s\<lparr>cyclesInFlight := cyclesInFlight s - 1\<rparr> else s)"
| "sched_step s DataChange =
     (if \<not> isRunning s
      then s\<lparr>isRunning := True, realtimeInFlight := realtimeInFlight s + 1\<rparr> else s)"
| "sched_step s RealtimeSettled =
     (if 0 < realtimeInFlight s
      then s\<lparr>isRunning := False, realtimeInFlight := realtimeInFlight s - 1\<rparr> else s)"

definition sched_run :: "sched_event list \<Rightarrow> scheduler" where
  "sched_run evs = foldl sched_step initialScheduler evs"

text \<open>
  The order in which \<open>for (const depot in grouped)\<close> and \<open>JSON.stringify\<close> visit
  the keys of an object: the keys that are array indices in ascending order, then the
  other keys in the order they were created.
\<close>

definition digitValue :: "char \<Rightarrow> nat option" where
  "digitValue c =
     map_of [(CHR ''0'', 0), (CHR ''1'', 1), (CHR ''2'', 2), (CHR ''3'', 3), (CHR ''4'', 4),
             (CHR ''5'', 5), (CHR ''6'', 6), (CHR ''7'', 7), (CHR ''8'', 8), (CHR ''9'', 9)] c"

fun parseDigits :: "nat \<Rightarrow> string \<Rightarrow> nat option" where
  "parseDigits acc [] = Some acc"
| "parseDigits acc (c # cs) =
     (case digitValue c of None \<Rightarrow> None | Some d \<Rightarrow> parseDigits (10 * acc + d) cs)"

definition arrayIndex :: "string \<Rightarrow> nat option" where
  "arrayIndex key =
     (case parseDigits 0 key of
        None \<Rightarrow> None
      | Some n \<Rightarrow>
          if key \<noteq> [] \<and> show_nat n = key \<and> int n < 4294967295 then Some n else None)"

definition forInKeys :: "(string \<times> 'a) list \<Rightarrow> string list" where
  "forInKeys obj =
     map show_nat (sort (List.map_filter arrayIndex (map fst obj)))
     @ filter (\<lambda>k. arrayIndex k = None) (map fst obj)"

section \<open>Result ledger\<close>

text \<open>
  The entries of the two result files. \<open>releaseOrderID\<close> and
  \<open>releaseOrderNumber\<close> are the item's fields or the placeholders \<open>'-1'\<close> and
  \<open>'N/A'\<close>, so they are always truthy values that a JSON file gives back unchanged.
\<close>

record failedItem =
  f_depot :: string
  f_releaseOrderID :: jsval
  f_releaseOrderNumber :: jsval
  f_reason :: string
  f_timestamp :: string

record successItem =
  s_depot :: string
  s_releaseOrderID :: jsval
  s_releaseOrderNumber :: jsval
  s_timestamp :: string

record failedContent =
  fc_timestamp :: string
  fc_total :: nat
  fc_data :: "failedItem list"

record successContent =
  sc_timestamp :: string
  sc_total :: nat
  sc_data :: "successItem list"

text \<open>
  The state a cycle works on: the automation surface (browser, contexts and pages), the
  two result files, the in-memory success list and the clock. A file is \<open>None\<close> when
  \<open>fs.readJson\<close> throws on it (missing, not JSON, or without a \<open>data\<close> array);
  writes are taken to succeed. \<open>groupedFile\<close> holds what
  \<open>saveGroupedDataToFile\<close> wrote last: the summary and the groups.
\<close>

record 's world =
  surf :: 's
  failedFile :: "failedContent option"
  successFile :: "successContent option"
  groupedFile :: "((string \<times> nat) list \<times> grouped) option"
  successList :: "successItem list"
  now :: string

definition initResultFiles :: "'s world \<Rightarrow> 's world" where
  "initResultFiles w =
     w\<lparr>successFile := Some \<lparr>sc_timestamp = now w, sc_total = 0, sc_data = []\<rparr>,
       failedFile := Some \<lparr>fc_timestamp = now w, fc_total = 0, fc_data = []\<rparr>\<rparr>"

text \<open>
  \<^verbatim>\<open>appendFailedToFile(failedFile, failedItem)\<close>: the whole body is in \<open>try\<close>, and
  the \<open>catch\<close> only logs, so an unreadable file stays as it is and the item is dropped.
\<close>

definition appendFailedToFile :: "failedItem \<Rightarrow> 's world \<Rightarrow> 's world" where
  "appendFailedToFile failedItem w =
     (case failedFile w of
        None \<Rightarrow> w
      | Some content \<Rightarrow>
          w\<lparr>failedFile :=
              Some (content\<lparr>fc_data := fc_data content @ [failedItem],
                             fc_total := length (fc_data content @ [failedItem])\<rparr>)\<rparr>)"

definition getFailedROs :: "'s world \<Rightarrow> jsval list" where
  "getFailedROs w =
     (case failedFile w of
        None \<Rightarrow> []
      | Some content \<Rightarrow> map f_releaseOrderNumber (fc_data content))"

definition saveSuccessToFile :: "'s world \<Rightarrow> 's world" where
  "saveSuccessToFile w =
     w\<lparr>successFile :=
         Some \<lparr>sc_timestamp = now w, sc_total = length (successList w),
               sc_data = successList w\<rparr>\<rparr>"

definition saveGroupedDataToFile :: "grouped \<Rightarrow> 's world \<Rightarrow> 's world" where
  "saveGroupedDataToFile g w =
     w\<lparr>groupedFile :=
         Some (map (\<lambda>depot. (depot, length (bucket g depot))) (forInKeys g),
               map (\<lambda>depot. (depot, bucket g depot)) (forInKeys g))\<rparr>"

text \<open>
  \<^verbatim>\<open>printResultSummary\<close> reads the failed file outside any \<open>try\<close>; it yields the
  three totals it prints: processed, success, failed.
\<close>

definition printResultSummary :: "'s world \<Rightarrow> js_error + (nat \<times> nat \<times> nat)" where
  "printResultSummary w =
     (case failedFile w of
        None \<Rightarrow> Inl (Error ''cannot read the failed file'')
      | Some content \<Rightarrow>
          Inr (length (successList w) + fc_total content, length (successList w),
               fc_total content))"

text \<open>The failed entry every caller builds from an item, a depot and a reason.\<close>

definition failedEntry :: "string \<Rightarrow> jsobj \<Rightarrow> string \<Rightarrow> string \<Rightarrow> failedItem" where
  "failedEntry depot item reason ts =
     \<lparr>f_depot = depot,
      f_releaseOrderID = js_or (js_get item ''ID'') (Str ''-1''),
      f_releaseOrderNumber = js_or (js_get item ''releaseOrderNumber'') (Str ''N/A''),
      f_reason = reason,
      f_timestamp = ts\<rparr>"

text \<open>
  The loop \<open>for (const item of grouped[depot]) appendFailedToFile(...)\<close> that
  \<open>processDepot\<close> and \<open>processAutomation\<close> share, for a fixed reason.
\<close>

fun failAll :: "string \<Rightarrow> string \<Rightarrow> jsobj list \<Rightarrow> 's world \<Rightarrow> 's world" where
  "failAll depot reason [] w = w"
| "failAll depot reason (item # items) w =
     failAll depot reason items (appendFailedToFile (failedEntry depot item reason (now w)) w)"

text \<open>
  \<^verbatim>\<open>markRemainingAsFailed(grouped, depot, failedFile, successList)\<close>. The set
  \<open>processedROs\<close> is built once, before the loop. \<open>grouped[depot]\<close> must be an
  array for \<open>for ... of\<close> to iterate.
\<close>

fun markLoop :: "string \<Rightarrow> jsval list \<Rightarrow> jsobj list \<Rightarrow> 's world \<Rightarrow> 's world" where
  "markLoop depot processedROs [] w = w"
| "markLoop depot processedROs (item # items) w =
     (let roNumber = js_or (js_get item ''releaseOrderNumber'') (Str ''N/A'')
      in if roNumber \<notin> set processedROs
         then markLoop depot processedROs items
                (appendFailedToFile
                   (failedEntry depot item ''Browser/Page closed unexpectedly'' (now w)) w)
         else markLoop depot processedROs items w)"

definition markRemainingAsFailed :: "grouped \<Rightarrow> string \<Rightarrow> 's world \<Rightarrow> js_error option \<times> 's world" where
  "markRemainingAsFailed grouped depot w =
     (let processedROs = map s_releaseOrderNumber (successList w) @ getFailedROs w
      in case js_lookup grouped depot of
           Own items \<Rightarrow> (None, markLoop depot processedROs items w)
         | Inherited m \<Rightarrow> (Some (TypeError ''grouped[depot] is not iterable''), w)
         | Absent \<Rightarrow> (Some (TypeError ''grouped[depot] is not iterable''), w))"

section \<open>Automation surface\<close>

text \<open>
  The browser driver is a collaborator: its operations are parameters. \<open>'s\<close> is the
  state of the whole surface (browser, contexts, pages and the site behind them),
  \<open>'c\<close>, \<open>'g\<close> and \<open>'e\<close> are the handles of contexts, pages and elements. An
  operation that acts or waits returns the error it throws, if any, and the next state;
  an operation that only reads the page leaves the state alone.
\<close>

type_synonym 's act = "'s \<Rightarrow> js_error option \<times> 's"

record ('s, 'c, 'g, 'e) surface =
  s_newContext :: "'s \<Rightarrow> (js_error + 'c) \<times> 's"
  s_newPage :: "'c \<Rightarrow> 's \<Rightarrow> (js_error + 'g) \<times> 's"
  s_closeContext :: "'c \<Rightarrow> 's act"
  s_goto :: "'g \<Rightarrow> string \<Rightarrow> 's act"
  s_waitForLoadState :: "'g \<Rightarrow> 's act"
  s_waitForTimeout :: "'g \<Rightarrow> nat \<Rightarrow> 's act"
  s_waitForSelector :: "'g \<Rightarrow> string \<Rightarrow> 's act"
  s_click :: "'g \<Rightarrow> string \<Rightarrow> 's act"
  s_fill :: "'g \<Rightarrow> string \<Rightarrow> jsval \<Rightarrow> 's act"
  s_selectOption :: "'g \<Rightarrow> string \<Rightarrow> jsval \<Rightarrow> 's act"
  s_hover :: "'g \<Rightarrow> string \<Rightarrow> 's act"
  s_scrollIntoView :: "'g \<Rightarrow> string \<Rightarrow> 's act"
  s_elemClick :: "'e \<Rightarrow> 's act"
  s_query :: "'g \<Rightarrow> string \<Rightarrow> 's \<Rightarrow> js_error + 'e option"
  s_queryAll :: "'g \<Rightarrow> string \<Rightarrow> 's \<Rightarrow> js_error + 'e list"
  s_elemQuery :: "'e \<Rightarrow> string \<Rightarrow> 's \<Rightarrow> js_error + 'e option"
  s_textContent :: "'e \<Rightarrow> 's \<Rightarrow> js_error + string option"
  s_display :: "'e \<Rightarrow> 's \<Rightarrow> js_error + string"
  s_evalText :: "'g \<Rightarrow> string \<Rightarrow> 's \<Rightarrow> js_error + string"

text \<open>Sequencing of awaited calls, and \<open>.catch(() => {})\<close>.\<close>

definition andThen :: "'s act \<Rightarrow> 's act \<Rightarrow> 's act" where
  "andThen f g s = (case f s of (Some e, s') \<Rightarrow> (Some e, s') | (None, s') \<Rightarrow> g s')"

definition swallow :: "'s act \<Rightarrow> 's act" where
  "swallow f s = (None, snd (f s))"

definition onSurf :: "'s act \<Rightarrow> 's world \<Rightarrow> js_error option \<times> 's world" where
  "onSurf f w = (case f (surf w) of (r, s') \<Rightarrow> (r, w\<lparr>surf := s'\<rparr>))"

section \<open>Action interpreter\<close>

text \<open>
  An entry of \<open>siteConfig.actions\<close>. \<open>firstOnly\<close> is the truthiness of the field,
  \<open>delay\<close> is \<open>0\<close> when the field is absent, \<open>matchField\<close> is
  \<open>{value, selector}\<close> when present. \<open>print_url\<close> only adds log lines and is left out.
\<close>

record matchFieldSpec =
  mf_value :: string
  mf_selector :: string

record action =
  a_type :: string
  a_selector :: string
  a_value :: jsval
  a_firstOnly :: bool
  a_matchField :: "matchFieldSpec option"
  a_typeAction :: string
  a_delay :: nat

record siteConfig =
  sc_url :: string
  sc_actions :: "action list"

text \<open>String helpers: \<open>startsWith\<close>, \<open>includes\<close>, \<open>trim\<close>, \<open>split('.')\<close>.\<close>

fun startsWith :: "string \<Rightarrow> string \<Rightarrow> bool" where
  "startsWith s [] = True"
| "startsWith [] (c # cs) = False"
| "startsWith (d # ds) (c # cs) = (d = c \<and> startsWith ds cs)"

fun str_includes :: "string \<Rightarrow> string \<Rightarrow> bool" where
  "str_includes [] m = (m = [])"
| "str_includes (c # cs) m = (startsWith (c # cs) m \<or> str_includes cs m)"

definition js_space :: "char \<Rightarrow> bool" where
  "js_space c = (c \<in> set [CHR '' '', CHR 0x09, CHR 0x0A, CHR 0x0B, CHR 0x0C, CHR 0x0D])"

definition js_trim :: "string \<Rightarrow> string" where
  "js_trim s = rev (dropWhile js_space (rev (dropWhile js_space s)))"

fun splitDots :: "string \<Rightarrow> string \<Rightarrow> string list" where
  "splitDots acc [] = [rev acc]"
| "splitDots acc (c # cs) =
     (if c = CHR ''.'' then rev acc # splitDots [] cs else splitDots (c # acc) cs)"

text \<open>
  \<^verbatim>\<open>getNestedValue\<close> and \<^verbatim>\<open>resolveValue\<close>: \<open>current?.[key]\<close> is
  \<open>undefined\<close> on \<open>null\<close> and \<open>undefined\<close>, and a computed read otherwise: of
  a record, of an element of an array or a character of a string by its index, or of
  their \<open>length\<close>. The methods that arrays, strings, numbers, booleans and
  functions inherit are not modelled and read as \<open>undefined\<close>.
\<close>

fun js_optIndex :: "jsval \<Rightarrow> string \<Rightarrow> jsval" where
  "js_optIndex (Obj ps) key = js_index ps key"
| "js_optIndex (Arr xs) key =
     (case arrayIndex key of
        Some n \<Rightarrow> if n < length xs then xs ! n else Undefined
      | None \<Rightarrow> if key = ''length'' then Num (int (length xs)) else Undefined)"
| "js_optIndex (Str cs) key =
     (case arrayIndex key of
        Some n \<Rightarrow> if n < length cs then Str [cs ! n] else Undefined
      | None \<Rightarrow> if key = ''length'' then Num (int (length cs)) else Undefined)"
| "js_optIndex v key = Undefined"

definition getNestedValue :: "jsval \<Rightarrow> string \<Rightarrow> jsval" where
  "getNestedValue obj path = foldl js_optIndex obj (splitDots [] path)"

definition resolveValue :: "jsval \<Rightarrow> jsobj \<Rightarrow> jsval" where
  "resolveValue v data =
     (case v of
        Str str \<Rightarrow> if startsWith str ''data.'' then getNestedValue (Obj data) (drop 5 str) else v
      | _ \<Rightarrow> v)"

text \<open>
  The method call \<open>x.toString()\<close>: it throws on \<open>undefined\<close> and \<open>null\<close>, and on
  a record whose own \<open>toString\<close> field hides the method.
\<close>

fun js_call_toString :: "jsval \<Rightarrow> js_error + string" where
  "js_call_toString Undefined =
     Inl (TypeError ''Cannot read properties of undefined (reading toString)'')"
| "js_call_toString Null =
     Inl (TypeError ''Cannot read properties of null (reading toString)'')"
| "js_call_toString (Obj ps) =
     (if ''toString'' \<in> set (map fst ps)
      then Inl (TypeError ''toString is not a function'')
      else Inr ''[object Object]'')"
| "js_call_toString v = js_toString v"

text \<open>
  The \<open>firstOnly\<close> branch of a click. \<open>elementMatches\<close> is one turn of the scan: the
  \<open>try\<close> body finds the sub-element, reads its text, and accepts a non-empty text
  whose trimmed form includes \<open>matchValue\<close>; a throw inside is caught and the scan
  goes on.
\<close>

definition elementMatches ::
    "('s, 'c, 'g, 'e) surface \<Rightarrow> string \<Rightarrow> string \<Rightarrow> 'e \<Rightarrow> 's \<Rightarrow> bool" where
  "elementMatches sf fieldSelector matchValue element s =
     (case s_elemQuery sf element fieldSelector s of
        Inl e \<Rightarrow> False
      | Inr None \<Rightarrow> False
      | Inr (Some fieldElement) \<Rightarrow>
          (case s_textContent sf fieldElement s of
             Inl e \<Rightarrow> False
           | Inr None \<Rightarrow> False
           | Inr (Some fieldValue) \<Rightarrow>
               fieldValue \<noteq> [] \<and> str_includes (js_trim fieldValue) matchValue))"

fun scanElements ::
    "('s, 'c, 'g, 'e) surface \<Rightarrow> string \<Rightarrow> string \<Rightarrow> 'e list \<Rightarrow> 'e \<Rightarrow> 's \<Rightarrow> 'e" where
  "scanElements sf fieldSelector matchValue [] targetElement s = targetElement"
| "scanElements sf fieldSelector matchValue (element # elements) targetElement s =
     (if elementMatches sf fieldSelector matchValue element s then element
      else scanElements sf fieldSelector matchValue elements targetElement s)"

definition clickFirstOnly ::
    "('s, 'c, 'g, 'e) surface \<Rightarrow> 'g \<Rightarrow> action \<Rightarrow> jsobj \<Rightarrow> 's act" where
  "clickFirstOnly sf page action data s =
     (case s_queryAll sf page (a_selector action) s of
        Inl e \<Rightarrow> (Some e, s)
      | Inr [] \<Rightarrow>
          (Some (Error (''No elements found for selector: '' @ a_selector action)), s)
      | Inr (first # others) \<Rightarrow>
          (case a_matchField action of
             None \<Rightarrow> s_elemClick sf first s
           | Some matchField \<Rightarrow>
               (case js_call_toString (js_index data (mf_value matchField)) of
                  Inl e \<Rightarrow> (Some e, s)
                | Inr matchValue \<Rightarrow>
                    s_elemClick sf
                      (scanElements sf (mf_selector matchField) matchValue (first # others) first s)
                      s)))"

text \<open>
  \<^verbatim>\<open>executeAction(page, action, data)\<close>. Every known kind first requires
  \<open>page.$(selector)\<close> to find an element (a throw of that query counts as none). The
  outer \<open>catch\<close> logs and rethrows, so a throw of any step is the result.
\<close>

definition selectorExists :: "('s, 'c, 'g, 'e) surface \<Rightarrow> 'g \<Rightarrow> string \<Rightarrow> 's \<Rightarrow> bool" where
  "selectorExists sf page selector s =
     (case s_query sf page selector s of Inr (Some el) \<Rightarrow> True | _ \<Rightarrow> False)"

definition requireSelector :: "('s, 'c, 'g, 'e) surface \<Rightarrow> 'g \<Rightarrow> string \<Rightarrow> 's act \<Rightarrow> 's act" where
  "requireSelector sf page selector rest s =
     (if selectorExists sf page selector s then rest s
      else (Some (Error (''Selector not found: '' @ selector)), s))"

definition executeAction ::
    "('s, 'c, 'g, 'e) surface \<Rightarrow> 'g \<Rightarrow> action \<Rightarrow> jsobj \<Rightarrow> 's act" where
  "executeAction sf page action data =
     (let selector = a_selector action in
      if a_type action = ''click'' then
        requireSelector sf page selector
          (andThen (s_waitForSelector sf page selector)
            (andThen
               (if a_firstOnly action then clickFirstOnly sf page action data
                else s_click sf page selector)
               (swallow (s_waitForLoadState sf page))))
      else if a_type action = ''input'' then
        requireSelector sf page selector
          (andThen (s_waitForSelector sf page selector)
             (s_fill sf page selector (resolveValue (a_value action) data)))
      else if a_type action = ''select'' then
        requireSelector sf page selector
          (andThen (s_waitForSelector sf page selector)
             (s_selectOption sf page selector (resolveValue (a_value action) data)))
      else if a_type action = ''wait'' then
        requireSelector sf page selector (s_waitForSelector sf page selector)
      else if a_type action = ''scroll'' then
        requireSelector sf page selector (s_scrollIntoView sf page selector)
      else if a_type action = ''hover'' then
        requireSelector sf page selector
          (andThen (s_waitForSelector sf page selector) (s_hover sf page selector))
      else (\<lambda>s. (None, s)))"

section \<open>Popup classifier\<close>

text \<open>
  \<^verbatim>\<open>checkAndHandlePopup(page)\<close> looks at the success, error and warning popups in
  this order. The result is the verdict (\<open>None\<close> for \<open>null\<close>) and the message it
  logged; the message read and the click on the close button have their own
  \<open>catch\<close>, and a throw of any other step makes the verdict \<open>null\<close>.
\<close>

definition popupShown :: "('s, 'c, 'g, 'e) surface \<Rightarrow> 'g \<Rightarrow> string \<Rightarrow> 's \<Rightarrow> js_error + bool" where
  "popupShown sf page selector s =
     (case s_query sf page selector s of
        Inl e \<Rightarrow> Inl e
      | Inr None \<Rightarrow> Inr False
      | Inr (Some popup) \<Rightarrow>
          (case s_display sf popup s of
             Inl e \<Rightarrow> Inl e
           | Inr display \<Rightarrow> Inr (display = ''block'')))"

definition popupMessage :: "('s, 'c, 'g, 'e) surface \<Rightarrow> 'g \<Rightarrow> string \<Rightarrow> 's \<Rightarrow> string" where
  "popupMessage sf page selector s =
     (case s_evalText sf page selector s of Inl e \<Rightarrow> ''N/A'' | Inr message \<Rightarrow> message)"

definition handlePopup ::
    "('s, 'c, 'g, 'e) surface \<Rightarrow> 'g \<Rightarrow> string \<Rightarrow> string \<Rightarrow> string \<Rightarrow> 's
       \<Rightarrow> (string option \<times> string option) \<times> 's" where
  "handlePopup sf page verdict messageSelector closeSelector s =
     ((Some verdict, Some (popupMessage sf page messageSelector s)),
      snd (s_click sf page closeSelector s))"

definition checkAndHandlePopup ::
    "('s, 'c, 'g, 'e) surface \<Rightarrow> 'g \<Rightarrow> 's \<Rightarrow> (string option \<times> string option) \<times> 's" where
  "checkAndHandlePopup sf page s =
     (case popupShown sf page ''#popup-Success'' s of
        Inl e \<Rightarrow> ((None, None), s)
      | Inr True \<Rightarrow>
          handlePopup sf page ''success'' ''#spn_SuccessMessage'' ''#btn_SuccessPopupClose'' s
      | Inr False \<Rightarrow>
          (case popupShown sf page ''#popup-Error'' s of
             Inl e \<Rightarrow> ((None, None), s)
           | Inr True \<Rightarrow>
               handlePopup sf page ''error'' ''#p_ErrorPopupMessage'' ''#btn_ErrorPopupClose'' s
           | Inr False \<Rightarrow>
               (case popupShown sf page ''#popup-Warn'' s of
                  Inl e \<Rightarrow> ((None, None), s)
                | Inr True \<Rightarrow>
                    handlePopup sf page ''warning'' ''#p_WarningPopupMessage''
                      ''#btn_WarnPopupClose'' s
                | Inr False \<Rightarrow> ((None, None), s))))"

section \<open>Session orchestrator\<close>

text \<open>
  \<^verbatim>\<open>processLogin\<close>: the login actions in order; nothing is caught here, and the
  popup verdict is ignored.
\<close>

definition delayOf :: "('s, 'c, 'g, 'e) surface \<Rightarrow> 'g \<Rightarrow> action \<Rightarrow> 's act" where
  "delayOf sf page action s =
     (if a_delay action \<noteq> 0 then s_waitForTimeout sf page (a_delay action) s else (None, s))"

fun processLogin ::
    "('s, 'c, 'g, 'e) surface \<Rightarrow> 'g \<Rightarrow> action list \<Rightarrow> jsobj \<Rightarrow> 's act" where
  "processLogin sf page [] loginData s = (None, s)"
| "processLogin sf page (action # actions) loginData s =
     (if a_typeAction action \<noteq> ''login'' then processLogin sf page actions loginData s
      else (case andThen (executeAction sf page action loginData) (delayOf sf page action) s of
              (Some e, s1) \<Rightarrow> (Some e, s1)
            | (None, s1) \<Rightarrow>
                processLogin sf page actions loginData (snd (checkAndHandlePopup sf page s1))))"

text \<open>
  The action loop of \<^verbatim>\<open>processReleaseOrder\<close>. Its result is the pair
  \<open>(actionFailed, errorReason)\<close> the loop leaves behind: a thrown error breaks the loop
  with \<open>error.message || 'Action execution failed'\<close>, an error or warning verdict
  breaks it with \<open>Popup\<close>, the verdict and \<open>detected\<close>.
\<close>

definition reasonOfError :: "js_error \<Rightarrow> string" where
  "reasonOfError e = (if errorMessage e \<noteq> [] then errorMessage e else ''Action execution failed'')"

fun roActions ::
    "('s, 'c, 'g, 'e) surface \<Rightarrow> 'g \<Rightarrow> action list \<Rightarrow> jsobj \<Rightarrow> 's \<Rightarrow> (bool \<times> string) \<times> 's" where
  "roActions sf page [] roData s = ((False, []), s)"
| "roActions sf page (action # actions) roData s =
     (if a_typeAction action \<noteq> ''roData'' then roActions sf page actions roData s
      else (case andThen (executeAction sf page action roData) (delayOf sf page action) s of
              (Some e, s1) \<Rightarrow> ((True, reasonOfError e), s1)
            | (None, s1) \<Rightarrow>
                (case checkAndHandlePopup sf page s1 of
                   ((Some checkpopup, logged), s2) \<Rightarrow>
                     if checkpopup = ''error'' \<or> checkpopup = ''warning''
                     then ((True, ''Popup '' @ checkpopup @ '' detected''), s2)
                     else roActions sf page actions roData s2
                 | ((None, logged), s2) \<Rightarrow> roActions sf page actions roData s2)))"

definition successEntry :: "string \<Rightarrow> jsobj \<Rightarrow> string \<Rightarrow> successItem" where
  "successEntry depot roData ts =
     \<lparr>s_depot = depot,
      s_releaseOrderID = js_or (js_get roData ''ID'') (Str ''-1''),
      s_releaseOrderNumber = js_or (js_get roData ''releaseOrderNumber'') (Str ''N/A''),
      s_timestamp = ts\<rparr>"

definition processReleaseOrder ::
    "('s, 'c, 'g, 'e) surface \<Rightarrow> 'g \<Rightarrow> siteConfig \<Rightarrow> jsobj \<Rightarrow> string \<Rightarrow> 's world \<Rightarrow> 's world" where
  "processReleaseOrder sf page siteConfig roData depot w =
     (case roActions sf page (sc_actions siteConfig) roData (surf w) of
        ((actionFailed, errorReason), s') \<Rightarrow>
          if actionFailed
          then appendFailedToFile (failedEntry depot roData errorReason (now w)) (w\<lparr>surf := s'\<rparr>)
          else w\<lparr>surf := s', successList := successList w @ [successEntry depot roData (now w)]\<rparr>)"

text \<open>
  The object \<open>{account, ...item}\<close>: the property \<open>account\<close>, then the item's own
  properties, a field \<open>account\<close> of the item replacing the value.
\<close>

definition withAccount :: "jsval \<Rightarrow> jsobj \<Rightarrow> jsobj" where
  "withAccount account item = fold (\<lambda>(k, v). AList.update k v) item [(''account'', account)]"

fun processItems ::
    "('s, 'c, 'g, 'e) surface \<Rightarrow> 'g \<Rightarrow> siteConfig \<Rightarrow> jsval \<Rightarrow> string \<Rightarrow> jsobj list
       \<Rightarrow> 's world \<Rightarrow> 's world" where
  "processItems sf page siteConfig account depot [] w = w"
| "processItems sf page siteConfig account depot (item # items) w =
     processItems sf page siteConfig account depot items
       (processReleaseOrder sf page siteConfig (withAccount account item) depot w)"

text \<open>
  \<^verbatim>\<open>processDepot\<close>. Without a truthy \<open>accounts[depot]\<close> every item of the depot
  is written to the failed file and the function returns. Otherwise: navigation, login,
  the items, logout. Only \<open>processReleaseOrder\<close> catches; a throw of any other step
  leaves the function.
\<close>

definition logoutAction :: action where
  "logoutAction =
     \<lparr>a_type = ''click'', a_selector = ''.btn.btn-logout.logout-btn'', a_value = Undefined,
      a_firstOnly = False, a_matchField = None, a_typeAction = [], a_delay = 1000\<rparr>"

definition processDepot ::
    "('s, 'c, 'g, 'e) surface \<Rightarrow> string \<Rightarrow> grouped \<Rightarrow> jsobj \<Rightarrow> siteConfig \<Rightarrow> 'g
       \<Rightarrow> 's world \<Rightarrow> js_error option \<times> 's world" where
  "processDepot sf depot grouped accounts siteConfig page w =
     (let account = js_index accounts depot;
          depotItems = js_lookup grouped depot
      in if \<not> truthy account
         then (case depotItems of
                 Own items \<Rightarrow> (None, failAll depot ''No account configured for depot'' items w)
               | Inherited m \<Rightarrow> (Some (TypeError ''grouped[depot] is not iterable''), w)
               | Absent \<Rightarrow> (Some (TypeError ''grouped[depot] is not iterable''), w))
         else (case depotItems of
                 Absent \<Rightarrow> (Some (TypeError ''Cannot read properties of undefined (reading 0)''), w)
               | _ \<Rightarrow>
                 (let loginData =
                        withAccount account
                          (case depotItems of Own (first # others) \<Rightarrow> first | _ \<Rightarrow> [])
                  in case onSurf
                       (andThen (s_goto sf page (sc_url siteConfig))
                         (andThen (s_waitForLoadState sf page)
                            (processLogin sf page (sc_actions siteConfig) loginData))) w of
                       (Some e, w1) \<Rightarrow> (Some e, w1)
                     | (None, w1) \<Rightarrow>
                         (case depotItems of
                            Own items \<Rightarrow>
                              onSurf
                                (andThen (s_waitForTimeout sf page 1000)
                                  (andThen (executeAction sf page logoutAction loginData)
                                     (s_waitForTimeout sf page 1000)))
                                (processItems sf page siteConfig account depot items w1)
                          | _ \<Rightarrow> (Some (TypeError ''grouped[depot] is not iterable''), w1)))))"

section \<open>Cycle runner: one cycle\<close>

text \<open>
  The test \<open>processAutomation\<close> applies to the message of an error caught around
  \<open>processDepot\<close>.
\<close>

definition surfaceClosedMessage :: "string \<Rightarrow> bool" where
  "surfaceClosedMessage m =
     (m \<noteq> [] \<and>
      (str_includes m ''Target page, context or browser has been closed'' \<or>
       str_includes m ''Target closed'' \<or>
       str_includes m ''Browser has been closed''))"

text \<open>
  The body of the loop \<open>for (const depot in grouped)\<close>. A context and a page are
  opened before \<open>processDepot\<close> is called, outside the \<open>try\<close>; the \<open>finally\<close>
  closes the context on every path, a second time after a closed-surface error. The
  result says whether the loop goes on, stops (\<open>break\<close>), or is left by a throw.
\<close>

datatype loopExit = Continue | Break

definition closeQuietly :: "('s, 'c, 'g, 'e) surface \<Rightarrow> 'c \<Rightarrow> 's world \<Rightarrow> 's world" where
  "closeQuietly sf context w = w\<lparr>surf := snd (s_closeContext sf context (surf w))\<rparr>"

definition cycleDepot ::
    "('s, 'c, 'g, 'e) surface \<Rightarrow> jsobj \<Rightarrow> siteConfig \<Rightarrow> grouped \<Rightarrow> string
       \<Rightarrow> 's world \<Rightarrow> (js_error + loopExit) \<times> 's world" where
  "cycleDepot sf accounts siteConfig grouped depot w =
     (case s_newContext sf (surf w) of
        (Inl e, s1) \<Rightarrow> (Inl e, w\<lparr>surf := s1\<rparr>)
      | (Inr context, s1) \<Rightarrow>
          (case s_newPage sf context s1 of
             (Inl e, s2) \<Rightarrow> (Inl e, w\<lparr>surf := s2\<rparr>)
           | (Inr page, s2) \<Rightarrow>
               (case processDepot sf depot grouped accounts siteConfig page (w\<lparr>surf := s2\<rparr>) of
                  (None, w1) \<Rightarrow> (Inr Continue, closeQuietly sf context w1)
                | (Some error, w1) \<Rightarrow>
                    if surfaceClosedMessage (errorMessage error)
                    then (case markRemainingAsFailed grouped depot (saveSuccessToFile w1) of
                            (Some e, w2) \<Rightarrow> (Inl e, closeQuietly sf context w2)
                          | (None, w2) \<Rightarrow>
                              (Inr Break, closeQuietly sf context (closeQuietly sf context w2)))
                    else (case js_lookup grouped depot of
                            Own items \<Rightarrow>
                              (Inr Continue,
                               closeQuietly sf context
                                 (failAll depot (''Depot processing error: '' @ errorMessage error)
                                    items w1))
                          | Inherited m \<Rightarrow>
                              (Inl (TypeError ''grouped[depot] is not iterable''),
                               closeQuietly sf context w1)
                          | Absent \<Rightarrow>
                              (Inl (TypeError ''grouped[depot] is not iterable''),
                               closeQuietly sf context w1)))))"

fun cycleLoop ::
    "('s, 'c, 'g, 'e) surface \<Rightarrow> jsobj \<Rightarrow> siteConfig \<Rightarrow> grouped \<Rightarrow> string list
       \<Rightarrow> 's world \<Rightarrow> js_error option \<times> 's world" where
  "cycleLoop sf accounts siteConfig grouped [] w = (None, w)"
| "cycleLoop sf accounts siteConfig grouped (depot # depots) w =
     (case cycleDepot sf accounts siteConfig grouped depot w of
        (Inl e, w1) \<Rightarrow> (Some e, w1)
      | (Inr Break, w1) \<Rightarrow> (None, w1)
      | (Inr Continue, w1) \<Rightarrow> cycleLoop sf accounts siteConfig grouped depots w1)"

text \<open>
  \<^verbatim>\<open>processAutomation\<close>, one cycle: fetch, leave when there is no data or the list
  is empty, group, save the grouping, create the result files, run the depots, save the
  success list and print the summary. \<open>ownFields\<close> is what \<open>for (const key in item)\<close>
  finds in an element of the data: the fields of a record, the indices of an array or a
  string, nothing in a primitive. \<open>iterateData\<close> is \<open>for (const item of dataArray)\<close>.
\<close>

fun ownFields :: "jsval \<Rightarrow> jsobj" where
  "ownFields (Obj ps) = ps"
| "ownFields (Arr xs) = zip (map show_nat [0..<length xs]) xs"
| "ownFields (Str cs) = zip (map show_nat [0..<length cs]) (map (\<lambda>c. Str [c]) cs)"
| "ownFields v = []"

fun lengthIsZero :: "jsval \<Rightarrow> bool" where
  "lengthIsZero (Arr xs) = (xs = [])"
| "lengthIsZero (Str cs) = (cs = [])"
| "lengthIsZero (Obj ps) = (js_get ps ''length'' = Num 0)"
| "lengthIsZero v = False"

fun iterateData :: "jsval \<Rightarrow> js_error + jsobj list" where
  "iterateData (Arr xs) = Inr (map ownFields xs)"
| "iterateData (Str cs) = Inr (map (\<lambda>c. ownFields (Str [c])) cs)"
| "iterateData v = Inl (TypeError ''dataArray is not iterable'')"

definition processAutomation ::
    "('s, 'c, 'g, 'e) surface \<Rightarrow> (nat \<Rightarrow> jsval) \<Rightarrow> jsobj \<Rightarrow> siteConfig
       \<Rightarrow> 's world \<Rightarrow> js_error option \<times> 's world" where
  "processAutomation sf api accounts siteConfig w =
     (let testDataArr = testDataArr (fetchDataWithRetry api 3) in
      if \<not> payloadOk testDataArr then (None, w)
      else if lengthIsZero (js_field testDataArr ''data'') then (None, w)
      else (case iterateData (js_field testDataArr ''data'') of
              Inl e \<Rightarrow> (Some e, w)
            | Inr dataArray \<Rightarrow>
                (case groupByDepot dataArray of
                   Inl e \<Rightarrow> (Some e, w)
                 | Inr (grouped, warned) \<Rightarrow>
                     (case cycleLoop sf accounts siteConfig grouped (forInKeys grouped)
                             (initResultFiles (saveGroupedDataToFile grouped w)) of
                        (Some e, w1) \<Rightarrow> (Some e, w1)
                      | (None, w1) \<Rightarrow>
                          (case printResultSummary (saveSuccessToFile w1) of
                             Inl e \<Rightarrow> (Some e, saveSuccessToFile w1)
                           | Inr totals \<Rightarrow> (None, saveSuccessToFile w1))))))"

section \<open>A test double of the surface\<close>

text \<open>
  A small scripted site, used to run the definitions on concrete inputs. Handles are
  numbers. Every selector finds an element except \<open>#missing\<close>; a list query finds the
  rows \<open>1\<close>, \<open>2\<close>, \<open>3\<close>, whose sub-elements \<open>11\<close>, \<open>12\<close>, \<open>13\<close> carry the texts
  \<open>RO-1001\<close>, \<open>RO-2002\<close> (with blanks around it) and \<open>RO-3003\<close>. Filling in
  \<open>BAD\<close> raises the error popup, \<open>ODD\<close> the warning popup, \<open>BOOM\<close> throws, and any
  other value raises the success popup; a click on the page closes the popup. Once the
  browser is gone every navigation and every wait throws. The logout button can be
  taken away.
\<close>

record demo =
  d_contexts :: nat
  d_closed :: nat
  d_visited :: "string list"
  d_filled :: "jsval list"
  d_clicked :: "nat list"
  d_popup :: string
  d_alive :: bool
  d_logout :: bool

definition demoInit :: demo where
  "demoInit =
     \<lparr>d_contexts = 0, d_closed = 0, d_visited = [], d_filled = [], d_clicked = [],
      d_popup = [], d_alive = True, d_logout = True\<rparr>"

definition demoGone :: js_error where
  "demoGone = Error ''page.goto: Target page, context or browser has been closed''"

definition demoFill :: "jsval \<Rightarrow> demo act" where
  "demoFill v s =
     (if v = Str ''BOOM'' then (Some (Error ''Element is not an input''), s)
      else (None,
            s\<lparr>d_filled := d_filled s @ [v],
              d_popup := (if v = Str ''BAD'' then ''error''
                          else if v = Str ''ODD'' then ''warning'' else ''success'')\<rparr>))"

definition demoQuery :: "string \<Rightarrow> demo \<Rightarrow> nat option" where
  "demoQuery selector s =
     (if selector = ''#missing'' then None
      else if selector = ''.btn.btn-logout.logout-btn'' \<and> \<not> d_logout s then None
      else if selector = ''#popup-Success'' then Some 100
      else if selector = ''#popup-Error'' then Some 101
      else if selector = ''#popup-Warn'' then Some 102
      else Some 0)"

definition demoDisplay :: "nat \<Rightarrow> demo \<Rightarrow> string" where
  "demoDisplay e s =
     (if (e = 100 \<and> d_popup s = ''success'') \<or> (e = 101 \<and> d_popup s = ''error'')
         \<or> (e = 102 \<and> d_popup s = ''warning'')
      then ''block'' else ''none'')"

definition demoText :: "nat \<Rightarrow> string" where
  "demoText e =
     (if e = 11 then ''RO-1001'' else if e = 12 then '' RO-2002 ''
      else if e = 13 then ''RO-3003'' else [])"

definition demoWait :: "demo act" where
  "demoWait s = (if d_alive s then (None, s) else (Some demoGone, s))"

definition demoSurface :: "(demo, nat, nat, nat) surface" where
  "demoSurface =
     \<lparr>s_newContext = (\<lambda>s. (Inr (d_contexts s), s\<lparr>d_contexts := d_contexts s + 1\<rparr>)),
      s_newPage = (\<lambda>c s. (Inr c, s)),
      s_closeContext = (\<lambda>c s. (None, s\<lparr>d_closed := d_closed s + 1\<rparr>)),
      s_goto = (\<lambda>g url s. if d_alive s then (None, s\<lparr>d_visited := d_visited s @ [url]\<rparr>)
                           else (Some demoGone, s)),
      s_waitForLoadState = (\<lambda>g. demoWait),
      s_waitForTimeout = (\<lambda>g n. demoWait),
      s_waitForSelector = (\<lambda>g selector. demoWait),
      s_click = (\<lambda>g selector s. (None, s\<lparr>d_popup := []\<rparr>)),
      s_fill = (\<lambda>g selector. demoFill),
      s_selectOption = (\<lambda>g selector v s. (None, s)),
      s_hover = (\<lambda>g selector s. (None, s)),
      s_scrollIntoView = (\<lambda>g selector s. (None, s)),
      s_elemClick = (\<lambda>e s. (None, s\<lparr>d_clicked := d_clicked s @ [e]\<rparr>)),
      s_query = (\<lambda>g selector s. Inr (demoQuery selector s)),
      s_queryAll = (\<lambda>g selector s. Inr [1, 2, 3]),
      s_elemQuery = (\<lambda>e selector s. Inr (Some (e + 10))),
      s_textContent = (\<lambda>e s. Inr (Some (demoText e))),
      s_display = (\<lambda>e s. Inr (demoDisplay e s)),
      s_evalText = (\<lambda>g selector s. Inr ''Container is on hold'')\<rparr>"

definition demoWorld :: "demo world" where
  "demoWorld =
     \<lparr>surf = demoInit,
      failedFile = Some \<lparr>fc_timestamp = ''t0'', fc_total = 0, fc_data = []\<rparr>,
      successFile = Some \<lparr>sc_timestamp = ''t0'', sc_total = 0, sc_data = []\<rparr>,
      groupedFile = None,
      successList = [],
      now = ''t1''\<rparr>"

definition demoClick :: action where
  "demoClick =
     \<lparr>a_type = ''click'', a_selector = ''tr.row'', a_value = Undefined, a_firstOnly = True,
      a_matchField = Some \<lparr>mf_value = ''releaseOrderNumber'', mf_selector = ''td.ro''\<rparr>,
      a_typeAction = ''roData'', a_delay = 0\<rparr>"

definition demoInput :: action where
  "demoInput =
     \<lparr>a_type = ''input'', a_selector = ''#ro'', a_value = Str ''data.releaseOrderNumber'',
      a_firstOnly = False, a_matchField = None, a_typeAction = ''roData'', a_delay = 0\<rparr>"

definition demoSite :: siteConfig where
  "demoSite = \<lparr>sc_url = ''https://site.example/'', sc_actions = [demoInput]\<rparr>"

text \<open>A second site: a login action between two item actions, the second with a delay.\<close>

definition demoLogin :: action where
  "demoLogin =
     \<lparr>a_type = ''input'', a_selector = ''#user'', a_value = Str ''data.account'',
      a_firstOnly = False, a_matchField = None, a_typeAction = ''login'', a_delay = 0\<rparr>"

definition demoInputID :: action where
  "demoInputID =
     \<lparr>a_type = ''input'', a_selector = ''#id'', a_value = Str ''data.ID'',
      a_firstOnly = False, a_matchField = None, a_typeAction = ''roData'', a_delay = 500\<rparr>"

definition demoSite2 :: siteConfig where
  "demoSite2 =
     \<lparr>sc_url = ''https://site.example/'', sc_actions = [demoInput, demoLogin, demoInputID]\<rparr>"

section \<open>Vocabulary of the ledger theorems\<close>

text \<open>
  The release-order number an item is recorded under, the values that \<open>Set.has\<close>
  compares by content, and what the failed file holds after a run of appends (an
  append rewrites the total, so a file nothing was appended to keeps its own).
\<close>

definition roNumberOf :: "jsobj \<Rightarrow> jsval" where
  "roNumberOf item = js_or (js_get item ''releaseOrderNumber'') (Str ''N/A'')"

fun primitive :: "jsval \<Rightarrow> bool" where
  "primitive (Arr xs) = False"
| "primitive (Obj ps) = False"
| "primitive (Fn f) = False"
| "primitive v = True"

definition appended :: "failedContent \<Rightarrow> failedItem list \<Rightarrow> failedContent" where
  "appended content new =
     (if new = [] then content
      else content\<lparr>fc_data := fc_data content @ new,
                    fc_total := length (fc_data content @ new)\<rparr>)"

text \<open>
  The outcome of one item is the pair \<open>(actionFailed, errorReason)\<close>; these are the
  entries it adds to the success list and to the failed file.
\<close>

fun recordedSuccess :: "string \<Rightarrow> string \<Rightarrow> jsobj \<times> bool \<times> string \<Rightarrow> successItem list" where
  "recordedSuccess depot ts (roData, actionFailed, errorReason) =
     (if actionFailed then [] else [successEntry depot roData ts])"

fun recordedFailed :: "string \<Rightarrow> string \<Rightarrow> jsobj \<times> bool \<times> string \<Rightarrow> failedItem list" where
  "recordedFailed depot ts (roData, actionFailed, errorReason) =
     (if actionFailed then [failedEntry depot roData errorReason ts] else [])"

section \<open>Vocabulary of the outcome theorems\<close>

text \<open>
  The actions of the item loop are the entries of \<open>siteConfig.actions\<close> marked
  \<open>roData\<close>. One of them fails, at a state of the surface, when the action or its
  delay throws there, or when the popup verdict after it is \<open>error\<close> or
  \<open>warning\<close>. \<open>passAll\<close> runs a list of actions as long as none fails: it yields
  the state the last one leaves, and \<open>None\<close> when one of them fails.
\<close>

definition itemActions :: "action list \<Rightarrow> action list" where
  "itemActions actions = filter (\<lambda>action. a_typeAction action = ''roData'') actions"

definition actionFails ::
    "('s, 'c, 'g, 'e) surface \<Rightarrow> 'g \<Rightarrow> jsobj \<Rightarrow> action \<Rightarrow> 's \<Rightarrow> bool" where
  "actionFails sf page roData action s =
     (case andThen (executeAction sf page action roData) (delayOf sf page action) s of
        (Some e, s1) \<Rightarrow> True
      | (None, s1) \<Rightarrow>
          (case checkAndHandlePopup sf page s1 of
             ((verdict, logged), s2) \<Rightarrow> verdict = Some ''error'' \<or> verdict = Some ''warning''))"

fun passAll ::
    "('s, 'c, 'g, 'e) surface \<Rightarrow> 'g \<Rightarrow> jsobj \<Rightarrow> action list \<Rightarrow> 's \<Rightarrow> 's option" where
  "passAll sf page roData [] s = Some s"
| "passAll sf page roData (action # actions) s =
     (case andThen (executeAction sf page action roData) (delayOf sf page action) s of
        (Some e, s1) \<Rightarrow> None
      | (None, s1) \<Rightarrow>
          (case checkAndHandlePopup sf page s1 of
             ((verdict, logged), s2) \<Rightarrow>
               if verdict = Some ''error'' \<or> verdict = Some ''warning'' then None
               else passAll sf page roData actions s2))"

text \<open>
  The items of a depot in the order of the item loop, each as the object the loop
  builds for it and with the outcome of its actions, and the state of the surface
  after the last one. The actions of an item start at the state the item before it
  left.
\<close>

fun itemTrace ::
    "('s, 'c, 'g, 'e) surface \<Rightarrow> 'g \<Rightarrow> action list \<Rightarrow> jsval \<Rightarrow> jsobj list \<Rightarrow> 's
       \<Rightarrow> (jsobj \<times> bool \<times> string) list \<times> 's" where
  "itemTrace sf page actions account [] s = ([], s)"
| "itemTrace sf page actions account (item # items) s =
     (case roActions sf page actions (withAccount account item) s of
        (outcome, s1) \<Rightarrow>
          (case itemTrace sf page actions account items s1 of
             (outcomes, s2) \<Rightarrow> ((withAccount account item, outcome) # outcomes, s2)))"

text \<open>
  A turn of the loop over the depots. \<open>openPage\<close> is the context and the page the
  loop opens first. \<open>depotStart\<close> is what \<open>processDepot\<close> does before its item
  loop: navigation and login. \<open>depotProcessed\<close> are the items
  \<open>processReleaseOrder\<close> runs for in the turn, with their outcomes: all the items of
  the depot when it has an account and navigation and login went through, none
  otherwise. A turn slips when \<open>processDepot\<close> has processed items and then throws an
  error that does not say the surface is closed.
\<close>

definition openPage :: "('s, 'c, 'g, 'e) surface \<Rightarrow> 's \<Rightarrow> ('c \<times> 'g \<times> 's) option" where
  "openPage sf s =
     (case s_newContext sf s of
        (Inl e, s1) \<Rightarrow> None
      | (Inr context, s1) \<Rightarrow>
          (case s_newPage sf context s1 of
             (Inl e, s2) \<Rightarrow> None
           | (Inr page, s2) \<Rightarrow> Some (context, page, s2)))"

definition depotStart ::
    "('s, 'c, 'g, 'e) surface \<Rightarrow> siteConfig \<Rightarrow> 'g \<Rightarrow> jsobj \<Rightarrow> 's act" where
  "depotStart sf siteConfig page loginData =
     andThen (s_goto sf page (sc_url siteConfig))
       (andThen (s_waitForLoadState sf page)
          (processLogin sf page (sc_actions siteConfig) loginData))"

definition depotProcessed ::
    "('s, 'c, 'g, 'e) surface \<Rightarrow> string \<Rightarrow> grouped \<Rightarrow> jsobj \<Rightarrow> siteConfig \<Rightarrow> 'g
       \<Rightarrow> 's world \<Rightarrow> (jsobj \<times> bool \<times> string) list" where
  "depotProcessed sf depot grouped accounts siteConfig page w =
     (let account = js_index accounts depot;
          items = bucket grouped depot
      in if \<not> truthy account then []
         else (case depotStart sf siteConfig page
                      (withAccount account (case items of [] \<Rightarrow> [] | first # others \<Rightarrow> first))
                      (surf w) of
                 (Some e, s1) \<Rightarrow> []
               | (None, s1) \<Rightarrow> fst (itemTrace sf page (sc_actions siteConfig) account items s1)))"

definition depotSlip ::
    "('s, 'c, 'g, 'e) surface \<Rightarrow> string \<Rightarrow> grouped \<Rightarrow> jsobj \<Rightarrow> siteConfig \<Rightarrow> 'g
       \<Rightarrow> 's world \<Rightarrow> bool" where
  "depotSlip sf depot grouped accounts siteConfig page w =
     (case processDepot sf depot grouped accounts siteConfig page w of
        (None, w1) \<Rightarrow> False
      | (Some error, w1) \<Rightarrow>
          \<not> surfaceClosedMessage (errorMessage error)
          \<and> depotProcessed sf depot grouped accounts siteConfig page w \<noteq> [])"

text \<open>
  The turns a cycle takes, each with its depot and the items processed in it, and
  whether one of them slips. The loop stops when a context or a page cannot be
  opened, and after a turn that does not end in \<open>Continue\<close>.
\<close>

fun cycleTrace ::
    "('s, 'c, 'g, 'e) surface \<Rightarrow> jsobj \<Rightarrow> siteConfig \<Rightarrow> grouped \<Rightarrow> string list \<Rightarrow> 's world
       \<Rightarrow> (string \<times> (jsobj \<times> bool \<times> string) list) list" where
  "cycleTrace sf accounts siteConfig grouped [] w = []"
| "cycleTrace sf accounts siteConfig grouped (depot # depots) w =
     (case openPage sf (surf w) of
        None \<Rightarrow> []
      | Some (context, page, s2) \<Rightarrow>
          (depot, depotProcessed sf depot grouped accounts siteConfig page (w\<lparr>surf := s2\<rparr>))
          # (case cycleDepot sf accounts siteConfig grouped depot w of
               (Inr Continue, w1) \<Rightarrow> cycleTrace sf accounts siteConfig grouped depots w1
             | (r, w1) \<Rightarrow> []))"

fun cycleSlips ::
    "('s, 'c, 'g, 'e) surface \<Rightarrow> jsobj \<Rightarrow> siteConfig \<Rightarrow> grouped \<Rightarrow> string list \<Rightarrow> 's world
       \<Rightarrow> bool" where
  "cycleSlips sf accounts siteConfig grouped [] w = False"
| "cycleSlips sf accounts siteConfig grouped (depot # depots) w =
     (case openPage sf (surf w) of
        None \<Rightarrow> False
      | Some (context, page, s2) \<Rightarrow>
          depotSlip sf depot grouped accounts siteConfig page (w\<lparr>surf := s2\<rparr>)
          \<or> (case cycleDepot sf accounts siteConfig grouped depot w of
                (Inr Continue, w1) \<Rightarrow> cycleSlips sf accounts siteConfig grouped depots w1
              | (r, w1) \<Rightarrow> False))"

text \<open>The entries the processed items of a turn add to the two lists.\<close>

fun turnSuccess :: "string \<Rightarrow> string \<times> (jsobj \<times> bool \<times> string) list \<Rightarrow> successItem list" where
  "turnSuccess ts (depot, processed) = concat (map (recordedSuccess depot ts) processed)"

fun turnFailed :: "string \<Rightarrow> string \<times> (jsobj \<times> bool \<times> string) list \<Rightarrow> failedItem list" where
  "turnFailed ts (depot, processed) = concat (map (recordedFailed depot ts) processed)"

section \<open>Properties of the data grouper\<close>









text \<open>
  A field wrapped twice loses one wrapper per pass, so the second pass of the
  hypothesis above is needed.
\<close>

lemma normalizeDataItem_double_wrapped:
  "normalizeDataItem [(''FIELD'', Obj [(''v'', Obj [(''v'', Num 5)])])] = [(''FIELD'', Obj [(''v'', Num 5)])]
   \<and> normalizeDataItem [(''FIELD'', Obj [(''v'', Num 5)])] = [(''FIELD'', Num 5)]"
  by (simp add: normalizeDataItem_def normalizeStep_def wrapped_def js_get_def)

lemma ginv_update:
  assumes "ginv g" "k \<notin> set objectPrototypeKeys" "xs \<noteq> []"
  shows "ginv (AList.update k xs g)"
  using assms
  by (auto simp: ginv_def distinct_update update_conv' update_keys split: if_splits)

lemma bucket_update:
  "bucket (AList.update k xs g) k' = (if k' = k then xs else bucket g k')"
  by (simp add: bucket_def update_conv')

lemma groupStep_skip:
  "\<not> truthy (depotOf item) \<Longrightarrow> groupStep item (g, w) = Inr (g, w @ [item])"
  by (simp add: groupStep_def depotOf_def Let_def)

lemma groupStep_file:
  assumes "truthy (depotOf item)" "js_toString (depotOf item) = Inr k"
    "k \<notin> set objectPrototypeKeys"
  shows "groupStep item (g, w) = Inr (AList.update k (bucket g k @ [normalizeDataItem item]) g, w)"
  using assms
  by (auto simp: groupStep_def depotOf_def Let_def js_lookup_def bucket_def split: option.splits)

lemma groupLoop_fileable:
  assumes "\<forall>i \<in> set items. fileable i" "ginv g"
  shows "\<exists>g'. groupLoop items (g, w) = Inr (g', w @ filter (\<lambda>i. \<not> truthy (depotOf i)) items)
            \<and> ginv g'
            \<and> (\<forall>k. bucket g' k = bucket g k @ map normalizeDataItem (filter (\<lambda>i. depotKey i = Some k) items))"
  using assms
proof (induction items arbitrary: g w)
  case Nil
  then show ?case by simp
next
  case (Cons item items)
  show ?case
  proof (cases "truthy (depotOf item)")
    case False
    then have s: "groupStep item (g, w) = Inr (g, w @ [item])" by (rule groupStep_skip)
    have nk: "depotKey item = None" using False by (simp add: depotKey_def)
    from Cons.IH [of g "w @ [item]"] Cons.prems
    obtain g' where "groupLoop items (g, w @ [item]) = Inr (g', (w @ [item]) @ filter (\<lambda>i. \<not> truthy (depotOf i)) items)"
      "ginv g'" "\<forall>k. bucket g' k = bucket g k @ map normalizeDataItem (filter (\<lambda>i. depotKey i = Some k) items)"
      by auto
    then show ?thesis using s nk False by simp
  next
    case True
    from Cons.prems True obtain k where k: "js_toString (depotOf item) = Inr k" "k \<notin> set objectPrototypeKeys"
      by (auto simp: fileable_def split: sum.splits)
    let ?g = "AList.update k (bucket g k @ [normalizeDataItem item]) g"
    have s: "groupStep item (g, w) = Inr (?g, w)" using True k by (rule groupStep_file)
    have dk: "depotKey item = Some k" using True k by (simp add: depotKey_def)
    have inv: "ginv ?g" using Cons.prems k by (intro ginv_update) auto
    from Cons.IH [of ?g w] Cons.prems inv
    obtain g' where g': "groupLoop items (?g, w) = Inr (g', w @ filter (\<lambda>i. \<not> truthy (depotOf i)) items)"
      "ginv g'" "\<forall>k'. bucket g' k' = bucket ?g k' @ map normalizeDataItem (filter (\<lambda>i. depotKey i = Some k') items)"
      by auto
    have "\<forall>k'. bucket g' k' = bucket g k' @ map normalizeDataItem (filter (\<lambda>i. depotKey i = Some k') (item # items))"
      using g'(3) dk by (auto simp: bucket_update)
    then show ?thesis using s g' True by auto
  qed
qed

lemma ginv_keys:
  assumes "ginv g"
  shows "set (map fst g) = {k. bucket g k \<noteq> []}"
proof -
  have "k \<in> set (map fst g) \<longleftrightarrow> bucket g k \<noteq> []" for k
  proof (cases "map_of g k")
    case None
    moreover from None have "k \<notin> fst ` set g" by (simp add: map_of_eq_None_iff)
    ultimately show ?thesis by (simp add: bucket_def)
  next
    case (Some xs)
    then have "xs \<noteq> []" using assms by (simp add: ginv_def)
    moreover have "k \<in> set (map fst g)" using Some by (metis map_of_eq_None_iff option.distinct(1) set_map)
    ultimately show ?thesis using Some by (simp add: bucket_def)
  qed
  then show ?thesis by auto
qed

text \<open>
  Claim C8, as the code has it. \<open>groupByDepot\<close> skips and reports exactly the items
  whose normalised \<open>DEPOT\<close> is falsy (absent, \<open>null\<close>, \<open>0\<close>, the empty string,
  \<open>false\<close>). When every other item has a depot whose property key can be computed and
  is not the name of an inherited member, the call returns: the groups are exactly the
  keys of the filed items, each group lists the normalised items of its key in input
  order, and no skipped item is in any group.
\<close>

theorem groupByDepot_groups:
  assumes "\<forall>item \<in> set items. wf_item item \<and> fileable item"
  shows "\<exists>g. groupByDepot items = Inr (g, filter (\<lambda>i. \<not> truthy (depotOf i)) items)
           \<and> distinct (map fst g)
           \<and> set (map fst g) = {k. \<exists>i \<in> set items. depotKey i = Some k}
           \<and> (\<forall>k. bucket g k = map normalizeDataItem (filter (\<lambda>i. depotKey i = Some k) items))
           \<and> (\<forall>i \<in> set items. \<not> truthy (depotOf i) \<longrightarrow> (\<forall>k. normalizeDataItem i \<notin> set (bucket g k)))"
proof -
  have f: "\<forall>i \<in> set items. fileable i" using assms by simp
  have e: "ginv []" by (simp add: ginv_def)
  from groupLoop_fileable [OF f e, of "[]"]
  obtain g where g: "groupLoop items ([], []) = Inr (g, filter (\<lambda>i. \<not> truthy (depotOf i)) items)"
    "ginv g"
    "\<forall>k. bucket g k = map normalizeDataItem (filter (\<lambda>i. depotKey i = Some k) items)"
    by (auto simp: bucket_def)
  have keys: "set (map fst g) = {k. \<exists>i \<in> set items. depotKey i = Some k}"
    using ginv_keys [OF g(2)] g(3) by (auto simp: filter_empty_conv)
  have excl: "normalizeDataItem i \<notin> set (bucket g k)" if "\<not> truthy (depotOf i)" for i k
  proof
    assume "normalizeDataItem i \<in> set (bucket g k)"
    then obtain j where j: "depotKey j = Some k" "normalizeDataItem j = normalizeDataItem i"
      using g(3) by auto
    from j(1) have "truthy (depotOf j)" by (simp add: depotKey_def split: if_splits)
    then show False using j(2) that by (simp add: depotOf_def)
  qed
  show ?thesis
    using g keys excl by (auto simp: groupByDepot_def ginv_def)
qed

theorem groupByDepot_groups_witness:
  "wf_item [(''DEPOT'', Obj [(''v'', Str ''A'')]), (''ID'', Num 1)]
   \<and> fileable [(''DEPOT'', Obj [(''v'', Str ''A'')]), (''ID'', Num 1)]
   \<and> wf_item [(''ID'', Num 2)] \<and> fileable [(''ID'', Num 2)]
   \<and> wf_item [(''DEPOT'', Str ''B''), (''ID'', Num 3)]
   \<and> fileable [(''DEPOT'', Str ''B''), (''ID'', Num 3)]
   \<and> wf_item [(''DEPOT'', Str ''A''), (''ID'', Num 4)]
   \<and> fileable [(''DEPOT'', Str ''A''), (''ID'', Num 4)]
   \<and> groupByDepot [[(''DEPOT'', Obj [(''v'', Str ''A'')]), (''ID'', Num 1)], [(''ID'', Num 2)],
                    [(''DEPOT'', Str ''B''), (''ID'', Num 3)], [(''DEPOT'', Str ''A''), (''ID'', Num 4)]]
     = Inr ([(''A'', [[(''DEPOT'', Str ''A''), (''ID'', Num 1)], [(''DEPOT'', Str ''A''), (''ID'', Num 4)]]),
             (''B'', [[(''DEPOT'', Str ''B''), (''ID'', Num 3)]])],
            [[(''ID'', Num 2)]])"
  using groupByDepot_groups [of "[[(''DEPOT'', Obj [(''v'', Str ''A'')]), (''ID'', Num 1)], [(''ID'', Num 2)],
                    [(''DEPOT'', Str ''B''), (''ID'', Num 3)], [(''DEPOT'', Str ''A''), (''ID'', Num 4)]]"]
  by (simp add: wf_item_def fileable_def depotOf_def groupByDepot_def groupStep_def js_lookup_def
      objectPrototypeKeys_def normalizeDataItem_def normalizeStep_def wrapped_def js_get_def)

text \<open>
  Claim C8 as stated fails twice. A depot called \<open>constructor\<close> makes the call throw;
  and an item whose depot is the number \<open>0\<close> has the depot key, yet it is skipped and
  no group \<open>0\<close> exists.
\<close>

theorem groupByDepot_claim_counterexample:
  "groupByDepot [[(''DEPOT'', Str ''constructor''), (''ID'', Num 1)]]
     = Inl (TypeError ''grouped[depot].push is not a function'')
   \<and> js_get (normalizeDataItem [(''DEPOT'', Num 0), (''ID'', Num 2)]) ''DEPOT'' = Num 0
   \<and> groupByDepot [[(''DEPOT'', Num 0), (''ID'', Num 2)]] = Inr ([], [[(''DEPOT'', Num 0), (''ID'', Num 2)]])"
  by (simp add: groupByDepot_def groupStep_def js_lookup_def
      objectPrototypeKeys_def normalizeDataItem_def normalizeStep_def wrapped_def js_get_def)

section \<open>Properties of fetching with retry\<close>

lemma fetchLoop_first_ok:
  assumes "attempt + k \<le> maxRetries"
    and "\<forall>j < k. \<not> payloadOk (api (calls st + j))"
    and "payloadOk (api (calls st + k))"
  shows "fetchLoop api maxRetries attempt st
       = \<lparr>testDataArr = api (calls st + k), calls = calls st + k + 1, delays = delays st + k\<rparr>"
  using assms
proof (induction k arbitrary: attempt st)
  case 0
  then show ?case by (subst fetchLoop.simps) (simp add: Let_def)
next
  case (Suc k)
  let ?st = "st\<lparr>testDataArr := api (calls st), calls := calls st + 1, delays := delays st + 1\<rparr>"
  have no: "\<not> payloadOk (api (calls st))" using Suc.prems(2) by (metis add.right_neutral zero_less_Suc)
  have lt: "attempt < maxRetries" using Suc.prems(1) by simp
  have step: "fetchLoop api maxRetries attempt st = fetchLoop api maxRetries (attempt + 1) ?st"
    using no lt by (subst fetchLoop.simps) (simp add: Let_def)
  have "fetchLoop api maxRetries (attempt + 1) ?st
      = \<lparr>testDataArr = api (calls ?st + k), calls = calls ?st + k + 1, delays = delays ?st + k\<rparr>"
  proof (rule Suc.IH)
    show "attempt + 1 + k \<le> maxRetries" using Suc.prems(1) by simp
    show "\<forall>j<k. \<not> payloadOk (api (calls ?st + j))"
    proof (intro allI impI)
      fix j assume "j < k"
      then have "Suc j < Suc k" by simp
      then have "\<not> payloadOk (api (calls st + Suc j))" using Suc.prems(2) by blast
      then show "\<not> payloadOk (api (calls ?st + j))" by simp
    qed
    show "payloadOk (api (calls ?st + k))" using Suc.prems(3) by simp
  qed
  with step show ?case by simp
qed

lemma fetchLoop_none_ok:
  assumes "\<forall>j. attempt + j \<le> maxRetries \<longrightarrow> \<not> payloadOk (api (calls st + j))"
  shows "fetchLoop api maxRetries attempt st
       = (if attempt \<le> maxRetries
          then \<lparr>testDataArr = api (calls st + (maxRetries - attempt)),
                calls = calls st + (maxRetries + 1 - attempt),
                delays = delays st + (maxRetries - attempt)\<rparr>
          else st)"
  using assms
proof (induction api maxRetries attempt st rule: fetchLoop.induct)
  case (1 api maxRetries attempt st)
  show ?case
  proof (cases "attempt \<le> maxRetries")
    case False
    then show ?thesis by (subst fetchLoop.simps) simp
  next
    case True
    have no: "\<not> payloadOk (api (calls st))" using "1.prems" True by (metis add.right_neutral)
    show ?thesis
    proof (cases "attempt < maxRetries")
      case lt: True
      let ?st = "st\<lparr>testDataArr := api (calls st), calls := calls st + 1, delays := delays st + 1\<rparr>"
      have pre: "\<forall>j. attempt + 1 + j \<le> maxRetries \<longrightarrow> \<not> payloadOk (api (calls ?st + j))"
      proof (intro allI impI)
        fix j assume "attempt + 1 + j \<le> maxRetries"
        then have "attempt + (j + 1) \<le> maxRetries" by simp
        then have "\<not> payloadOk (api (calls st + (j + 1)))" using "1.prems" by blast
        then show "\<not> payloadOk (api (calls ?st + j))" by (simp add: add.commute add.left_commute)
      qed
      have ih: "fetchLoop api maxRetries (attempt + 1) ?st
        = (if attempt + 1 \<le> maxRetries
          then \<lparr>testDataArr = api (calls ?st + (maxRetries - (attempt + 1))),
                calls = calls ?st + (maxRetries + 1 - (attempt + 1)),
                delays = delays ?st + (maxRetries - (attempt + 1))\<rparr>
          else ?st)"
        using "1.IH"(1) [OF True refl refl no lt] pre by simp
      have step: "fetchLoop api maxRetries attempt st = fetchLoop api maxRetries (attempt + 1) ?st"
        using no lt by (subst fetchLoop.simps) (simp add: Let_def)
      have "calls st + 1 + (maxRetries - (attempt + 1)) = calls st + (maxRetries - attempt)"
        using lt by simp
      then show ?thesis using step ih lt by (simp, arith)
    next
      case ge: False
      then have eq: "attempt = maxRetries" using True by simp
      let ?st = "st\<lparr>testDataArr := api (calls st), calls := calls st + 1\<rparr>"
      have step: "fetchLoop api maxRetries attempt st = fetchLoop api maxRetries (attempt + 1) ?st"
        using no ge True by (subst fetchLoop.simps) (simp add: Let_def)
      have "fetchLoop api maxRetries (attempt + 1) ?st = ?st"
        using eq by (subst fetchLoop.simps) simp
      then show ?thesis using step eq by simp
    qed
  qed
qed


lemma fetch_first_ok:
  assumes "k < maxRetries" "\<forall>j < k. \<not> payloadOk (api j)" "payloadOk (api k)"
  shows "fetchDataWithRetry api maxRetries = \<lparr>testDataArr = api k, calls = k + 1, delays = k\<rparr>"
proof -
  let ?st0 = "\<lparr>testDataArr = Null, calls = 0, delays = 0\<rparr>"
  have "fetchLoop api maxRetries 1 ?st0
     = \<lparr>testDataArr = api (calls ?st0 + k), calls = calls ?st0 + k + 1, delays = delays ?st0 + k\<rparr>"
    using assms by (intro fetchLoop_first_ok) auto
  then show ?thesis by (simp add: fetchDataWithRetry_def)
qed

lemma fetch_none_ok:
  assumes "\<forall>j < maxRetries. \<not> payloadOk (api j)"
  shows "fetchDataWithRetry api maxRetries
        = \<lparr>testDataArr = (if maxRetries = 0 then Null else api (maxRetries - 1)),
            calls = maxRetries, delays = maxRetries - 1\<rparr>"
proof -
  let ?st0 = "\<lparr>testDataArr = Null, calls = 0, delays = 0\<rparr>"
  have "\<forall>j. 1 + j \<le> maxRetries \<longrightarrow> \<not> payloadOk (api (calls ?st0 + j))"
    using assms by auto
  from fetchLoop_none_ok [OF this]
  show ?thesis by (auto simp: fetchDataWithRetry_def)
qed

text \<open>
  Claim C5, as the code has it. With \<open>maxRetries = 3\<close> and two failing first attempts
  the third response is returned after three calls and two delays. In general the first
  acceptable response, at call \<open>k\<close>, is returned after \<open>k + 1\<close> calls and \<open>k\<close>
  delays. When no response within \<open>maxRetries\<close> calls is acceptable, the function
  returns after exactly \<open>maxRetries\<close> calls and \<open>maxRetries - 1\<close> delays, and its
  value is the last response of the collaborator (\<open>null\<close> only if that response was
  \<open>null\<close>, or if no call was made).
\<close>

theorem fetchDataWithRetry_attempts:
  "(\<not> payloadOk (api 0) \<and> \<not> payloadOk (api 1) \<longrightarrow>
      fetchDataWithRetry api 3 = \<lparr>testDataArr = api 2, calls = 3, delays = 2\<rparr>)
   \<and> (k < maxRetries \<and> (\<forall>j < k. \<not> payloadOk (api j)) \<and> payloadOk (api k) \<longrightarrow>
      fetchDataWithRetry api maxRetries = \<lparr>testDataArr = api k, calls = k + 1, delays = k\<rparr>)
   \<and> ((\<forall>j < maxRetries. \<not> payloadOk (api j)) \<longrightarrow>
      fetchDataWithRetry api maxRetries
        = \<lparr>testDataArr = (if maxRetries = 0 then Null else api (maxRetries - 1)),
            calls = maxRetries, delays = maxRetries - 1\<rparr>)"
proof (intro conjI impI)
  assume h: "\<not> payloadOk (api 0) \<and> \<not> payloadOk (api 1)"
  have two: "\<forall>j < 2. \<not> payloadOk (api j)" using h by (auto dest!: less_2_cases)
  show "fetchDataWithRetry api 3 = \<lparr>testDataArr = api 2, calls = 3, delays = 2\<rparr>"
  proof (cases "payloadOk (api 2)")
    case True
    have "fetchDataWithRetry api 3 = \<lparr>testDataArr = api 2, calls = 2 + 1, delays = 2\<rparr>"
      using two True by (intro fetch_first_ok) simp_all
    then show ?thesis by simp
  next
    case False
    have "\<forall>j < 3. \<not> payloadOk (api j)"
    proof (intro allI impI)
      fix j :: nat assume "j < 3"
      then have "j = 0 \<or> j = 1 \<or> j = 2" by arith
      then show "\<not> payloadOk (api j)" using h False by auto
    qed
    from fetch_none_ok [OF this] show ?thesis by simp
  qed
next
  assume "k < maxRetries \<and> (\<forall>j < k. \<not> payloadOk (api j)) \<and> payloadOk (api k)"
  then show "fetchDataWithRetry api maxRetries = \<lparr>testDataArr = api k, calls = k + 1, delays = k\<rparr>"
    by (intro fetch_first_ok) simp_all
next
  assume "\<forall>j < maxRetries. \<not> payloadOk (api j)"
  then show "fetchDataWithRetry api maxRetries
        = \<lparr>testDataArr = (if maxRetries = 0 then Null else api (maxRetries - 1)),
            calls = maxRetries, delays = maxRetries - 1\<rparr>"
    by (rule fetch_none_ok)
qed

theorem fetchDataWithRetry_attempts_witness:
  "\<not> payloadOk Null \<and> payloadOk (Obj [(''data'', Arr [Obj [(''ID'', Num 1)]])])
   \<and> fetchDataWithRetry (\<lambda>n. if n < 2 then Null else Obj [(''data'', Arr [Obj [(''ID'', Num 1)]])]) 3
       = \<lparr>testDataArr = Obj [(''data'', Arr [Obj [(''ID'', Num 1)]])], calls = 3, delays = 2\<rparr>
   \<and> fetchDataWithRetry (\<lambda>n. Null) 3 = \<lparr>testDataArr = Null, calls = 3, delays = 2\<rparr>"
  using fetchDataWithRetry_attempts [of "\<lambda>n. if n < 2 then Null else Obj [(''data'', Arr [Obj [(''ID'', Num 1)]])]" 2 3]
    fetchDataWithRetry_attempts [of "\<lambda>n. Null" 0 3]
  by (simp add: payloadOk_def js_get_def)

text \<open>
  Claim C5 as stated fails: a collaborator that always answers with a body that has no
  \<open>data\<close> never returns an acceptable payload, and the function returns that body,
  not \<open>null\<close>.
\<close>

theorem fetchDataWithRetry_last_response_counterexample:
  "\<not> payloadOk (Obj [(''error'', Str ''busy'')])
   \<and> fetchDataWithRetry (\<lambda>n. Obj [(''error'', Str ''busy'')]) 3
       = \<lparr>testDataArr = Obj [(''error'', Str ''busy'')], calls = 3, delays = 2\<rparr>
   \<and> testDataArr (fetchDataWithRetry (\<lambda>n. Obj [(''error'', Str ''busy'')]) 3) \<noteq> Null"
  by (simp add: fetchDataWithRetry_def fetchLoop.simps payloadOk_def js_get_def)

section \<open>Properties of the scheduler\<close>

text \<open>
  The guard of \<open>processRealtimeData\<close> works: at most one body is in flight, and the
  flag says whether one is.
\<close>

lemma realtime_guard_step:
  "realtimeInFlight s = (if isRunning s then 1 else 0) \<Longrightarrow>
   realtimeInFlight (sched_step s ev) = (if isRunning (sched_step s ev) then 1 else 0)"
  by (cases ev) (auto split: if_splits)

lemma realtime_guard_foldl:
  "realtimeInFlight s = (if isRunning s then 1 else 0) \<Longrightarrow>
   realtimeInFlight (foldl sched_step s evs) = (if isRunning (foldl sched_step s evs) then 1 else 0)"
proof (induction evs arbitrary: s)
  case Nil
  then show ?case by simp
next
  case (Cons ev evs)
  from Cons.IH [OF realtime_guard_step [OF Cons.prems]] show ?case by simp
qed

lemma realtime_guard: "realtimeInFlight (sched_run evs) \<le> 1"
  using realtime_guard_foldl [of initialScheduler evs]
  by (simp add: sched_run_def initialScheduler_def split: if_splits)

text \<open>
  Nothing bounds the cycles in flight: every tick of the armed interval adds one.
\<close>

lemma interval_ticks_accumulate:
  "intervalArmed s \<Longrightarrow>
   cyclesInFlight (foldl sched_step s (replicate n IntervalTick)) = cyclesInFlight s + n
   \<and> intervalArmed (foldl sched_step s (replicate n IntervalTick))"
proof (induction n arbitrary: s)
  case 0
  then show ?case by simp
next
  case (Suc n)
  have "intervalArmed (sched_step s IntervalTick)" using Suc.prems by simp
  from Suc.IH [OF this] Suc.prems show ?case by simp
qed

text \<open>
  Claim C2 fails on the code. After the startup run has settled and the interval is
  armed, a tick starts a cycle; a second tick before that cycle has settled starts
  another one: two calls of \<open>processAutomation\<close> are in flight. The same two events on
  the guarded path, two data changes, start one body only.
\<close>

theorem interval_cycles_overlap:
  "cyclesInFlight (sched_run [Startup, StartupSettled, IntervalTick, IntervalTick]) = 2
   \<and> realtimeInFlight (sched_run [DataChange, DataChange]) = 1"
  by (simp add: sched_run_def initialScheduler_def)

section \<open>Properties of the action interpreter\<close>

lemma scanElements_find:
  "scanElements sf fs mv els t s
     = (case find (\<lambda>el. elementMatches sf fs mv el s) els of Some el \<Rightarrow> el | None \<Rightarrow> t)"
  by (induction els) auto

lemma click_firstOnly_reaches:
  assumes "a_type action = ''click''" "a_firstOnly action"
    and "selectorExists sf page (a_selector action) s"
    and "s_waitForSelector sf page (a_selector action) s = (None, s1)"
  shows "executeAction sf page action data s
       = andThen (clickFirstOnly sf page action data) (swallow (s_waitForLoadState sf page)) s1"
  using assms by (simp add: executeAction_def requireSelector_def andThen_def Let_def)

text \<open>Substrings, and what trimming does to them.\<close>

lemma startsWith_iff: "startsWith t m \<longleftrightarrow> (\<exists>b. t = m @ b)"
  by (induction t m rule: startsWith.induct) auto

lemma str_includes_iff: "str_includes t m \<longleftrightarrow> (\<exists>a b. t = a @ m @ b)"
proof (induction t)
  case Nil
  then show ?case by auto
next
  case (Cons c cs)
  show ?case
  proof
    assume "str_includes (c # cs) m"
    then consider "startsWith (c # cs) m" | "str_includes cs m" by auto
    then show "\<exists>a b. c # cs = a @ m @ b"
    proof cases
      case 1
      then obtain b where "c # cs = m @ b" by (auto simp: startsWith_iff)
      then have "c # cs = [] @ m @ b" by simp
      then show ?thesis by blast
    next
      case 2
      then obtain a b where "cs = a @ m @ b" using Cons.IH by blast
      then have "c # cs = (c # a) @ m @ b" by simp
      then show ?thesis by blast
    qed
  next
    assume "\<exists>a b. c # cs = a @ m @ b"
    then obtain a b where ab: "c # cs = a @ m @ b" by blast
    show "str_includes (c # cs) m"
    proof (cases a)
      case Nil
      then have "startsWith (c # cs) m" using ab by (auto simp: startsWith_iff)
      then show ?thesis by simp
    next
      case (Cons a1 as)
      then have "cs = as @ m @ b" using ab by simp
      then have "str_includes cs m" using Cons.IH by blast
      then show ?thesis by simp
    qed
  qed
qed

lemma dropWhile_keeps_word:
  assumes "m \<noteq> []" "\<not> P (hd m)"
  shows "\<exists>a'. dropWhile P (a @ m @ b) = a' @ m @ b"
proof (induction a)
  case Nil
  have "dropWhile P (m @ b) = m @ b" using assms by (cases m) auto
  then have "dropWhile P ([] @ m @ b) = [] @ m @ b" by simp
  then show ?case by blast
next
  case (Cons x a)
  show ?case
  proof (cases "P x")
    case True
    then show ?thesis using Cons by simp
  next
    case False
    then have "dropWhile P ((x # a) @ m @ b) = (x # a) @ m @ b" by simp
    then show ?thesis by blast
  qed
qed

lemma js_trim_part: "\<exists>x y. t = x @ js_trim t @ y"
proof -
  define u where "u = dropWhile js_space t"
  define r where "r = rev u"
  have "rev (dropWhile js_space r) @ rev (takeWhile js_space r)
      = rev (takeWhile js_space r @ dropWhile js_space r)"
    by (simp only: rev_append)
  also have "\<dots> = rev r" by (simp only: takeWhile_dropWhile_id)
  also have "\<dots> = u" by (simp add: r_def)
  finally have "u = rev (dropWhile js_space r) @ rev (takeWhile js_space r)" by simp
  moreover have "js_trim t = rev (dropWhile js_space r)"
    by (simp add: js_trim_def r_def u_def)
  ultimately have u: "u = js_trim t @ rev (takeWhile js_space r)" by simp
  have "t = takeWhile js_space t @ u" by (simp add: u_def)
  with u have "t = takeWhile js_space t @ js_trim t @ rev (takeWhile js_space r)"
    by simp
  then show ?thesis by blast
qed

lemma includes_trim:
  assumes "m \<noteq> []" "\<not> js_space (hd m)" "\<not> js_space (last m)"
  shows "str_includes (js_trim t) m \<longleftrightarrow> str_includes t m"
proof
  assume "str_includes (js_trim t) m"
  then obtain a b where ab: "js_trim t = a @ m @ b" by (auto simp: str_includes_iff)
  obtain x y where "t = x @ js_trim t @ y" using js_trim_part by blast
  then have "t = (x @ a) @ m @ (b @ y)" using ab by simp
  then show "str_includes t m" unfolding str_includes_iff by blast
next
  assume "str_includes t m"
  then obtain a b where ab: "t = a @ m @ b" by (auto simp: str_includes_iff)
  obtain a' where a': "dropWhile js_space (a @ m @ b) = a' @ m @ b"
    using dropWhile_keeps_word [of m js_space a b] assms(1,2) by blast
  have rm: "rev m \<noteq> []" "\<not> js_space (hd (rev m))"
    using assms by (simp_all add: hd_rev)
  obtain b' where b': "dropWhile js_space (rev b @ rev m @ rev a') = b' @ rev m @ rev a'"
    using dropWhile_keeps_word [of "rev m" js_space "rev b" "rev a'"] rm by blast
  have "js_trim t = rev (dropWhile js_space (rev b @ rev m @ rev a'))"
    using ab a' by (simp add: js_trim_def)
  then have "js_trim t = a' @ m @ rev b'" using b' by simp
  then show "str_includes (js_trim t) m" unfolding str_includes_iff by blast
qed

lemma elementMatches_plain:
  assumes "m \<noteq> []" "\<not> js_space (hd m)" "\<not> js_space (last m)"
  shows "elementMatches sf fs m el s \<longleftrightarrow>
         (\<exists>fe txt. s_elemQuery sf el fs s = Inr (Some fe) \<and> s_textContent sf fe s = Inr (Some txt)
                     \<and> str_includes txt m)"
proof -
  have ne: "str_includes cs m \<Longrightarrow> cs \<noteq> []" for cs
    using assms(1) by (cases cs) auto
  have tr: "(cs \<noteq> [] \<and> str_includes (js_trim cs) m) = str_includes cs m" for cs
    using includes_trim [OF assms, of cs] ne [of cs] by blast
  show ?thesis
  proof (cases "s_elemQuery sf el fs s")
    case (Inl e)
    then show ?thesis by (simp add: elementMatches_def)
  next
    case (Inr q)
    show ?thesis
    proof (cases q)
      case None
      then show ?thesis using Inr by (simp add: elementMatches_def)
    next
      case (Some fe)
      show ?thesis
      proof (cases "s_textContent sf fe s")
        case (Inl e)
        then show ?thesis using Inr Some by (simp add: elementMatches_def)
      next
        case r: (Inr c)
        show ?thesis
        proof (cases c)
          case None
          then show ?thesis using Inr Some r by (simp add: elementMatches_def)
        next
          case t: (Some cs)
          then show ?thesis using Inr Some r tr [of cs] by (simp add: elementMatches_def)
        qed
      qed
    qed
  qed
qed

lemma js_trim_blanks:
  "\<exists>l r. cs = l @ js_trim cs @ r \<and> (\<forall>c \<in> set l. js_space c) \<and> (\<forall>c \<in> set r. js_space c)
         \<and> (js_trim cs = [] \<or> (\<not> js_space (hd (js_trim cs)) \<and> \<not> js_space (last (js_trim cs))))"
proof -
  define u where "u = dropWhile js_space cs"
  define r where "r = rev u"
  define t where "t = dropWhile js_space r"
  have tr: "js_trim cs = rev t"
    by (simp add: js_trim_def t_def r_def u_def)
  have "rev t @ rev (takeWhile js_space r) = rev (takeWhile js_space r @ dropWhile js_space r)"
    unfolding t_def by (simp only: rev_append)
  also have "\<dots> = u" by (simp add: r_def)
  finally have u: "u = rev t @ rev (takeWhile js_space r)" by simp
  have "cs = takeWhile js_space cs @ u"
    by (simp add: u_def)
  then have cs: "cs = takeWhile js_space cs @ js_trim cs @ rev (takeWhile js_space r)"
    using u tr by simp
  have l: "\<forall>c \<in> set (takeWhile js_space cs). js_space c"
    by (auto dest: set_takeWhileD)
  have rr: "\<forall>c \<in> set (rev (takeWhile js_space r)). js_space c"
    by (auto dest: set_takeWhileD)
  have ends: "\<not> js_space (hd (rev t)) \<and> \<not> js_space (last (rev t))" if ne: "t \<noteq> []"
  proof
    have "last (rev t) = hd t" using ne by (simp add: last_rev)
    then show "\<not> js_space (last (rev t))" using ne hd_dropWhile [of js_space r] by (simp add: t_def)
    have "hd (rev t) = hd u" using u ne by simp
    moreover have "u \<noteq> []" using u ne by auto
    ultimately show "\<not> js_space (hd (rev t))" using hd_dropWhile [of js_space cs] by (simp add: u_def)
  qed
  show ?thesis
    using cs l rr ends tr by (metis rev_is_Nil_conv)
qed

lemma elementMatches_trimmed:
  "elementMatches sf fs m el s \<longleftrightarrow>
     (\<exists>fe cs. s_elemQuery sf el fs s = Inr (Some fe) \<and> s_textContent sf fe s = Inr (Some cs)
               \<and> cs \<noteq> [] \<and> (\<exists>a b. js_trim cs = a @ m @ b))"
proof (cases "s_elemQuery sf el fs s")
  case (Inl e)
  then show ?thesis by (simp add: elementMatches_def)
next
  case (Inr q)
  show ?thesis
  proof (cases q)
    case None
    then show ?thesis using Inr by (simp add: elementMatches_def)
  next
    case (Some fe)
    show ?thesis
    proof (cases "s_textContent sf fe s")
      case (Inl e)
      then show ?thesis using Inr Some by (simp add: elementMatches_def)
    next
      case r: (Inr t)
      show ?thesis
      proof (cases t)
        case None
        then show ?thesis using Inr Some r by (simp add: elementMatches_def)
      next
        case (Some cs)
        then show ?thesis
          using Inr \<open>q = Some fe\<close> r by (simp add: elementMatches_def str_includes_iff)
      qed
    qed
  qed
qed

text \<open>
  Claim C7, as the code has it. For a click with \<open>firstOnly\<close> and \<open>matchField\<close>
  whose selector is found, becomes visible and matches at least one element, and whose
  data context has a value under the \<open>matchField\<close> key: the element clicked is the
  first match that qualifies, and the first match of all when none qualifies. A match
  qualifies exactly when its \<open>matchField\<close> sub-element exists and has a text that
  is not empty and that, once the blanks at its two ends are taken away, contains the
  string form of the data value. With three matches of which the first does not
  qualify and the second does, the second is clicked. For a data value whose string
  form is not empty and neither starts nor ends with a blank, a match qualifies exactly
  when the text of its sub-element contains that string form.
\<close>

theorem click_matchField_target:
  assumes "a_type action = ''click''" "a_firstOnly action" "a_matchField action = Some mf"
    and "selectorExists sf page (a_selector action) s"
    and "s_waitForSelector sf page (a_selector action) s = (None, s1)"
    and "s_queryAll sf page (a_selector action) s1 = Inr elements" "elements \<noteq> []"
    and "js_call_toString (js_index data (mf_value mf)) = Inr matchValue"
  shows "executeAction sf page action data s
       = andThen
           (s_elemClick sf
              (case find (\<lambda>el. elementMatches sf (mf_selector mf) matchValue el s1) elements of
                 Some el \<Rightarrow> el
               | None \<Rightarrow> hd elements))
           (swallow (s_waitForLoadState sf page)) s1
     \<and> (\<forall>e1 e2 e3. elements = [e1, e2, e3]
            \<and> \<not> elementMatches sf (mf_selector mf) matchValue e1 s1
            \<and> elementMatches sf (mf_selector mf) matchValue e2 s1 \<longrightarrow>
          executeAction sf page action data s
            = andThen (s_elemClick sf e2) (swallow (s_waitForLoadState sf page)) s1)
     \<and> ((\<forall>el \<in> set elements. \<not> elementMatches sf (mf_selector mf) matchValue el s1) \<longrightarrow>
          executeAction sf page action data s
            = andThen (s_elemClick sf (hd elements)) (swallow (s_waitForLoadState sf page)) s1)
     \<and> (matchValue \<noteq> [] \<and> \<not> js_space (hd matchValue) \<and> \<not> js_space (last matchValue) \<longrightarrow>
          (\<forall>el. elementMatches sf (mf_selector mf) matchValue el s1 \<longleftrightarrow>
             (\<exists>fe txt. s_elemQuery sf el (mf_selector mf) s1 = Inr (Some fe)
                \<and> s_textContent sf fe s1 = Inr (Some txt) \<and> str_includes txt matchValue)))
     \<and> (\<forall>el. elementMatches sf (mf_selector mf) matchValue el s1 \<longleftrightarrow>
          (\<exists>fe cs. s_elemQuery sf el (mf_selector mf) s1 = Inr (Some fe)
             \<and> s_textContent sf fe s1 = Inr (Some cs) \<and> cs \<noteq> []
             \<and> (\<exists>a b. js_trim cs = a @ matchValue @ b)))
     \<and> (\<forall>cs. \<exists>l r. cs = l @ js_trim cs @ r
            \<and> (\<forall>c \<in> set l. js_space c) \<and> (\<forall>c \<in> set r. js_space c)
            \<and> (js_trim cs = [] \<or> (\<not> js_space (hd (js_trim cs)) \<and> \<not> js_space (last (js_trim cs)))))"
proof -
  obtain first others where els: "elements = first # others"
    using assms(7) by (cases elements) auto
  let ?target = "case find (\<lambda>el. elementMatches sf (mf_selector mf) matchValue el s1) elements of
                   Some el \<Rightarrow> el | None \<Rightarrow> hd elements"
  have cf: "clickFirstOnly sf page action data s1 = s_elemClick sf ?target s1"
    using assms(3,6,8) unfolding els
    by (simp add: clickFirstOnly_def scanElements_find del: scanElements.simps
        split: option.splits)
  have main: "executeAction sf page action data s
       = andThen (s_elemClick sf ?target) (swallow (s_waitForLoadState sf page)) s1"
    using click_firstOnly_reaches [OF assms(1,2,4,5), of data] cf
    by (simp add: andThen_def)
  have none: "?target = hd elements"
    if "\<forall>el \<in> set elements. \<not> elementMatches sf (mf_selector mf) matchValue el s1"
  proof -
    have "find (\<lambda>el. elementMatches sf (mf_selector mf) matchValue el s1) elements = None"
      using that by (simp add: find_None_iff)
    then show ?thesis by simp
  qed
  show ?thesis
  proof (intro conjI allI impI)
    show "executeAction sf page action data s
       = andThen (s_elemClick sf ?target) (swallow (s_waitForLoadState sf page)) s1"
      by (rule main)
  next
    fix e1 e2 e3
    assume "elements = [e1, e2, e3]
            \<and> \<not> elementMatches sf (mf_selector mf) matchValue e1 s1
            \<and> elementMatches sf (mf_selector mf) matchValue e2 s1"
    then have "?target = e2" by simp
    with main show "executeAction sf page action data s
            = andThen (s_elemClick sf e2) (swallow (s_waitForLoadState sf page)) s1"
      by simp
  next
    assume "\<forall>el \<in> set elements. \<not> elementMatches sf (mf_selector mf) matchValue el s1"
    from none [OF this] main
    show "executeAction sf page action data s
            = andThen (s_elemClick sf (hd elements)) (swallow (s_waitForLoadState sf page)) s1"
      by simp
  next
    fix el
    assume "matchValue \<noteq> [] \<and> \<not> js_space (hd matchValue) \<and> \<not> js_space (last matchValue)"
    then show "elementMatches sf (mf_selector mf) matchValue el s1 \<longleftrightarrow>
             (\<exists>fe txt. s_elemQuery sf el (mf_selector mf) s1 = Inr (Some fe)
                \<and> s_textContent sf fe s1 = Inr (Some txt) \<and> str_includes txt matchValue)"
      by (intro elementMatches_plain) simp_all
  next
    fix el
    show "elementMatches sf (mf_selector mf) matchValue el s1 \<longleftrightarrow>
          (\<exists>fe cs. s_elemQuery sf el (mf_selector mf) s1 = Inr (Some fe)
             \<and> s_textContent sf fe s1 = Inr (Some cs) \<and> cs \<noteq> []
             \<and> (\<exists>a b. js_trim cs = a @ matchValue @ b))"
      by (rule elementMatches_trimmed)
  next
    fix cs
    show "\<exists>l r. cs = l @ js_trim cs @ r
            \<and> (\<forall>c \<in> set l. js_space c) \<and> (\<forall>c \<in> set r. js_space c)
            \<and> (js_trim cs = [] \<or> (\<not> js_space (hd (js_trim cs)) \<and> \<not> js_space (last (js_trim cs))))"
      by (rule js_trim_blanks)
  qed
qed

lemmas interp_defs = executeAction_def requireSelector_def selectorExists_def andThen_def
  swallow_def clickFirstOnly_def elementMatches_def Let_def js_index_def js_lookup_def
  objectPrototypeKeys_def js_trim_def js_space_def

lemmas demo_defs = demoSurface_def demoInit_def demoQuery_def demoDisplay_def demoText_def
  demoWait_def demoFill_def demoGone_def demoClick_def demoInput_def demoSite_def demoWorld_def

theorem click_matchField_target_witness:
  "selectorExists demoSurface 0 ''tr.row'' demoInit
   \<and> s_waitForSelector demoSurface 0 ''tr.row'' demoInit = (None, demoInit)
   \<and> s_queryAll demoSurface 0 ''tr.row'' demoInit = Inr [1, 2, 3]
   \<and> js_call_toString (js_index [(''releaseOrderNumber'', Str ''RO-2002'')] ''releaseOrderNumber'')
       = Inr ''RO-2002''
   \<and> \<not> elementMatches demoSurface ''td.ro'' ''RO-2002'' 1 demoInit
   \<and> elementMatches demoSurface ''td.ro'' ''RO-2002'' 2 demoInit
   \<and> \<not> elementMatches demoSurface ''td.ro'' ''RO-2002'' 3 demoInit
   \<and> executeAction demoSurface 0 demoClick [(''releaseOrderNumber'', Str ''RO-2002'')] demoInit
       = (None, demoInit\<lparr>d_clicked := [2]\<rparr>)
   \<and> executeAction demoSurface 0 demoClick [(''releaseOrderNumber'', Str ''RO-7'')] demoInit
       = (None, demoInit\<lparr>d_clicked := [1]\<rparr>)"
  using click_matchField_target [of demoClick "\<lparr>mf_value = ''releaseOrderNumber'', mf_selector = ''td.ro''\<rparr>"
      demoSurface 0 demoInit demoInit "[1, 2, 3]" "[(''releaseOrderNumber'', Str ''RO-2002'')]" "''RO-2002''"]
    click_matchField_target [of demoClick "\<lparr>mf_value = ''releaseOrderNumber'', mf_selector = ''td.ro''\<rparr>"
      demoSurface 0 demoInit demoInit "[1, 2, 3]" "[(''releaseOrderNumber'', Str ''RO-7'')]" "''RO-7''"]
  by (simp add: demo_defs interp_defs)

text \<open>
  Claim C7 as stated fails: the test is made on the trimmed text. For the data value
  \<open>RO-2002\<close> with a blank before it, the text of the second row's sub-element
  contains the value and the text of the first row's does not, yet the trimmed text of
  the second row does not contain it either, no row qualifies, and the first row is
  clicked.
\<close>

theorem click_matchField_blank_counterexample:
  "js_call_toString (js_index [(''releaseOrderNumber'', Str '' RO-2002'')] ''releaseOrderNumber'')
     = Inr '' RO-2002''
   \<and> s_queryAll demoSurface 0 ''tr.row'' demoInit = Inr [1, 2, 3]
   \<and> s_elemQuery demoSurface 1 ''td.ro'' demoInit = Inr (Some 11)
   \<and> s_textContent demoSurface 11 demoInit = Inr (Some ''RO-1001'')
   \<and> \<not> str_includes ''RO-1001'' '' RO-2002''
   \<and> s_elemQuery demoSurface 2 ''td.ro'' demoInit = Inr (Some 12)
   \<and> s_textContent demoSurface 12 demoInit = Inr (Some '' RO-2002 '')
   \<and> str_includes '' RO-2002 '' '' RO-2002''
   \<and> executeAction demoSurface 0 demoClick [(''releaseOrderNumber'', Str '' RO-2002'')] demoInit
       = (None, demoInit\<lparr>d_clicked := [1]\<rparr>)"
  by (simp add: demo_defs interp_defs)

text \<open>
  Claim C10. In the same situation, when the data context has nothing (\<open>undefined\<close>)
  or \<open>null\<close> under the \<open>matchField\<close> key, \<open>executeAction\<close> throws a
  \<open>TypeError\<close>. The state it leaves is the one the visibility wait left: no element was
  clicked, and nothing of the result depends on the sub-elements or their texts.
\<close>

theorem click_matchField_missing_value:
  assumes "a_type action = ''click''" "a_firstOnly action" "a_matchField action = Some mf"
    and "selectorExists sf page (a_selector action) s"
    and "s_waitForSelector sf page (a_selector action) s = (None, s1)"
    and "s_queryAll sf page (a_selector action) s1 = Inr elements" "elements \<noteq> []"
    and "js_index data (mf_value mf) = Undefined \<or> js_index data (mf_value mf) = Null"
  shows "\<exists>m. executeAction sf page action data s = (Some (TypeError m), s1)"
proof -
  obtain first others where els: "elements = first # others"
    using assms(7) by (cases elements) auto
  from assms(8) obtain m where m: "js_call_toString (js_index data (mf_value mf)) = Inl (TypeError m)"
    by auto
  have "clickFirstOnly sf page action data s1 = (Some (TypeError m), s1)"
    using assms(3,6) els m by (simp add: clickFirstOnly_def)
  then have "executeAction sf page action data s = (Some (TypeError m), s1)"
    using click_firstOnly_reaches [OF assms(1,2,4,5), of data] by (simp add: andThen_def)
  then show ?thesis ..
qed

theorem click_matchField_missing_value_witness:
  "selectorExists demoSurface 0 ''tr.row'' demoInit
   \<and> s_waitForSelector demoSurface 0 ''tr.row'' demoInit = (None, demoInit)
   \<and> s_queryAll demoSurface 0 ''tr.row'' demoInit = Inr [1, 2, 3]
   \<and> js_index [(''ID'', Num 7)] ''releaseOrderNumber'' = Undefined
   \<and> executeAction demoSurface 0 demoClick [(''ID'', Num 7)] demoInit
       = (Some (TypeError ''Cannot read properties of undefined (reading toString)''), demoInit)"
  using click_matchField_missing_value [of demoClick "\<lparr>mf_value = ''releaseOrderNumber'', mf_selector = ''td.ro''\<rparr>"
      demoSurface 0 demoInit demoInit "[1, 2, 3]" "[(''ID'', Num 7)]"]
  by (simp add: demo_defs interp_defs)

section \<open>Properties of the ledger and the orchestrator\<close>

lemma appended_Nil [simp]: "appended c [] = c"
  by (simp add: appended_def)

lemma appended_appended: "appended (appended c xs) ys = appended c (xs @ ys)"
  by (simp add: appended_def)

lemma failedFile_same: "failedFile w = x \<Longrightarrow> w\<lparr>failedFile := x\<rparr> = w"
  by auto

lemma appendFailedToFile_readable:
  "failedFile w = Some c \<Longrightarrow>
   appendFailedToFile fi w = w\<lparr>failedFile := Some (appended c [fi])\<rparr>"
  by (simp add: appendFailedToFile_def appended_def)

lemma appendFailedToFile_unreadable:
  "failedFile w = None \<Longrightarrow> appendFailedToFile fi w = w"
  by (simp add: appendFailedToFile_def)

lemma failAll_readable:
  "failedFile w = Some c \<Longrightarrow>
   failAll depot reason items w
     = w\<lparr>failedFile := Some (appended c (map (\<lambda>item. failedEntry depot item reason (now w)) items))\<rparr>"
proof (induction items arbitrary: w c)
  case Nil
  then show ?case by (simp add: failedFile_same)
next
  case (Cons item items)
  let ?w = "w\<lparr>failedFile := Some (appended c [failedEntry depot item reason (now w)])\<rparr>"
  have "failAll depot reason (item # items) w = failAll depot reason items ?w"
    using Cons.prems by (simp add: appendFailedToFile_readable)
  also have "\<dots> = ?w\<lparr>failedFile := Some (appended (appended c [failedEntry depot item reason (now w)])
        (map (\<lambda>item. failedEntry depot item reason (now ?w)) items))\<rparr>"
    by (rule Cons.IH) simp
  finally show ?case by (simp add: appended_appended)
qed

lemma markLoop_readable:
  "failedFile w = Some c \<Longrightarrow>
   markLoop depot processed items w
     = w\<lparr>failedFile := Some (appended c
          (map (\<lambda>item. failedEntry depot item ''Browser/Page closed unexpectedly'' (now w))
             (filter (\<lambda>item. roNumberOf item \<notin> set processed) items)))\<rparr>"
proof (induction items arbitrary: w c)
  case Nil
  then show ?case by (simp add: failedFile_same)
next
  case (Cons item items)
  show ?case
  proof (cases "roNumberOf item \<in> set processed")
    case True
    then have "markLoop depot processed (item # items) w = markLoop depot processed items w"
      by (simp add: roNumberOf_def Let_def)
    then show ?thesis using Cons.IH [OF Cons.prems] True by simp
  next
    case False
    let ?fi = "failedEntry depot item ''Browser/Page closed unexpectedly'' (now w)"
    let ?w = "w\<lparr>failedFile := Some (appended c [?fi])\<rparr>"
    have "markLoop depot processed (item # items) w = markLoop depot processed items ?w"
      using False Cons.prems by (simp add: roNumberOf_def Let_def appendFailedToFile_readable)
    also have "\<dots> = ?w\<lparr>failedFile := Some (appended (appended c [?fi])
          (map (\<lambda>item. failedEntry depot item ''Browser/Page closed unexpectedly'' (now ?w))
             (filter (\<lambda>item. roNumberOf item \<notin> set processed) items)))\<rparr>"
      by (rule Cons.IH) simp
    finally show ?thesis using False by (simp add: appended_appended)
  qed
qed

text \<open>
  Claim C3, as the code has it. When the failed file is readable and the release-order
  numbers are primitive values, \<open>markRemainingAsFailed\<close> appends to the failed file
  one entry for each item of the depot whose number is neither in the success list nor
  in the failed file as they were at the call, in the order of the depot, each with the
  reason \<open>Browser/Page closed unexpectedly\<close>; it appends nothing for the other items
  and changes nothing else.
\<close>

theorem markRemainingAsFailed_exact:
  assumes "failedFile w = Some content"
    and "js_lookup grouped depot = Own items"
    and "\<forall>item \<in> set items. primitive (roNumberOf item)"
  shows "markRemainingAsFailed grouped depot w
       = (None,
          w\<lparr>failedFile := Some (appended content
               (map (\<lambda>item. failedEntry depot item ''Browser/Page closed unexpectedly'' (now w))
                  (filter (\<lambda>item. roNumberOf item \<notin> set (map s_releaseOrderNumber (successList w))
                                   \<and> roNumberOf item \<notin> set (map f_releaseOrderNumber (fc_data content)))
                     items)))\<rparr>)"
proof -
  have "\<And>item. (roNumberOf item \<notin> set (map s_releaseOrderNumber (successList w) @ getFailedROs w))
      = (roNumberOf item \<notin> set (map s_releaseOrderNumber (successList w))
           \<and> roNumberOf item \<notin> set (map f_releaseOrderNumber (fc_data content)))"
    using assms(1) by (auto simp: getFailedROs_def)
  then show ?thesis
    using assms(1,2) by (simp add: markRemainingAsFailed_def markLoop_readable Let_def)
qed


theorem markRemainingAsFailed_exact_witness:
  "markRemainingAsFailed
     [(''D1'', [[(''releaseOrderNumber'', Str ''A1'')], [(''releaseOrderNumber'', Str ''A2'')],
                [(''releaseOrderNumber'', Str ''A3'')], [(''releaseOrderNumber'', Str ''A4'')],
                [(''releaseOrderNumber'', Str ''A5'')]])]
     ''D1''
     (demoWorld\<lparr>successList :=
        [successEntry ''D1'' [(''releaseOrderNumber'', Str ''A1'')] ''t1'',
         successEntry ''D1'' [(''releaseOrderNumber'', Str ''A2'')] ''t1'']\<rparr>)
   = (None,
      demoWorld\<lparr>successList :=
          [successEntry ''D1'' [(''releaseOrderNumber'', Str ''A1'')] ''t1'',
           successEntry ''D1'' [(''releaseOrderNumber'', Str ''A2'')] ''t1''],
        failedFile := Some \<lparr>fc_timestamp = ''t0'', fc_total = 3, fc_data =
          [failedEntry ''D1'' [(''releaseOrderNumber'', Str ''A3'')] ''Browser/Page closed unexpectedly'' ''t1'',
           failedEntry ''D1'' [(''releaseOrderNumber'', Str ''A4'')] ''Browser/Page closed unexpectedly'' ''t1'',
           failedEntry ''D1'' [(''releaseOrderNumber'', Str ''A5'')] ''Browser/Page closed unexpectedly'' ''t1'']\<rparr>\<rparr>)"
  using markRemainingAsFailed_exact [of
     "demoWorld\<lparr>successList :=
        [successEntry ''D1'' [(''releaseOrderNumber'', Str ''A1'')] ''t1'',
         successEntry ''D1'' [(''releaseOrderNumber'', Str ''A2'')] ''t1'']\<rparr>"
     "\<lparr>fc_timestamp = ''t0'', fc_total = 0, fc_data = []\<rparr>"
     "[(''D1'', [[(''releaseOrderNumber'', Str ''A1'')], [(''releaseOrderNumber'', Str ''A2'')],
                [(''releaseOrderNumber'', Str ''A3'')], [(''releaseOrderNumber'', Str ''A4'')],
                [(''releaseOrderNumber'', Str ''A5'')]])]"
     "''D1''"
     "[[(''releaseOrderNumber'', Str ''A1'')], [(''releaseOrderNumber'', Str ''A2'')],
                [(''releaseOrderNumber'', Str ''A3'')], [(''releaseOrderNumber'', Str ''A4'')],
                [(''releaseOrderNumber'', Str ''A5'')]]"]
  by (simp add: demoWorld_def js_lookup_def roNumberOf_def js_or_def js_get_def successEntry_def
      appended_def)

text \<open>
  Claim C3 as stated fails: the reason written is not \<open>surface closed unexpectedly\<close>,
  and over an unreadable failed file nothing is marked at all.
\<close>

theorem markRemainingAsFailed_reason_counterexample:
  "map f_reason (fc_data (the (failedFile (snd
      (markRemainingAsFailed [(''D1'', [[(''releaseOrderNumber'', Str ''A3'')]])] ''D1'' demoWorld)))))
     = [''Browser/Page closed unexpectedly'']
   \<and> ''Browser/Page closed unexpectedly'' \<noteq> ''surface closed unexpectedly''
   \<and> markRemainingAsFailed [(''D1'', [[(''releaseOrderNumber'', Str ''A3'')]])] ''D1''
         (demoWorld\<lparr>failedFile := None\<rparr>)
       = (None, demoWorld\<lparr>failedFile := None\<rparr>)"
  by (simp add: markRemainingAsFailed_def js_lookup_def getFailedROs_def demoWorld_def Let_def
      js_or_def js_get_def appendFailedToFile_def failedEntry_def)

text \<open>
  How the cycle runner gets there: when \<open>processDepot\<close> throws an error whose message
  says that the page, context or browser has been closed, the success list is saved,
  the reconciliation above runs over the saved state, the context is closed (twice, by
  the handler and by \<open>finally\<close>) and the loop over the depots stops.
\<close>

lemma cycleDepot_surface_closed:
  assumes "s_newContext sf (surf w) = (Inr context, s1)"
    and "s_newPage sf context s1 = (Inr page, s2)"
    and "processDepot sf depot grouped accounts siteConfig page (w\<lparr>surf := s2\<rparr>) = (Some error, w1)"
    and "surfaceClosedMessage (errorMessage error)"
    and "js_lookup grouped depot = Own items"
  shows "cycleDepot sf accounts siteConfig grouped depot w
       = (Inr Break,
          closeQuietly sf context (closeQuietly sf context
            (snd (markRemainingAsFailed grouped depot (saveSuccessToFile w1)))))"
  using assms by (simp add: cycleDepot_def markRemainingAsFailed_def Let_def)

lemma processDepot_no_account:
  assumes "\<not> truthy (js_index accounts depot)"
    and "js_lookup grouped depot = Own items"
    and "failedFile w = Some content"
  shows "processDepot sf depot grouped accounts siteConfig page w
       = (None,
          w\<lparr>failedFile := Some (appended content
               (map (\<lambda>item. failedEntry depot item ''No account configured for depot'' (now w)) items))\<rparr>)"
  using assms by (simp add: processDepot_def Let_def failAll_readable)

text \<open>
  Claim C6, as the code has it. For a depot without a truthy entry in the account
  registry, over a readable failed file: \<open>processDepot\<close> writes one failed entry per
  item, with the reason \<open>No account configured for depot\<close>, and touches the surface
  not at all (no navigation, no login, no action). The cycle runner has by then opened
  a context and a page for the depot, and closes the context afterwards: these are the
  only surface operations of the depot's turn.
\<close>

theorem missing_account_fails_depot:
  assumes "\<not> truthy (js_index accounts depot)"
    and "js_lookup grouped depot = Own items"
    and "failedFile w = Some content"
    and "s_newContext sf (surf w) = (Inr context, s1)"
    and "s_newPage sf context s1 = (Inr page, s2)"
  shows "processDepot sf depot grouped accounts siteConfig page (w\<lparr>surf := s2\<rparr>)
       = (None,
          w\<lparr>surf := s2,
            failedFile := Some (appended content
               (map (\<lambda>item. failedEntry depot item ''No account configured for depot'' (now w)) items))\<rparr>)
     \<and> cycleDepot sf accounts siteConfig grouped depot w
       = (Inr Continue,
          w\<lparr>surf := snd (s_closeContext sf context s2),
            failedFile := Some (appended content
               (map (\<lambda>item. failedEntry depot item ''No account configured for depot'' (now w)) items))\<rparr>)"
proof -
  have pd: "processDepot sf depot grouped accounts siteConfig page (w\<lparr>surf := s2\<rparr>)
       = (None,
          w\<lparr>surf := s2,
            failedFile := Some (appended content
               (map (\<lambda>item. failedEntry depot item ''No account configured for depot'' (now w)) items))\<rparr>)"
    using processDepot_no_account [OF assms(1,2), of "w\<lparr>surf := s2\<rparr>" content sf siteConfig page] assms(3)
    by simp
  then show ?thesis
    using assms(4,5) by (simp add: cycleDepot_def closeQuietly_def)
qed

theorem missing_account_fails_depot_witness:
  "\<not> truthy (js_index [(''D2'', Obj [(''username'', Str ''u'')])] ''D1'')
   \<and> js_lookup [(''D1'', [[(''releaseOrderNumber'', Str ''A1''), (''ID'', Num 7)], [(''ID'', Num 8)]])] ''D1''
       = Own [[(''releaseOrderNumber'', Str ''A1''), (''ID'', Num 7)], [(''ID'', Num 8)]]
   \<and> cycleDepot demoSurface [(''D2'', Obj [(''username'', Str ''u'')])] demoSite
        [(''D1'', [[(''releaseOrderNumber'', Str ''A1''), (''ID'', Num 7)], [(''ID'', Num 8)]])] ''D1'' demoWorld
     = (Inr Continue,
        demoWorld\<lparr>surf := demoInit\<lparr>d_contexts := 1, d_closed := 1\<rparr>,
          failedFile := Some \<lparr>fc_timestamp = ''t0'', fc_total = 2, fc_data =
            [\<lparr>f_depot = ''D1'', f_releaseOrderID = Num 7, f_releaseOrderNumber = Str ''A1'',
              f_reason = ''No account configured for depot'', f_timestamp = ''t1''\<rparr>,
             \<lparr>f_depot = ''D1'', f_releaseOrderID = Num 8, f_releaseOrderNumber = Str ''N/A'',
              f_reason = ''No account configured for depot'', f_timestamp = ''t1''\<rparr>]\<rparr>\<rparr>)"
  using missing_account_fails_depot [of "[(''D2'', Obj [(''username'', Str ''u'')])]" "''D1''"
      "[(''D1'', [[(''releaseOrderNumber'', Str ''A1''), (''ID'', Num 7)], [(''ID'', Num 8)]])]"
      "[[(''releaseOrderNumber'', Str ''A1''), (''ID'', Num 7)], [(''ID'', Num 8)]]"
      demoWorld "\<lparr>fc_timestamp = ''t0'', fc_total = 0, fc_data = []\<rparr>"
      demoSurface 0 "demoInit\<lparr>d_contexts := 1\<rparr>" 0 "demoInit\<lparr>d_contexts := 1\<rparr>" demoSite]
  by (simp add: demo_defs js_index_def js_lookup_def objectPrototypeKeys_def appended_def
      failedEntry_def js_or_def js_get_def)

text \<open>
  Claim C6 as stated fails: a context has been allocated for the depot that has no
  account (nothing is visited, though), and the reason written is not
  \<open>no account configured\<close>.
\<close>

theorem missing_account_context_counterexample:
  "d_contexts (surf (snd (cycleDepot demoSurface [] demoSite
        [(''D1'', [[(''releaseOrderNumber'', Str ''A1'')]])] ''D1'' demoWorld))) = 1
   \<and> d_visited (surf (snd (cycleDepot demoSurface [] demoSite
        [(''D1'', [[(''releaseOrderNumber'', Str ''A1'')]])] ''D1'' demoWorld))) = []
   \<and> map f_reason (fc_data (the (failedFile (snd (cycleDepot demoSurface [] demoSite
        [(''D1'', [[(''releaseOrderNumber'', Str ''A1'')]])] ''D1'' demoWorld)))))
       = [''No account configured for depot'']
   \<and> ''No account configured for depot'' \<noteq> ''no account configured''"
  by (simp add: cycleDepot_def processDepot_def closeQuietly_def demo_defs js_index_def
      js_lookup_def objectPrototypeKeys_def Let_def appendFailedToFile_def failedEntry_def)


text \<open>
  The action loop of an item, over action lists of any length: it runs the item
  actions only, goes on after each one that passes, and stops at the first that fails.
\<close>

lemma roActions_itemActions:
  "roActions sf page actions roData s = roActions sf page (itemActions actions) roData s"
  by (induction actions arbitrary: s) (auto simp: itemActions_def split: prod.splits option.splits)

lemma itemActions_all: "\<forall>a \<in> set (itemActions actions). a_typeAction a = ''roData''"
  by (simp add: itemActions_def)

lemma roActions_after_passAll:
  "\<forall>a \<in> set pre. a_typeAction a = ''roData'' \<Longrightarrow> passAll sf page roData pre s = Some s1 \<Longrightarrow>
   roActions sf page (pre @ rest) roData s = roActions sf page rest roData s1"
proof (induction pre arbitrary: s)
  case Nil
  then show ?case by simp
next
  case (Cons a pre)
  then show ?case
    by (auto split: prod.splits option.splits if_splits)
qed

lemma passAll_append:
  "passAll sf page roData (pre @ rest) s
     = (case passAll sf page roData pre s of None \<Rightarrow> None | Some s1 \<Rightarrow> passAll sf page roData rest s1)"
  by (induction pre arbitrary: s) (auto split: prod.splits option.splits)

lemma passAll_fails_first:
  "actionFails sf page roData a s \<Longrightarrow> passAll sf page roData (a # post) s = None"
  by (auto simp: actionFails_def split: prod.splits option.splits)

lemma passAll_None:
  "passAll sf page roData acts s = None \<Longrightarrow>
   \<exists>pre a post s1. acts = pre @ a # post \<and> passAll sf page roData pre s = Some s1
      \<and> actionFails sf page roData a s1"
proof (induction acts arbitrary: s)
  case Nil
  then show ?case by simp
next
  case (Cons a acts)
  show ?case
  proof (cases "actionFails sf page roData a s")
    case True
    then have "a # acts = [] @ a # acts \<and> passAll sf page roData [] s = Some s
        \<and> actionFails sf page roData a s" by simp
    then show ?thesis by blast
  next
    case False
    then obtain s1 verdict logged s2 where
      st: "andThen (executeAction sf page a roData) (delayOf sf page a) s = (None, s1)"
        "checkAndHandlePopup sf page s1 = ((verdict, logged), s2)"
        "\<not> (verdict = Some ''error'' \<or> verdict = Some ''warning'')"
      by (auto simp: actionFails_def split: prod.splits option.splits)
    then have step: "passAll sf page roData (a # acts) s = passAll sf page roData acts s2"
      by simp
    with Cons.prems have "passAll sf page roData acts s2 = None" by simp
    from Cons.IH [OF this] obtain pre b post s3 where
      p: "acts = pre @ b # post" "passAll sf page roData pre s2 = Some s3"
         "actionFails sf page roData b s3" by blast
    have "passAll sf page roData (a # pre) s = Some s3" using st p(2) by simp
    moreover have "a # acts = (a # pre) @ b # post" using p(1) by simp
    ultimately show ?thesis using p(3) by blast
  qed
qed

lemma passAll_None_iff:
  "passAll sf page roData acts s = None \<longleftrightarrow>
   (\<exists>pre a post s1. acts = pre @ a # post \<and> passAll sf page roData pre s = Some s1
      \<and> actionFails sf page roData a s1)"
proof
  assume "passAll sf page roData acts s = None"
  then show "\<exists>pre a post s1. acts = pre @ a # post \<and> passAll sf page roData pre s = Some s1
      \<and> actionFails sf page roData a s1" by (rule passAll_None)
next
  assume "\<exists>pre a post s1. acts = pre @ a # post \<and> passAll sf page roData pre s = Some s1
      \<and> actionFails sf page roData a s1"
  then obtain pre a post s1 where "acts = pre @ a # post" "passAll sf page roData pre s = Some s1"
      "actionFails sf page roData a s1" by blast
  then show "passAll sf page roData acts s = None"
    using passAll_fails_first [of sf page roData a s1 post] by (simp add: passAll_append)
qed

lemma roActions_flag_items:
  "\<forall>a \<in> set acts. a_typeAction a = ''roData'' \<Longrightarrow>
   fst (fst (roActions sf page acts roData s)) \<longleftrightarrow> passAll sf page roData acts s = None"
  by (induction acts arbitrary: s) (auto split: prod.splits option.splits)

lemma roActions_flag:
  "fst (fst (roActions sf page actions roData s))
     \<longleftrightarrow> passAll sf page roData (itemActions actions) s = None"
  using roActions_flag_items [of "itemActions actions" sf page roData s] itemActions_all [of actions]
    roActions_itemActions [of sf page actions roData s] by simp

lemma roActions_throw:
  assumes "itemActions actions = pre @ a # post"
    and "passAll sf page roData pre s = Some s1"
    and "andThen (executeAction sf page a roData) (delayOf sf page a) s1 = (Some e, s2)"
  shows "roActions sf page actions roData s = ((True, reasonOfError e), s2)"
proof -
  have all: "\<forall>a \<in> set (pre @ a # post). a_typeAction a = ''roData''"
    using itemActions_all [of actions] assms(1) by simp
  have "roActions sf page actions roData s = roActions sf page (pre @ a # post) roData s"
    using roActions_itemActions [of sf page actions roData s] assms(1) by simp
  also have "\<dots> = roActions sf page (a # post) roData s1"
    using all assms(2) by (intro roActions_after_passAll) simp_all
  also have "\<dots> = ((True, reasonOfError e), s2)"
    using all assms(3) by simp
  finally show ?thesis .
qed

lemma roActions_verdict:
  assumes "itemActions actions = pre @ a # post"
    and "passAll sf page roData pre s = Some s1"
    and "andThen (executeAction sf page a roData) (delayOf sf page a) s1 = (None, s2)"
    and "checkAndHandlePopup sf page s2 = ((Some v, logged), s3)"
    and "v = ''error'' \<or> v = ''warning''"
  shows "roActions sf page actions roData s = ((True, ''Popup '' @ v @ '' detected''), s3)"
proof -
  have all: "\<forall>a \<in> set (pre @ a # post). a_typeAction a = ''roData''"
    using itemActions_all [of actions] assms(1) by simp
  have "roActions sf page actions roData s = roActions sf page (pre @ a # post) roData s"
    using roActions_itemActions [of sf page actions roData s] assms(1) by simp
  also have "\<dots> = roActions sf page (a # post) roData s1"
    using all assms(2) by (intro roActions_after_passAll) simp_all
  also have "\<dots> = ((True, ''Popup '' @ v @ '' detected''), s3)"
    using all assms(3,4,5) by auto
  finally show ?thesis .
qed

lemma roActions_pass:
  assumes "passAll sf page roData (itemActions actions) s = Some s'"
  shows "roActions sf page actions roData s = ((False, []), s')"
proof -
  have "roActions sf page actions roData s = roActions sf page (itemActions actions @ []) roData s"
    using roActions_itemActions [of sf page actions roData s] by simp
  also have "\<dots> = roActions sf page [] roData s'"
    using itemActions_all [of actions] assms by (intro roActions_after_passAll) simp_all
  finally show ?thesis by simp
qed

text \<open>
  What \<open>processReleaseOrder\<close> and the item loop leave behind over a readable failed
  file.
\<close>

lemma processReleaseOrder_exact:
  assumes "failedFile w = Some content"
  shows "processReleaseOrder sf page siteConfig roData depot w
       = w\<lparr>surf := snd (roActions sf page (sc_actions siteConfig) roData (surf w)),
           successList := successList w @ recordedSuccess depot (now w)
               (roData, fst (roActions sf page (sc_actions siteConfig) roData (surf w))),
           failedFile := Some (appended content (recordedFailed depot (now w)
               (roData, fst (roActions sf page (sc_actions siteConfig) roData (surf w)))))\<rparr>"
  using assms
  by (cases "roActions sf page (sc_actions siteConfig) roData (surf w)")
     (auto simp: processReleaseOrder_def appendFailedToFile_readable)

lemma itemTrace_items:
  "map fst (fst (itemTrace sf page actions account items s)) = map (withAccount account) items"
proof (induction items arbitrary: s)
  case Nil
  then show ?case by simp
next
  case (Cons item items)
  obtain outcome s1 where r: "roActions sf page actions (withAccount account item) s = (outcome, s1)"
    by (metis surj_pair)
  obtain outcomes s2 where t: "itemTrace sf page actions account items s1 = (outcomes, s2)"
    by (metis surj_pair)
  show ?case using r t Cons.IH [of s1] by simp
qed

lemma itemTrace_append:
  "itemTrace sf page actions account (before @ after) s
     = (fst (itemTrace sf page actions account before s)
          @ fst (itemTrace sf page actions account after
                   (snd (itemTrace sf page actions account before s))),
        snd (itemTrace sf page actions account after
               (snd (itemTrace sf page actions account before s))))"
proof (induction before arbitrary: s)
  case Nil
  then show ?case by simp
next
  case (Cons item before)
  obtain outcome s1 where r: "roActions sf page actions (withAccount account item) s = (outcome, s1)"
    by (metis surj_pair)
  obtain outcomes s2 where t: "itemTrace sf page actions account before s1 = (outcomes, s2)"
    by (metis surj_pair)
  show ?case using r t Cons.IH [of s1] by (simp split: prod.splits)
qed

lemma processItems_exact:
  assumes "failedFile w = Some content"
  shows "processItems sf page siteConfig account depot items w
       = w\<lparr>surf := snd (itemTrace sf page (sc_actions siteConfig) account items (surf w)),
           successList := successList w @ concat (map (recordedSuccess depot (now w))
               (fst (itemTrace sf page (sc_actions siteConfig) account items (surf w)))),
           failedFile := Some (appended content (concat (map (recordedFailed depot (now w))
               (fst (itemTrace sf page (sc_actions siteConfig) account items (surf w))))))\<rparr>"
  using assms
proof (induction items arbitrary: w content)
  case Nil
  then show ?case by simp
next
  case (Cons item items)
  let ?rd = "withAccount account item"
  let ?r = "roActions sf page (sc_actions siteConfig) ?rd (surf w)"
  let ?w = "processReleaseOrder sf page siteConfig ?rd depot w"
  note e = processReleaseOrder_exact [OF Cons.prems, of sf page siteConfig ?rd depot]
  have ff: "failedFile ?w = Some (appended content (recordedFailed depot (now w) (?rd, fst ?r)))"
    by (subst e) simp
  have sw: "surf ?w = snd ?r" "now ?w = now w"
    "successList ?w = successList w @ recordedSuccess depot (now w) (?rd, fst ?r)"
    by (subst e, simp)+
  show ?case
    apply (simp only: processItems.simps)
    apply (subst Cons.IH [OF ff])
    apply (simp only: sw)
    apply (subst e)
    apply (cases ?r)
    apply (simp add: appended_appended split: prod.splits)
    done
qed

text \<open>
  The object the item loop builds for an item has the item's release-order number, so
  every processed item is found again by the reconciliation.
\<close>

lemma fold_update_map_of:
  "distinct (map fst xs) \<Longrightarrow>
   map_of (fold (\<lambda>(k, v). AList.update k v) xs al) k
     = (case map_of xs k of Some v \<Rightarrow> Some v | None \<Rightarrow> map_of al k)"
proof (induction xs arbitrary: al)
  case Nil
  then show ?case by simp
next
  case (Cons x xs)
  obtain a b where x: "x = (a, b)" by (cases x)
  have d: "distinct (map fst xs)" "a \<notin> fst ` set xs" using Cons.prems x by auto
  have n: "map_of xs a = None" using d(2) by (simp add: map_of_eq_None_iff)
  show ?case
    using Cons.IH [OF d(1), of "AList.update a b al"] x n
    by (auto simp: update_conv' split: option.splits)
qed

lemma roNumberOf_withAccount:
  "distinct (map fst item) \<Longrightarrow> roNumberOf (withAccount account item) = roNumberOf item"
  by (simp add: roNumberOf_def withAccount_def js_get_def fold_update_map_of split: option.splits)

lemma fc_data_appended: "fc_data (appended c xs) = fc_data c @ xs"
  by (simp add: appended_def)

lemma recorded_number:
  "roNumberOf roData \<in> set (map s_releaseOrderNumber (recordedSuccess depot ts (roData, outcome)))
      \<union> set (map f_releaseOrderNumber (recordedFailed depot ts (roData, outcome)))"
  by (cases outcome) (simp add: roNumberOf_def successEntry_def failedEntry_def)

lemma processed_covered:
  assumes "item \<in> set items" "distinct (map fst item)"
  shows "roNumberOf item
       \<in> set (map s_releaseOrderNumber (concat (map (recordedSuccess depot ts)
                (fst (itemTrace sf page actions account items s)))))
         \<union> set (map f_releaseOrderNumber (concat (map (recordedFailed depot ts)
                (fst (itemTrace sf page actions account items s)))))"
proof -
  let ?trace = "fst (itemTrace sf page actions account items s)"
  have "withAccount account item \<in> set (map fst ?trace)"
    using assms(1) by (simp add: itemTrace_items)
  then obtain outcome where d: "(withAccount account item, outcome) \<in> set ?trace"
    by auto
  have "roNumberOf (withAccount account item)
      \<in> set (map s_releaseOrderNumber (recordedSuccess depot ts (withAccount account item, outcome)))
      \<union> set (map f_releaseOrderNumber (recordedFailed depot ts (withAccount account item, outcome)))"
    by (rule recorded_number)
  then show ?thesis
    using d roNumberOf_withAccount [OF assms(2), of account] by (auto simp del: recordedSuccess.simps recordedFailed.simps)
qed

lemma lookup_bucket: "js_lookup grouped depot = Own items \<Longrightarrow> bucket grouped depot = items"
  by (auto simp: js_lookup_def bucket_def split: option.splits if_splits)

lemma key_lookup:
  "depot \<in> set (map fst grouped) \<Longrightarrow> js_lookup grouped depot = Own (bucket grouped depot)"
proof -
  assume "depot \<in> set (map fst grouped)"
  then have "map_of grouped depot \<noteq> None" by (simp add: map_of_eq_None_iff)
  then show ?thesis by (auto simp: js_lookup_def bucket_def)
qed

text \<open>
  \<open>processDepot\<close> for a depot that has an account, and the turn of the loop once
  the page is open.
\<close>

lemma processDepot_start_fails:
  assumes "truthy (js_index accounts depot)"
    and "js_lookup grouped depot = Own items"
    and "depotStart sf siteConfig page
           (withAccount (js_index accounts depot) (case items of [] \<Rightarrow> [] | first # others \<Rightarrow> first))
           (surf w) = (Some e, s3)"
  shows "processDepot sf depot grouped accounts siteConfig page w = (Some e, w\<lparr>surf := s3\<rparr>)"
  using assms
  by (cases items) (simp_all add: processDepot_def depotStart_def onSurf_def Let_def)

lemma processDepot_start_ok:
  assumes "truthy (js_index accounts depot)"
    and "js_lookup grouped depot = Own items"
    and "depotStart sf siteConfig page
           (withAccount (js_index accounts depot) (case items of [] \<Rightarrow> [] | first # others \<Rightarrow> first))
           (surf w) = (None, s3)"
  shows "processDepot sf depot grouped accounts siteConfig page w
       = onSurf
           (andThen (s_waitForTimeout sf page 1000)
              (andThen
                 (executeAction sf page logoutAction
                    (withAccount (js_index accounts depot)
                       (case items of [] \<Rightarrow> [] | first # others \<Rightarrow> first)))
                 (s_waitForTimeout sf page 1000)))
           (processItems sf page siteConfig (js_index accounts depot) depot items (w\<lparr>surf := s3\<rparr>))"
  using assms
  by (cases items) (simp_all add: processDepot_def depotStart_def onSurf_def Let_def)

lemma cycleDepot_open:
  assumes "openPage sf (surf w) = Some (context, page, s2)"
  shows "cycleDepot sf accounts siteConfig grouped depot w
       = (case processDepot sf depot grouped accounts siteConfig page (w\<lparr>surf := s2\<rparr>) of
            (None, w1) \<Rightarrow> (Inr Continue, closeQuietly sf context w1)
          | (Some error, w1) \<Rightarrow>
              if surfaceClosedMessage (errorMessage error)
              then (case markRemainingAsFailed grouped depot (saveSuccessToFile w1) of
                      (Some e, w2) \<Rightarrow> (Inl e, closeQuietly sf context w2)
                    | (None, w2) \<Rightarrow>
                        (Inr Break, closeQuietly sf context (closeQuietly sf context w2)))
              else (case js_lookup grouped depot of
                      Own items \<Rightarrow>
                        (Inr Continue,
                         closeQuietly sf context
                           (failAll depot (''Depot processing error: '' @ errorMessage error)
                              items w1))
                    | Inherited m \<Rightarrow>
                        (Inl (TypeError ''grouped[depot] is not iterable''),
                         closeQuietly sf context w1)
                    | Absent \<Rightarrow>
                        (Inl (TypeError ''grouped[depot] is not iterable''),
                         closeQuietly sf context w1)))"
  using assms
  by (auto simp: openPage_def cycleDepot_def split: prod.splits sum.splits)

lemma cycleDepot_not_open:
  assumes "openPage sf (surf w) = None"
  shows "\<exists>e s'. cycleDepot sf accounts siteConfig grouped depot w = (Inl e, w\<lparr>surf := s'\<rparr>)"
  using assms
  by (auto simp: openPage_def cycleDepot_def split: prod.splits sum.splits)

lemma closeQuietly_ledger [simp]:
  "successList (closeQuietly sf context w) = successList w"
  "failedFile (closeQuietly sf context w) = failedFile w"
  "now (closeQuietly sf context w) = now w"
  by (simp_all add: closeQuietly_def)

lemma saveSuccessToFile_ledger [simp]:
  "successList (saveSuccessToFile w) = successList w"
  "failedFile (saveSuccessToFile w) = failedFile w"
  "now (saveSuccessToFile w) = now w"
  by (simp_all add: saveSuccessToFile_def)

lemma f_depot_failedEntry [simp]: "f_depot (failedEntry depot item reason ts) = depot"
  by (simp add: failedEntry_def)

text \<open>
  One turn of the loop over the depots that does not slip: what it adds to the two
  lists.
\<close>

lemma markRemaining_ledger:
  assumes "failedFile w = Some c" "js_lookup grouped depot = Own items"
  shows "\<exists>other. markRemainingAsFailed grouped depot w = (None, w\<lparr>failedFile := Some (appended c other)\<rparr>)
           \<and> (\<forall>fi \<in> set other. f_depot fi = depot)
           \<and> ((\<forall>item \<in> set items. roNumberOf item
                   \<in> set (map s_releaseOrderNumber (successList w))
                     \<union> set (map f_releaseOrderNumber (fc_data c))) \<longrightarrow> other = [])"
proof -
  let ?p = "map s_releaseOrderNumber (successList w) @ getFailedROs w"
  let ?other = "map (\<lambda>item. failedEntry depot item ''Browser/Page closed unexpectedly'' (now w))
                  (filter (\<lambda>item. roNumberOf item \<notin> set ?p) items)"
  have m: "markRemainingAsFailed grouped depot w = (None, w\<lparr>failedFile := Some (appended c ?other)\<rparr>)"
    using assms by (simp add: markRemainingAsFailed_def markLoop_readable Let_def)
  have g: "set ?p = set (map s_releaseOrderNumber (successList w))
                     \<union> set (map f_releaseOrderNumber (fc_data c))"
    using assms(1) by (simp add: getFailedROs_def)
  have "?other = []"
    if "\<forall>item \<in> set items. roNumberOf item
                   \<in> set (map s_releaseOrderNumber (successList w))
                     \<union> set (map f_releaseOrderNumber (fc_data c))"
  proof -
    have "filter (\<lambda>item. roNumberOf item \<notin> set ?p) items = []"
      unfolding filter_empty_conv g using that by blast
    then show ?thesis by simp
  qed
  moreover have "\<forall>fi \<in> set ?other. f_depot fi = depot" by auto
  ultimately show ?thesis using m by blast
qed

lemma cycleDepot_turn:
  assumes readable: "failedFile w = Some content"
    and op: "openPage sf (surf w) = Some (context, page, s2)"
    and own: "js_lookup grouped depot = Own items"
    and wf: "\<forall>item \<in> set items. distinct (map fst item)"
    and noslip: "\<not> depotSlip sf depot grouped accounts siteConfig page (w\<lparr>surf := s2\<rparr>)"
  shows "\<exists>other.
           successList (snd (cycleDepot sf accounts siteConfig grouped depot w))
             = successList w @ turnSuccess (now w)
                 (depot, depotProcessed sf depot grouped accounts siteConfig page (w\<lparr>surf := s2\<rparr>))
         \<and> failedFile (snd (cycleDepot sf accounts siteConfig grouped depot w))
             = Some (appended content (turnFailed (now w)
                 (depot, depotProcessed sf depot grouped accounts siteConfig page (w\<lparr>surf := s2\<rparr>))
                   @ other))
         \<and> now (snd (cycleDepot sf accounts siteConfig grouped depot w)) = now w
         \<and> (depotProcessed sf depot grouped accounts siteConfig page (w\<lparr>surf := s2\<rparr>) = []
              \<or> other = [])
         \<and> (\<forall>fi \<in> set other. f_depot fi = depot)"
proof -
  let ?w2 = "w\<lparr>surf := s2\<rparr>"
  let ?account = "js_index accounts depot"
  let ?loginData = "withAccount ?account (case items of [] \<Rightarrow> [] | first # others \<Rightarrow> first)"
  let ?processed = "depotProcessed sf depot grouped accounts siteConfig page ?w2"
  let ?cd = "cycleDepot sf accounts siteConfig grouped depot w"
  note cd = cycleDepot_open [OF op, of accounts siteConfig grouped depot]
  have bucket: "bucket grouped depot = items" using own by (rule lookup_bucket)
  have r2: "failedFile ?w2 = Some content" using readable by simp
  show ?thesis
  proof (cases "truthy ?account")
    case False
    have p: "?processed = []" using False by (simp add: depotProcessed_def)
    let ?other = "map (\<lambda>item. failedEntry depot item ''No account configured for depot'' (now w)) items"
    have "?cd = (Inr Continue, closeQuietly sf context (?w2\<lparr>failedFile := Some (appended content ?other)\<rparr>))"
      using cd processDepot_no_account [OF False own r2, of sf siteConfig page] by simp
    then have "successList (snd ?cd) = successList w @ turnSuccess (now w) (depot, ?processed)
         \<and> failedFile (snd ?cd) = Some (appended content (turnFailed (now w) (depot, ?processed) @ ?other))
         \<and> now (snd ?cd) = now w \<and> (?processed = [] \<or> ?other = [])
         \<and> (\<forall>fi \<in> set ?other. f_depot fi = depot)"
      using p by simp
    then show ?thesis by blast
  next
    case True
    obtain r s3 where st: "depotStart sf siteConfig page ?loginData s2 = (r, s3)"
      by (metis surj_pair)
    show ?thesis
    proof (cases r)
      case (Some e)
      have p: "?processed = []" using True st Some bucket by (simp add: depotProcessed_def)
      have pd: "processDepot sf depot grouped accounts siteConfig page ?w2 = (Some e, w\<lparr>surf := s3\<rparr>)"
        using processDepot_start_fails [OF True own, of sf siteConfig page ?w2 e s3] st Some by simp
      show ?thesis
      proof (cases "surfaceClosedMessage (errorMessage e)")
        case closed: True
        let ?w3 = "saveSuccessToFile (w\<lparr>surf := s3\<rparr>)"
        have r3: "failedFile ?w3 = Some content" using readable by simp
        from markRemaining_ledger [OF r3 own]
        obtain other where o: "markRemainingAsFailed grouped depot ?w3
              = (None, ?w3\<lparr>failedFile := Some (appended content other)\<rparr>)"
            "\<forall>fi \<in> set other. f_depot fi = depot" by blast
        have "?cd = (Inr Break, closeQuietly sf context (closeQuietly sf context
                        (?w3\<lparr>failedFile := Some (appended content other)\<rparr>)))"
          using cd pd closed o(1) by simp
        then have "successList (snd ?cd) = successList w @ turnSuccess (now w) (depot, ?processed)
           \<and> failedFile (snd ?cd) = Some (appended content (turnFailed (now w) (depot, ?processed) @ other))
           \<and> now (snd ?cd) = now w \<and> (?processed = [] \<or> other = [])
           \<and> (\<forall>fi \<in> set other. f_depot fi = depot)"
          using p o(2) by simp
        then show ?thesis by blast
      next
        case generic: False
        define reason where "reason = ''Depot processing error: '' @ errorMessage e"
        let ?other = "map (\<lambda>item. failedEntry depot item reason (now w)) items"
        have r3: "failedFile (w\<lparr>surf := s3\<rparr>) = Some content" using readable by simp
        have fa: "failAll depot reason items (w\<lparr>surf := s3\<rparr>)
            = w\<lparr>surf := s3, failedFile := Some (appended content ?other)\<rparr>"
          using failAll_readable [OF r3, of depot reason items] by simp
        have "?cd = (Inr Continue, closeQuietly sf context (failAll depot reason items (w\<lparr>surf := s3\<rparr>)))"
          using cd pd generic own unfolding reason_def by simp
        then have "successList (snd ?cd) = successList w @ turnSuccess (now w) (depot, ?processed)
           \<and> failedFile (snd ?cd) = Some (appended content (turnFailed (now w) (depot, ?processed) @ ?other))
           \<and> now (snd ?cd) = now w \<and> (?processed = [] \<or> ?other = [])
           \<and> (\<forall>fi \<in> set ?other. f_depot fi = depot)"
          using p fa by simp
        then show ?thesis by blast
      qed
    next
      case None
      let ?trace = "fst (itemTrace sf page (sc_actions siteConfig) ?account items s3)"
      let ?S = "concat (map (recordedSuccess depot (now w)) ?trace)"
      let ?F = "concat (map (recordedFailed depot (now w)) ?trace)"
      have p: "?processed = ?trace" using True st None bucket by (simp add: depotProcessed_def)
      have r3: "failedFile (w\<lparr>surf := s3\<rparr>) = Some content" using readable by simp
      let ?w3 = "processItems sf page siteConfig ?account depot items (w\<lparr>surf := s3\<rparr>)"
      have pi: "?w3 = w\<lparr>surf := snd (itemTrace sf page (sc_actions siteConfig) ?account items s3),
             successList := successList w @ ?S, failedFile := Some (appended content ?F)\<rparr>"
        using processItems_exact [OF r3, of sf page siteConfig ?account depot items] by simp
      have w3: "successList ?w3 = successList w @ ?S" "failedFile ?w3 = Some (appended content ?F)"
          "now ?w3 = now w"
        by (simp_all only: pi) simp_all
      let ?logout = "andThen (s_waitForTimeout sf page 1000)
              (andThen (executeAction sf page logoutAction ?loginData) (s_waitForTimeout sf page 1000))"
      obtain r4 s4 where lo: "?logout (surf ?w3) = (r4, s4)" by (metis surj_pair)
      have pd: "processDepot sf depot grouped accounts siteConfig page ?w2 = (r4, ?w3\<lparr>surf := s4\<rparr>)"
        using processDepot_start_ok [OF True own, of sf siteConfig page ?w2 s3] st None lo
        by (simp add: onSurf_def)
      let ?w4 = "?w3\<lparr>surf := s4\<rparr>"
      have w4: "successList ?w4 = successList w @ ?S" "failedFile ?w4 = Some (appended content ?F)"
          "now ?w4 = now w"
        using w3 by simp_all
      have goal: "successList w1 = successList w @ ?S \<Longrightarrow> failedFile w1 = Some (appended content ?F)
          \<Longrightarrow> now w1 = now w \<Longrightarrow> snd ?cd = w1 \<Longrightarrow> ?thesis" for w1
      proof -
        assume a: "successList w1 = successList w @ ?S" "failedFile w1 = Some (appended content ?F)"
          "now w1 = now w" "snd ?cd = w1"
        have "successList (snd ?cd) = successList w @ turnSuccess (now w) (depot, ?processed)
           \<and> failedFile (snd ?cd) = Some (appended content (turnFailed (now w) (depot, ?processed) @ []))
           \<and> now (snd ?cd) = now w \<and> (?processed = [] \<or> ([] :: failedItem list) = [])
           \<and> (\<forall>fi \<in> set ([] :: failedItem list). f_depot fi = depot)"
          using a p by simp
        then show ?thesis by blast
      qed
      show ?thesis
      proof (cases r4)
        case None
        have "?cd = (Inr Continue, closeQuietly sf context ?w4)"
          using cd pd None by simp
        then show ?thesis using goal [of "closeQuietly sf context ?w4"] w4 by simp
      next
        case (Some e)
        show ?thesis
        proof (cases "surfaceClosedMessage (errorMessage e)")
          case closed: True
          let ?w5 = "saveSuccessToFile ?w4"
          have r5: "failedFile ?w5 = Some (appended content ?F)" using w4 by simp
          have cov: "\<forall>item \<in> set items. roNumberOf item
                   \<in> set (map s_releaseOrderNumber (successList ?w5))
                     \<union> set (map f_releaseOrderNumber (fc_data (appended content ?F)))"
          proof
            fix item assume i: "item \<in> set items"
            then have "distinct (map fst item)" using wf by blast
            from processed_covered [OF i this, of depot "now w" sf page "sc_actions siteConfig" ?account s3]
            show "roNumberOf item
                   \<in> set (map s_releaseOrderNumber (successList ?w5))
                     \<union> set (map f_releaseOrderNumber (fc_data (appended content ?F)))"
              using w4(1) by (auto simp: fc_data_appended)
          qed
          from markRemaining_ledger [OF r5 own] cov
          have m: "markRemainingAsFailed grouped depot ?w5 = (None, ?w5\<lparr>failedFile := Some (appended content ?F)\<rparr>)"
            by fastforce
          have "?cd = (Inr Break, closeQuietly sf context (closeQuietly sf context
                        (?w5\<lparr>failedFile := Some (appended content ?F)\<rparr>)))"
            using cd pd Some closed m by simp
          then show ?thesis
            using goal [of "closeQuietly sf context (closeQuietly sf context
                        (?w5\<lparr>failedFile := Some (appended content ?F)\<rparr>))"] w4 by simp
        next
          case generic: False
          have "?processed = []"
            using noslip pd Some generic by (simp add: depotSlip_def)
          then have "map fst ?trace = []" using p by simp
          then have "items = []" by (simp add: itemTrace_items)
          then have "?cd = (Inr Continue, closeQuietly sf context ?w4)"
            using cd pd Some generic own by simp
          then show ?thesis using goal [of "closeQuietly sf context ?w4"] w4 by simp
        qed
      qed
    qed
  qed
qed

text \<open>The loop over the depots.\<close>

lemma cycleLoop_ledger:
  assumes "failedFile w = Some content"
    and "set depots \<subseteq> set (map fst grouped)"
    and "\<forall>depot \<in> set depots. \<forall>item \<in> set (bucket grouped depot). distinct (map fst item)"
    and "\<not> cycleSlips sf accounts siteConfig grouped depots w"
  shows "\<exists>others. length others = length (cycleTrace sf accounts siteConfig grouped depots w)
       \<and> successList (snd (cycleLoop sf accounts siteConfig grouped depots w))
           = successList w @ concat (map (turnSuccess (now w))
               (cycleTrace sf accounts siteConfig grouped depots w))
       \<and> failedFile (snd (cycleLoop sf accounts siteConfig grouped depots w))
           = Some (appended content (concat (map (\<lambda>(turn, other). turnFailed (now w) turn @ other)
               (zip (cycleTrace sf accounts siteConfig grouped depots w) others))))
       \<and> (\<forall>(turn, other) \<in> set (zip (cycleTrace sf accounts siteConfig grouped depots w) others).
             (snd turn = [] \<or> other = []) \<and> (\<forall>fi \<in> set other. f_depot fi = fst turn))"
  using assms
proof (induction depots arbitrary: w content)
  case Nil
  then show ?case by simp
next
  case (Cons depot depots)
  let ?cd = "cycleDepot sf accounts siteConfig grouped depot w"
  show ?case
  proof (cases "openPage sf (surf w)")
    case None
    from cycleDepot_not_open [OF None, of accounts siteConfig grouped depot]
    obtain e s' where "?cd = (Inl e, w\<lparr>surf := s'\<rparr>)" by blast
    then have "snd (cycleLoop sf accounts siteConfig grouped (depot # depots) w) = w\<lparr>surf := s'\<rparr>"
      by simp
    moreover have "cycleTrace sf accounts siteConfig grouped (depot # depots) w = []"
      using None by simp
    ultimately show ?thesis using Cons.prems(1) by simp
  next
    case (Some cps)
    obtain ctx page s2 where cps: "cps = (ctx, page, s2)" by (cases cps)
    have op: "openPage sf (surf w) = Some (ctx, page, s2)" using Some cps by simp
    let ?processed = "depotProcessed sf depot grouped accounts siteConfig page (w\<lparr>surf := s2\<rparr>)"
    have own: "js_lookup grouped depot = Own (bucket grouped depot)"
      using Cons.prems(2) by (intro key_lookup) simp
    have wf: "\<forall>item \<in> set (bucket grouped depot). distinct (map fst item)"
      using Cons.prems(3) by simp
    have noslip: "\<not> depotSlip sf depot grouped accounts siteConfig page (w\<lparr>surf := s2\<rparr>)"
      using Cons.prems(4) op by simp
    from cycleDepot_turn [OF Cons.prems(1) op own wf noslip]
    obtain other where t:
      "successList (snd ?cd) = successList w @ turnSuccess (now w) (depot, ?processed)"
      "failedFile (snd ?cd) = Some (appended content (turnFailed (now w) (depot, ?processed) @ other))"
      "now (snd ?cd) = now w"
      "?processed = [] \<or> other = []"
      "\<forall>fi \<in> set other. f_depot fi = depot"
      by blast
    obtain r w1 where cd: "?cd = (r, w1)" by (metis surj_pair)
    show ?thesis
    proof (cases "r = Inr Continue")
      case True
      have loop: "cycleLoop sf accounts siteConfig grouped (depot # depots) w
          = cycleLoop sf accounts siteConfig grouped depots w1"
        using cd True by simp
      have trace: "cycleTrace sf accounts siteConfig grouped (depot # depots) w
          = (depot, ?processed) # cycleTrace sf accounts siteConfig grouped depots w1"
        using op cd True by simp
      have ns: "\<not> cycleSlips sf accounts siteConfig grouped depots w1"
        using Cons.prems(4) op cd True by simp
      have r1: "failedFile w1 = Some (appended content (turnFailed (now w) (depot, ?processed) @ other))"
        using t(2) cd by simp
      have sub: "set depots \<subseteq> set (map fst grouped)" using Cons.prems(2) by simp
      have wfs: "\<forall>depot \<in> set depots. \<forall>item \<in> set (bucket grouped depot). distinct (map fst item)"
        using Cons.prems(3) by simp
      let ?trace1 = "cycleTrace sf accounts siteConfig grouped depots w1"
      from Cons.IH [OF r1 sub wfs ns]
      obtain others where o:
        "length others = length ?trace1"
        "successList (snd (cycleLoop sf accounts siteConfig grouped depots w1))
           = successList w1 @ concat (map (turnSuccess (now w1)) ?trace1)"
        "failedFile (snd (cycleLoop sf accounts siteConfig grouped depots w1))
           = Some (appended (appended content (turnFailed (now w) (depot, ?processed) @ other))
               (concat (map (\<lambda>(turn, other). turnFailed (now w1) turn @ other) (zip ?trace1 others))))"
        "\<forall>(turn, other) \<in> set (zip ?trace1 others).
             (snd turn = [] \<or> other = []) \<and> (\<forall>fi \<in> set other. f_depot fi = fst turn)"
        by blast
      have n1: "now w1 = now w" "successList w1 = successList w @ turnSuccess (now w) (depot, ?processed)"
        using t(1,3) cd by simp_all
      show ?thesis
      proof (intro exI [of _ "other # others"] conjI)
        show "length (other # others)
            = length (cycleTrace sf accounts siteConfig grouped (depot # depots) w)"
          using o(1) trace by simp
        show "successList (snd (cycleLoop sf accounts siteConfig grouped (depot # depots) w))
           = successList w @ concat (map (turnSuccess (now w))
               (cycleTrace sf accounts siteConfig grouped (depot # depots) w))"
          using o(2) n1 loop trace by simp
        show "failedFile (snd (cycleLoop sf accounts siteConfig grouped (depot # depots) w))
           = Some (appended content (concat (map (\<lambda>(turn, other). turnFailed (now w) turn @ other)
               (zip (cycleTrace sf accounts siteConfig grouped (depot # depots) w) (other # others)))))"
          using o(3) n1 loop trace by (simp add: appended_appended)
        show "\<forall>(turn, other) \<in> set (zip (cycleTrace sf accounts siteConfig grouped (depot # depots) w)
                 (other # others)).
             (snd turn = [] \<or> other = []) \<and> (\<forall>fi \<in> set other. f_depot fi = fst turn)"
          using o(4) t(4,5) trace by simp
      qed
    next
      case False
      have loop: "snd (cycleLoop sf accounts siteConfig grouped (depot # depots) w) = w1"
        using cd False by (cases r) (auto split: loopExit.splits)
      have trace: "cycleTrace sf accounts siteConfig grouped (depot # depots) w = [(depot, ?processed)]"
        using op cd False by (cases r) (auto split: loopExit.splits)
      show ?thesis
      proof (intro exI [of _ "[other]"] conjI)
        show "length [other] = length (cycleTrace sf accounts siteConfig grouped (depot # depots) w)"
          using trace by simp
        show "successList (snd (cycleLoop sf accounts siteConfig grouped (depot # depots) w))
           = successList w @ concat (map (turnSuccess (now w))
               (cycleTrace sf accounts siteConfig grouped (depot # depots) w))"
          using t(1) cd loop trace by simp
        show "failedFile (snd (cycleLoop sf accounts siteConfig grouped (depot # depots) w))
           = Some (appended content (concat (map (\<lambda>(turn, other). turnFailed (now w) turn @ other)
               (zip (cycleTrace sf accounts siteConfig grouped (depot # depots) w) [other]))))"
          using t(2) cd loop trace by simp
        show "\<forall>(turn, other) \<in> set (zip (cycleTrace sf accounts siteConfig grouped (depot # depots) w)
                 [other]).
             (snd turn = [] \<or> other = []) \<and> (\<forall>fi \<in> set other. f_depot fi = fst turn)"
          using t(4,5) trace by simp
      qed
    qed
  qed
qed

lemma cycleTrace_all_items:
  "\<forall>(depot, processed) \<in> set (cycleTrace sf accounts siteConfig grouped depots w).
      processed = []
      \<or> map fst processed = map (withAccount (js_index accounts depot)) (bucket grouped depot)"
proof (induction depots arbitrary: w)
  case Nil
  then show ?case by simp
next
  case (Cons depot depots)
  have p: "depotProcessed sf depot grouped accounts siteConfig page w' = []
      \<or> map fst (depotProcessed sf depot grouped accounts siteConfig page w')
          = map (withAccount (js_index accounts depot)) (bucket grouped depot)" for page w'
    by (auto simp: depotProcessed_def Let_def itemTrace_items split: prod.splits option.splits)
  show ?case
  proof (cases "openPage sf (surf w)")
    case None
    then show ?thesis by simp
  next
    case (Some cps)
    obtain ctx page s2 where cps: "cps = (ctx, page, s2)" by (cases cps)
    obtain r w1 where cd: "cycleDepot sf accounts siteConfig grouped depot w = (r, w1)"
      by (metis surj_pair)
    show ?thesis
      using Some cps cd p [of page "w\<lparr>surf := s2\<rparr>"] Cons.IH [of w1]
      by (cases r) (auto split: loopExit.splits)
  qed
qed

lemma recorded_once:
  "length (recordedSuccess depot ts d) + length (recordedFailed depot ts d) = 1"
  by (cases d) auto

lemma actionFails_iff:
  "actionFails sf page roData a s1 \<longleftrightarrow>
     ((\<exists>e s2. andThen (executeAction sf page a roData) (delayOf sf page a) s1 = (Some e, s2))
      \<or> (\<exists>s2 v logged s3.
            andThen (executeAction sf page a roData) (delayOf sf page a) s1 = (None, s2)
            \<and> checkAndHandlePopup sf page s2 = ((Some v, logged), s3)
            \<and> (v = ''error'' \<or> v = ''warning'')))"
proof (cases "andThen (executeAction sf page a roData) (delayOf sf page a) s1")
  case (Pair r s2)
  show ?thesis
  proof (cases r)
    case (Some e)
    then show ?thesis using Pair by (simp add: actionFails_def)
  next
    case None
    obtain verdict logged s3 where c: "checkAndHandlePopup sf page s2 = ((verdict, logged), s3)"
      by (metis surj_pair)
    show ?thesis using Pair None c by (cases verdict) (auto simp: actionFails_def)
  qed
qed

lemma itemTrace_nth:
  "fst (itemTrace sf page actions account (before @ item # after) s) ! length before
     = (withAccount account item,
        fst (roActions sf page actions (withAccount account item)
               (snd (itemTrace sf page actions account before s))))"
proof -
  have "length (fst (itemTrace sf page actions account before s)) = length before"
    using itemTrace_items [of sf page actions account before s]
    by (metis length_map)
  then show ?thesis
    by (simp add: itemTrace_append [of sf page actions account before "item # after" s]
        nth_append split: prod.splits)
qed

text \<open>
  Claim C1, as the code has it. The action loop of an item flags the item exactly when
  one of its actions, reached after every item action before it has passed, fails: the
  action or its delay throws, or the popup verdict after it is \<open>error\<close> or
  \<open>warning\<close>. Over a readable failed file, \<open>processReleaseOrder\<close> adds exactly
  one entry for its item: to the failed file when the item is flagged, to the success
  list otherwise. And for the loop over the depots of a cycle, started over a readable
  failed file, with depots that are keys of the grouping, items that have no property
  name twice and whose release-order numbers are primitive values, and in which no turn
  slips: the success list grows by the success entries of the processed items, in
  order, and by nothing else; the failed file grows by the failed entries of the
  processed items and, only in a turn that processed no item, by entries of that
  turn's depot; each processed item has exactly one entry, in exactly one of the two;
  and a turn that processes items processes all the items of its depot.
\<close>

theorem one_outcome_per_item:
  assumes "failedFile w = Some content"
  shows "(fst (fst (roActions sf page actions roData s)) \<longleftrightarrow>
            (\<exists>pre a post s1. itemActions actions = pre @ a # post
               \<and> passAll sf page roData pre s = Some s1 \<and> actionFails sf page roData a s1))
       \<and> (\<forall>a s1. actionFails sf page roData a s1 \<longleftrightarrow>
            ((\<exists>e s2. andThen (executeAction sf page a roData) (delayOf sf page a) s1 = (Some e, s2))
             \<or> (\<exists>s2 v logged s3.
                   andThen (executeAction sf page a roData) (delayOf sf page a) s1 = (None, s2)
                   \<and> checkAndHandlePopup sf page s2 = ((Some v, logged), s3)
                   \<and> (v = ''error'' \<or> v = ''warning''))))
       \<and> (let outcome = fst (roActions sf page (sc_actions siteConfig) roData (surf w));
               w' = processReleaseOrder sf page siteConfig roData depot w
           in successList w' = successList w @ recordedSuccess depot (now w) (roData, outcome)
              \<and> failedFile w' = Some (appended content (recordedFailed depot (now w) (roData, outcome)))
              \<and> recordedSuccess depot (now w) (roData, outcome)
                   = (if fst outcome then [] else [successEntry depot roData (now w)])
              \<and> recordedFailed depot (now w) (roData, outcome)
                   = (if fst outcome then [failedEntry depot roData (snd outcome) (now w)] else []))
       \<and> (set depots \<subseteq> set (map fst grouped)
            \<and> (\<forall>depot \<in> set depots. \<forall>item \<in> set (bucket grouped depot).
                  distinct (map fst item) \<and> primitive (roNumberOf item))
            \<and> \<not> cycleSlips sf accounts siteConfig grouped depots w \<longrightarrow>
           (\<exists>others.
               length others = length (cycleTrace sf accounts siteConfig grouped depots w)
             \<and> successList (snd (cycleLoop sf accounts siteConfig grouped depots w))
                 = successList w @ concat (map (turnSuccess (now w))
                     (cycleTrace sf accounts siteConfig grouped depots w))
             \<and> failedFile (snd (cycleLoop sf accounts siteConfig grouped depots w))
                 = Some (appended content
                     (concat (map (\<lambda>(turn, other). turnFailed (now w) turn @ other)
                        (zip (cycleTrace sf accounts siteConfig grouped depots w) others))))
             \<and> (\<forall>(turn, other) \<in> set (zip (cycleTrace sf accounts siteConfig grouped depots w) others).
                   (snd turn = [] \<or> other = []) \<and> (\<forall>fi \<in> set other. f_depot fi = fst turn)))
           \<and> (\<forall>(depot, processed) \<in> set (cycleTrace sf accounts siteConfig grouped depots w).
                 (processed = []
                  \<or> map fst processed
                       = map (withAccount (js_index accounts depot)) (bucket grouped depot))
                 \<and> (\<forall>d \<in> set processed.
                       length (recordedSuccess depot (now w) d)
                         + length (recordedFailed depot (now w) d) = 1)))"
proof (intro conjI allI impI)
  show "fst (fst (roActions sf page actions roData s)) \<longleftrightarrow>
            (\<exists>pre a post s1. itemActions actions = pre @ a # post
               \<and> passAll sf page roData pre s = Some s1 \<and> actionFails sf page roData a s1)"
    using roActions_flag [of sf page actions roData s]
      passAll_None_iff [of sf page roData "itemActions actions" s] by simp
next
  fix a s1
  show "actionFails sf page roData a s1 \<longleftrightarrow>
            ((\<exists>e s2. andThen (executeAction sf page a roData) (delayOf sf page a) s1 = (Some e, s2))
             \<or> (\<exists>s2 v logged s3.
                   andThen (executeAction sf page a roData) (delayOf sf page a) s1 = (None, s2)
                   \<and> checkAndHandlePopup sf page s2 = ((Some v, logged), s3)
                   \<and> (v = ''error'' \<or> v = ''warning'')))"
    by (rule actionFails_iff)
next
  show "let outcome = fst (roActions sf page (sc_actions siteConfig) roData (surf w));
               w' = processReleaseOrder sf page siteConfig roData depot w
           in successList w' = successList w @ recordedSuccess depot (now w) (roData, outcome)
              \<and> failedFile w' = Some (appended content (recordedFailed depot (now w) (roData, outcome)))
              \<and> recordedSuccess depot (now w) (roData, outcome)
                   = (if fst outcome then [] else [successEntry depot roData (now w)])
              \<and> recordedFailed depot (now w) (roData, outcome)
                   = (if fst outcome then [failedEntry depot roData (snd outcome) (now w)] else [])"
    unfolding Let_def
    by (subst processReleaseOrder_exact [OF assms], subst processReleaseOrder_exact [OF assms])
       (cases "fst (roActions sf page (sc_actions siteConfig) roData (surf w))", simp)
next
  assume h: "set depots \<subseteq> set (map fst grouped)
            \<and> (\<forall>depot \<in> set depots. \<forall>item \<in> set (bucket grouped depot).
                  distinct (map fst item) \<and> primitive (roNumberOf item))
            \<and> \<not> cycleSlips sf accounts siteConfig grouped depots w"
  then have wf: "\<forall>depot \<in> set depots. \<forall>item \<in> set (bucket grouped depot). distinct (map fst item)"
    by blast
  show "\<exists>others.
               length others = length (cycleTrace sf accounts siteConfig grouped depots w)
             \<and> successList (snd (cycleLoop sf accounts siteConfig grouped depots w))
                 = successList w @ concat (map (turnSuccess (now w))
                     (cycleTrace sf accounts siteConfig grouped depots w))
             \<and> failedFile (snd (cycleLoop sf accounts siteConfig grouped depots w))
                 = Some (appended content
                     (concat (map (\<lambda>(turn, other). turnFailed (now w) turn @ other)
                        (zip (cycleTrace sf accounts siteConfig grouped depots w) others))))
             \<and> (\<forall>(turn, other) \<in> set (zip (cycleTrace sf accounts siteConfig grouped depots w) others).
                   (snd turn = [] \<or> other = []) \<and> (\<forall>fi \<in> set other. f_depot fi = fst turn))"
    using h by (intro cycleLoop_ledger [OF assms _ wf]) simp_all
next
  assume h: "set depots \<subseteq> set (map fst grouped)
            \<and> (\<forall>depot \<in> set depots. \<forall>item \<in> set (bucket grouped depot).
                  distinct (map fst item) \<and> primitive (roNumberOf item))
            \<and> \<not> cycleSlips sf accounts siteConfig grouped depots w"
  have "\<forall>(depot, processed) \<in> set (cycleTrace sf accounts siteConfig grouped depots w).
      \<forall>d \<in> set processed.
         length (recordedSuccess depot (now w) d) + length (recordedFailed depot (now w) d) = 1"
    by (auto simp: recorded_once)
  then show "\<forall>(depot, processed) \<in> set (cycleTrace sf accounts siteConfig grouped depots w).
                 (processed = []
                  \<or> map fst processed
                       = map (withAccount (js_index accounts depot)) (bucket grouped depot))
                 \<and> (\<forall>d \<in> set processed.
                       length (recordedSuccess depot (now w) d)
                         + length (recordedFailed depot (now w) d) = 1)"
    using cycleTrace_all_items [of sf accounts siteConfig grouped depots w] by fast
qed

lemmas orch_defs = processReleaseOrder_def delayOf_def checkAndHandlePopup_def popupShown_def
  handlePopup_def popupMessage_def resolveValue_def getNestedValue_def withAccount_def
  appendFailedToFile_def failedEntry_def successEntry_def js_or_def js_get_def reasonOfError_def
  executeAction_def requireSelector_def selectorExists_def andThen_def swallow_def Let_def
  js_index_def js_lookup_def objectPrototypeKeys_def

lemmas site2_defs = demoLogin_def demoInputID_def demoSite2_def itemActions_def actionFails_def

lemmas cycle_defs = cycleDepot_def processDepot_def onSurf_def closeQuietly_def logoutAction_def
  surfaceClosedMessage_def openPage_def depotStart_def depotProcessed_def depotSlip_def
  bucket_def roNumberOf_def

theorem one_outcome_per_item_witness:
  "failedFile demoWorld = Some \<lparr>fc_timestamp = ''t0'', fc_total = 0, fc_data = []\<rparr>
   \<and> set [''D1'', ''D2'']
       \<subseteq> set (map fst
           [(''D1'', [[(''releaseOrderNumber'', Str ''A1''), (''ID'', Str ''BAD'')],
                      [(''releaseOrderNumber'', Str ''A3''), (''ID'', Num 8)]]),
            (''D2'', [[(''releaseOrderNumber'', Str ''B1'')]])])
   \<and> distinct (map fst [(''releaseOrderNumber'', Str ''A1''), (''ID'', Str ''BAD'')])
   \<and> distinct (map fst [(''releaseOrderNumber'', Str ''A3''), (''ID'', Num 8)])
   \<and> distinct (map fst [(''releaseOrderNumber'', Str ''B1'')])
   \<and> primitive (roNumberOf [(''releaseOrderNumber'', Str ''A1''), (''ID'', Str ''BAD'')])
   \<and> primitive (roNumberOf [(''releaseOrderNumber'', Str ''A3''), (''ID'', Num 8)])
   \<and> primitive (roNumberOf [(''releaseOrderNumber'', Str ''B1'')])
   \<and> \<not> cycleSlips demoSurface [(''D1'', Obj [])] demoSite2
           [(''D1'', [[(''releaseOrderNumber'', Str ''A1''), (''ID'', Str ''BAD'')],
                      [(''releaseOrderNumber'', Str ''A3''), (''ID'', Num 8)]]),
            (''D2'', [[(''releaseOrderNumber'', Str ''B1'')]])]
           [''D1'', ''D2''] demoWorld
   \<and> cycleTrace demoSurface [(''D1'', Obj [])] demoSite2
           [(''D1'', [[(''releaseOrderNumber'', Str ''A1''), (''ID'', Str ''BAD'')],
                      [(''releaseOrderNumber'', Str ''A3''), (''ID'', Num 8)]]),
            (''D2'', [[(''releaseOrderNumber'', Str ''B1'')]])]
           [''D1'', ''D2''] demoWorld
       = [(''D1'',
           [([(''account'', Obj []), (''releaseOrderNumber'', Str ''A1''), (''ID'', Str ''BAD'')],
             True, ''Popup error detected''),
            ([(''account'', Obj []), (''releaseOrderNumber'', Str ''A3''), (''ID'', Num 8)],
             False, [])]),
          (''D2'', [])]
   \<and> successList (snd (cycleLoop demoSurface [(''D1'', Obj [])] demoSite2
           [(''D1'', [[(''releaseOrderNumber'', Str ''A1''), (''ID'', Str ''BAD'')],
                      [(''releaseOrderNumber'', Str ''A3''), (''ID'', Num 8)]]),
            (''D2'', [[(''releaseOrderNumber'', Str ''B1'')]])]
           [''D1'', ''D2''] demoWorld))
       = [\<lparr>s_depot = ''D1'', s_releaseOrderID = Num 8, s_releaseOrderNumber = Str ''A3'',
           s_timestamp = ''t1''\<rparr>]
   \<and> failedFile (snd (cycleLoop demoSurface [(''D1'', Obj [])] demoSite2
           [(''D1'', [[(''releaseOrderNumber'', Str ''A1''), (''ID'', Str ''BAD'')],
                      [(''releaseOrderNumber'', Str ''A3''), (''ID'', Num 8)]]),
            (''D2'', [[(''releaseOrderNumber'', Str ''B1'')]])]
           [''D1'', ''D2''] demoWorld))
       = Some \<lparr>fc_timestamp = ''t0'', fc_total = 2, fc_data =
           [\<lparr>f_depot = ''D1'', f_releaseOrderID = Str ''BAD'', f_releaseOrderNumber = Str ''A1'',
             f_reason = ''Popup error detected'', f_timestamp = ''t1''\<rparr>,
            \<lparr>f_depot = ''D2'', f_releaseOrderID = Str ''-1'', f_releaseOrderNumber = Str ''B1'',
             f_reason = ''No account configured for depot'', f_timestamp = ''t1''\<rparr>]\<rparr>"
proof -
  let ?c = "\<lparr>fc_timestamp = ''t0'', fc_total = 0, fc_data = []\<rparr>"
  let ?g = "[(''D1'', [[(''releaseOrderNumber'', Str ''A1''), (''ID'', Str ''BAD'')],
                      [(''releaseOrderNumber'', Str ''A3''), (''ID'', Num 8)]]),
            (''D2'', [[(''releaseOrderNumber'', Str ''B1'')]])]"
  let ?cycle = "cycleLoop demoSurface [(''D1'', Obj [])] demoSite2 ?g [''D1'', ''D2''] demoWorld"
  let ?trace = "cycleTrace demoSurface [(''D1'', Obj [])] demoSite2 ?g [''D1'', ''D2''] demoWorld"
  have h: "failedFile demoWorld = Some ?c"
    by (simp add: demoWorld_def)
  have sub: "set [''D1'', ''D2''] \<subseteq> set (map fst ?g)"
    by simp
  have wf: "distinct (map fst [(''releaseOrderNumber'', Str ''A1''), (''ID'', Str ''BAD'')])"
      "distinct (map fst [(''releaseOrderNumber'', Str ''A3''), (''ID'', Num 8)])"
      "distinct (map fst [(''releaseOrderNumber'', Str ''B1'')])"
      "primitive (roNumberOf [(''releaseOrderNumber'', Str ''A1''), (''ID'', Str ''BAD'')])"
      "primitive (roNumberOf [(''releaseOrderNumber'', Str ''A3''), (''ID'', Num 8)])"
      "primitive (roNumberOf [(''releaseOrderNumber'', Str ''B1'')])"
    by (simp_all add: roNumberOf_def js_or_def js_get_def)
  have wfs: "\<forall>depot \<in> set [''D1'', ''D2'']. \<forall>item \<in> set (bucket ?g depot).
      distinct (map fst item) \<and> primitive (roNumberOf item)"
    using wf by (simp add: bucket_def)
  have ns: "\<not> cycleSlips demoSurface [(''D1'', Obj [])] demoSite2 ?g [''D1'', ''D2''] demoWorld"
    by (simp add: demo_defs site2_defs orch_defs cycle_defs)
  have tr: "?trace
       = [(''D1'',
           [([(''account'', Obj []), (''releaseOrderNumber'', Str ''A1''), (''ID'', Str ''BAD'')],
             True, ''Popup error detected''),
            ([(''account'', Obj []), (''releaseOrderNumber'', Str ''A3''), (''ID'', Num 8)],
             False, [])]),
          (''D2'', [])]"
    by (simp add: demo_defs site2_defs orch_defs cycle_defs)
  note t = one_outcome_per_item [OF h, where sf = demoSurface and accounts = "[(''D1'', Obj [])]"
      and siteConfig = demoSite2 and grouped = ?g and depots = "[''D1'', ''D2'']",
      THEN conjunct2, THEN conjunct2, THEN conjunct2, THEN mp, THEN conjunct1]
  from t sub wfs ns
  obtain others where
    "successList (snd ?cycle) = successList demoWorld @ concat (map (turnSuccess (now demoWorld)) ?trace)"
    by blast
  then have s: "successList (snd ?cycle)
       = [\<lparr>s_depot = ''D1'', s_releaseOrderID = Num 8, s_releaseOrderNumber = Str ''A3'',
           s_timestamp = ''t1''\<rparr>]"
    by (simp only: tr) (simp add: successEntry_def js_or_def js_get_def demoWorld_def)
  have f: "failedFile (snd ?cycle)
       = Some \<lparr>fc_timestamp = ''t0'', fc_total = 2, fc_data =
           [\<lparr>f_depot = ''D1'', f_releaseOrderID = Str ''BAD'', f_releaseOrderNumber = Str ''A1'',
             f_reason = ''Popup error detected'', f_timestamp = ''t1''\<rparr>,
            \<lparr>f_depot = ''D2'', f_releaseOrderID = Str ''-1'', f_releaseOrderNumber = Str ''B1'',
             f_reason = ''No account configured for depot'', f_timestamp = ''t1''\<rparr>]\<rparr>"
    by (simp add: demo_defs site2_defs orch_defs cycle_defs)
  from h sub wf ns tr s f show ?thesis by blast
qed

text \<open>
  Claim C1 as stated fails: when the failed file cannot be read, \<open>appendFailedToFile\<close>
  only logs, and an item whose action failed is in neither list. And when the logout
  click at the end of a depot throws, the cycle runner writes a failed entry for every
  item of the depot, so an item that succeeded is in both.
\<close>

theorem unreadable_ledger_counterexample:
  "fst (roActions demoSurface 0 (sc_actions demoSite) [(''releaseOrderNumber'', Str ''BAD'')] demoInit)
     = (True, ''Popup error detected'')
   \<and> successList (processReleaseOrder demoSurface 0 demoSite [(''releaseOrderNumber'', Str ''BAD'')]
        ''D1'' (demoWorld\<lparr>failedFile := None\<rparr>)) = []
   \<and> failedFile (processReleaseOrder demoSurface 0 demoSite [(''releaseOrderNumber'', Str ''BAD'')]
        ''D1'' (demoWorld\<lparr>failedFile := None\<rparr>)) = None
   \<and> map s_releaseOrderNumber (successList (snd
        (cycleDepot demoSurface [(''D1'', Obj [])] demoSite
           [(''D1'', [[(''releaseOrderNumber'', Str ''A1'')]])] ''D1''
           (demoWorld\<lparr>surf := demoInit\<lparr>d_logout := False\<rparr>\<rparr>)))) = [Str ''A1'']
   \<and> map f_releaseOrderNumber (fc_data (the (failedFile (snd
        (cycleDepot demoSurface [(''D1'', Obj [])] demoSite
           [(''D1'', [[(''releaseOrderNumber'', Str ''A1'')]])] ''D1''
           (demoWorld\<lparr>surf := demoInit\<lparr>d_logout := False\<rparr>\<rparr>)))))) = [Str ''A1'']
   \<and> map f_reason (fc_data (the (failedFile (snd
        (cycleDepot demoSurface [(''D1'', Obj [])] demoSite
           [(''D1'', [[(''releaseOrderNumber'', Str ''A1'')]])] ''D1''
           (demoWorld\<lparr>surf := demoInit\<lparr>d_logout := False\<rparr>\<rparr>))))))
       = [''Depot processing error: Selector not found: .btn.btn-logout.logout-btn'']"
  by (simp add: demo_defs orch_defs cycleDepot_def processDepot_def onSurf_def closeQuietly_def
      logoutAction_def surfaceClosedMessage_def)

text \<open>
  Claim C4, as the code has it. The item loop runs the actions marked \<open>roData\<close>, in
  order, and skips the others. The first of them that throws (the action or its delay)
  ends the loop of the item with the error's message as the reason, or with
  \<open>Action execution failed\<close> when the message is empty; the first of them that is
  followed by an \<open>error\<close> or \<open>warning\<close> verdict ends it with the reason
  \<open>Popup error detected\<close> or \<open>Popup warning detected\<close> (the popup's message is
  only logged); when all of them pass, the item is not flagged. Over a readable failed
  file a flagged item gets one failed entry with that reason and nothing else of the
  ledger changes, an item that is not flagged gets one success entry and nothing else
  changes. The item loop of a depot records every item of the depot in this way, in
  order, whatever happened to the items before it: the outcome of an item is the outcome
  of its own actions, started at the state of the surface the item before it left.
\<close>

theorem item_failure_isolated:
  assumes "failedFile w = Some content"
  shows "(\<forall>pre a post s1 e s2.
            itemActions actions = pre @ a # post
            \<and> passAll sf page roData pre s = Some s1
            \<and> andThen (executeAction sf page a roData) (delayOf sf page a) s1 = (Some e, s2) \<longrightarrow>
            roActions sf page actions roData s
              = ((True, if errorMessage e = [] then ''Action execution failed'' else errorMessage e), s2))
       \<and> (\<forall>pre a post s1 s2 v logged s3.
            itemActions actions = pre @ a # post
            \<and> passAll sf page roData pre s = Some s1
            \<and> andThen (executeAction sf page a roData) (delayOf sf page a) s1 = (None, s2)
            \<and> checkAndHandlePopup sf page s2 = ((Some v, logged), s3)
            \<and> (v = ''error'' \<or> v = ''warning'') \<longrightarrow>
            roActions sf page actions roData s = ((True, ''Popup '' @ v @ '' detected''), s3))
       \<and> (\<forall>s'. passAll sf page roData (itemActions actions) s = Some s' \<longrightarrow>
            roActions sf page actions roData s = ((False, []), s'))
       \<and> (passAll sf page roData (itemActions actions) s = None \<longleftrightarrow>
            (\<exists>pre a post s1. itemActions actions = pre @ a # post
               \<and> passAll sf page roData pre s = Some s1 \<and> actionFails sf page roData a s1))
       \<and> (\<forall>a s1. actionFails sf page roData a s1 \<longleftrightarrow>
            ((\<exists>e s2. andThen (executeAction sf page a roData) (delayOf sf page a) s1 = (Some e, s2))
             \<or> (\<exists>s2 v logged s3.
                   andThen (executeAction sf page a roData) (delayOf sf page a) s1 = (None, s2)
                   \<and> checkAndHandlePopup sf page s2 = ((Some v, logged), s3)
                   \<and> (v = ''error'' \<or> v = ''warning''))))
       \<and> (\<forall>reason s'. roActions sf page (sc_actions siteConfig) roData (surf w) = ((True, reason), s') \<longrightarrow>
            processReleaseOrder sf page siteConfig roData depot w
              = w\<lparr>surf := s',
                  failedFile := Some (appended content [failedEntry depot roData reason (now w)])\<rparr>)
       \<and> (\<forall>reason s'. roActions sf page (sc_actions siteConfig) roData (surf w) = ((False, reason), s') \<longrightarrow>
            processReleaseOrder sf page siteConfig roData depot w
              = w\<lparr>surf := s',
                  successList := successList w @ [successEntry depot roData (now w)]\<rparr>)
       \<and> processItems sf page siteConfig account depot items w
           = w\<lparr>surf := snd (itemTrace sf page (sc_actions siteConfig) account items (surf w)),
               successList := successList w @ concat (map (recordedSuccess depot (now w))
                   (fst (itemTrace sf page (sc_actions siteConfig) account items (surf w)))),
               failedFile := Some (appended content (concat (map (recordedFailed depot (now w))
                   (fst (itemTrace sf page (sc_actions siteConfig) account items (surf w))))))\<rparr>
       \<and> map fst (fst (itemTrace sf page (sc_actions siteConfig) account items (surf w)))
           = map (withAccount account) items
       \<and> (\<forall>before item after. items = before @ item # after \<longrightarrow>
            fst (itemTrace sf page (sc_actions siteConfig) account items (surf w)) ! length before
              = (withAccount account item,
                 fst (roActions sf page (sc_actions siteConfig) (withAccount account item)
                        (snd (itemTrace sf page (sc_actions siteConfig) account before (surf w))))))"
proof (intro conjI allI impI)
  fix pre a post s1 e s2
  assume "itemActions actions = pre @ a # post
            \<and> passAll sf page roData pre s = Some s1
            \<and> andThen (executeAction sf page a roData) (delayOf sf page a) s1 = (Some e, s2)"
  then show "roActions sf page actions roData s
              = ((True, if errorMessage e = [] then ''Action execution failed'' else errorMessage e), s2)"
    using roActions_throw [of actions pre a post sf page roData s s1 e s2]
    by (simp add: reasonOfError_def)
next
  fix pre a post s1 s2 v logged s3
  assume "itemActions actions = pre @ a # post
            \<and> passAll sf page roData pre s = Some s1
            \<and> andThen (executeAction sf page a roData) (delayOf sf page a) s1 = (None, s2)
            \<and> checkAndHandlePopup sf page s2 = ((Some v, logged), s3)
            \<and> (v = ''error'' \<or> v = ''warning'')"
  then show "roActions sf page actions roData s = ((True, ''Popup '' @ v @ '' detected''), s3)"
    using roActions_verdict [of actions pre a post sf page roData s s1 s2 v logged s3] by blast
next
  fix s'
  assume "passAll sf page roData (itemActions actions) s = Some s'"
  then show "roActions sf page actions roData s = ((False, []), s')"
    by (rule roActions_pass)
next
  show "passAll sf page roData (itemActions actions) s = None \<longleftrightarrow>
            (\<exists>pre a post s1. itemActions actions = pre @ a # post
               \<and> passAll sf page roData pre s = Some s1 \<and> actionFails sf page roData a s1)"
    by (rule passAll_None_iff)
next
  fix a s1
  show "actionFails sf page roData a s1 \<longleftrightarrow>
            ((\<exists>e s2. andThen (executeAction sf page a roData) (delayOf sf page a) s1 = (Some e, s2))
             \<or> (\<exists>s2 v logged s3.
                   andThen (executeAction sf page a roData) (delayOf sf page a) s1 = (None, s2)
                   \<and> checkAndHandlePopup sf page s2 = ((Some v, logged), s3)
                   \<and> (v = ''error'' \<or> v = ''warning'')))"
    by (rule actionFails_iff)
next
  fix reason s'
  assume "roActions sf page (sc_actions siteConfig) roData (surf w) = ((True, reason), s')"
  then show "processReleaseOrder sf page siteConfig roData depot w
              = w\<lparr>surf := s',
                  failedFile := Some (appended content [failedEntry depot roData reason (now w)])\<rparr>"
    using processReleaseOrder_exact [OF assms, of sf page siteConfig roData depot] by simp
next
  fix reason s'
  assume "roActions sf page (sc_actions siteConfig) roData (surf w) = ((False, reason), s')"
  then show "processReleaseOrder sf page siteConfig roData depot w
              = w\<lparr>surf := s',
                  successList := successList w @ [successEntry depot roData (now w)]\<rparr>"
    using processReleaseOrder_exact [OF assms, of sf page siteConfig roData depot] assms
    by (simp add: failedFile_same)
next
  show "processItems sf page siteConfig account depot items w
           = w\<lparr>surf := snd (itemTrace sf page (sc_actions siteConfig) account items (surf w)),
               successList := successList w @ concat (map (recordedSuccess depot (now w))
                   (fst (itemTrace sf page (sc_actions siteConfig) account items (surf w)))),
               failedFile := Some (appended content (concat (map (recordedFailed depot (now w))
                   (fst (itemTrace sf page (sc_actions siteConfig) account items (surf w))))))\<rparr>"
    by (rule processItems_exact [OF assms])
next
  show "map fst (fst (itemTrace sf page (sc_actions siteConfig) account items (surf w)))
           = map (withAccount account) items"
    by (rule itemTrace_items)
next
  fix before item after
  assume "items = before @ item # after"
  then show "fst (itemTrace sf page (sc_actions siteConfig) account items (surf w)) ! length before
              = (withAccount account item,
                 fst (roActions sf page (sc_actions siteConfig) (withAccount account item)
                        (snd (itemTrace sf page (sc_actions siteConfig) account before (surf w)))))"
    by (simp only: itemTrace_nth)
qed

theorem item_failure_isolated_witness:
  "failedFile demoWorld = Some \<lparr>fc_timestamp = ''t0'', fc_total = 0, fc_data = []\<rparr>
   \<and> itemActions (sc_actions demoSite2) = [demoInput] @ demoInputID # []
   \<and> passAll demoSurface 0
        [(''account'', Obj []), (''releaseOrderNumber'', Str ''A1''), (''ID'', Str ''BAD'')]
        [demoInput] demoInit
       = Some (demoInit\<lparr>d_filled := [Str ''A1'']\<rparr>)
   \<and> andThen
        (executeAction demoSurface 0 demoInputID
           [(''account'', Obj []), (''releaseOrderNumber'', Str ''A1''), (''ID'', Str ''BAD'')])
        (delayOf demoSurface 0 demoInputID) (demoInit\<lparr>d_filled := [Str ''A1'']\<rparr>)
       = (None, demoInit\<lparr>d_filled := [Str ''A1'', Str ''BAD''], d_popup := ''error''\<rparr>)
   \<and> checkAndHandlePopup demoSurface 0
        (demoInit\<lparr>d_filled := [Str ''A1'', Str ''BAD''], d_popup := ''error''\<rparr>)
       = ((Some ''error'', Some ''Container is on hold''),
          demoInit\<lparr>d_filled := [Str ''A1'', Str ''BAD'']\<rparr>)
   \<and> roActions demoSurface 0 (sc_actions demoSite2)
        [(''account'', Obj []), (''releaseOrderNumber'', Str ''A1''), (''ID'', Str ''BAD'')] demoInit
       = ((True, ''Popup error detected''), demoInit\<lparr>d_filled := [Str ''A1'', Str ''BAD'']\<rparr>)
   \<and> map f_releaseOrderNumber (fc_data (the (failedFile
        (processItems demoSurface 0 demoSite2 (Obj []) ''D1''
           [[(''releaseOrderNumber'', Str ''A1''), (''ID'', Str ''BAD'')],
            [(''releaseOrderNumber'', Str ''BOOM''), (''ID'', Num 7)],
            [(''releaseOrderNumber'', Str ''A3''), (''ID'', Num 8)]] demoWorld))))
       = [Str ''A1'', Str ''BOOM'']
   \<and> map f_reason (fc_data (the (failedFile
        (processItems demoSurface 0 demoSite2 (Obj []) ''D1''
           [[(''releaseOrderNumber'', Str ''A1''), (''ID'', Str ''BAD'')],
            [(''releaseOrderNumber'', Str ''BOOM''), (''ID'', Num 7)],
            [(''releaseOrderNumber'', Str ''A3''), (''ID'', Num 8)]] demoWorld))))
       = [''Popup error detected'', ''Element is not an input'']
   \<and> map s_releaseOrderNumber (successList
        (processItems demoSurface 0 demoSite2 (Obj []) ''D1''
           [[(''releaseOrderNumber'', Str ''A1''), (''ID'', Str ''BAD'')],
            [(''releaseOrderNumber'', Str ''BOOM''), (''ID'', Num 7)],
            [(''releaseOrderNumber'', Str ''A3''), (''ID'', Num 8)]] demoWorld))
       = [Str ''A3'']"
proof -
  let ?c = "\<lparr>fc_timestamp = ''t0'', fc_total = 0, fc_data = []\<rparr>"
  let ?rd = "[(''account'', Obj []), (''releaseOrderNumber'', Str ''A1''), (''ID'', Str ''BAD'')]"
  let ?items = "[[(''releaseOrderNumber'', Str ''A1''), (''ID'', Str ''BAD'')],
            [(''releaseOrderNumber'', Str ''BOOM''), (''ID'', Num 7)],
            [(''releaseOrderNumber'', Str ''A3''), (''ID'', Num 8)]]"
  let ?s1 = "demoInit\<lparr>d_filled := [Str ''A1'']\<rparr>"
  let ?s2 = "demoInit\<lparr>d_filled := [Str ''A1'', Str ''BAD''], d_popup := ''error''\<rparr>"
  let ?s3 = "demoInit\<lparr>d_filled := [Str ''A1'', Str ''BAD'']\<rparr>"
  have h: "failedFile demoWorld = Some ?c"
    by (simp add: demoWorld_def)
  have a1: "itemActions (sc_actions demoSite2) = [demoInput] @ demoInputID # []"
    by (simp add: demo_defs site2_defs)
  have a2: "passAll demoSurface 0 ?rd [demoInput] demoInit = Some ?s1"
    by (simp add: demo_defs site2_defs orch_defs)
  have a3: "andThen (executeAction demoSurface 0 demoInputID ?rd) (delayOf demoSurface 0 demoInputID) ?s1
      = (None, ?s2)"
    by (simp add: demo_defs site2_defs orch_defs)
  have a4: "checkAndHandlePopup demoSurface 0 ?s2
      = ((Some ''error'', Some ''Container is on hold''), ?s3)"
    by (simp add: demo_defs site2_defs orch_defs)
  note t = item_failure_isolated [OF h, where actions = "sc_actions demoSite2" and sf = demoSurface
      and page = 0 and roData = ?rd and s = demoInit and siteConfig = demoSite2 and depot = "''D1''"
      and account = "Obj []" and items = ?items]
  have r: "roActions demoSurface 0 (sc_actions demoSite2) ?rd demoInit
      = ((True, ''Popup '' @ ''error'' @ '' detected''), ?s3)"
    using t [THEN conjunct2, THEN conjunct1, rule_format,
        of "[demoInput]" demoInputID "[]" ?s1 ?s2 "''error''" "Some ''Container is on hold''" ?s3]
      a1 a2 a3 a4 by blast
  have p: "processItems demoSurface 0 demoSite2 (Obj []) ''D1'' ?items demoWorld
      = demoWorld\<lparr>surf := snd (itemTrace demoSurface 0 (sc_actions demoSite2) (Obj []) ?items (surf demoWorld)),
          successList := successList demoWorld @ concat (map (recordedSuccess ''D1'' (now demoWorld))
             (fst (itemTrace demoSurface 0 (sc_actions demoSite2) (Obj []) ?items (surf demoWorld)))),
          failedFile := Some (appended ?c (concat (map (recordedFailed ''D1'' (now demoWorld))
             (fst (itemTrace demoSurface 0 (sc_actions demoSite2) (Obj []) ?items (surf demoWorld))))))\<rparr>"
    using t by blast
  have tr: "fst (itemTrace demoSurface 0 (sc_actions demoSite2) (Obj []) ?items (surf demoWorld))
      = [([(''account'', Obj []), (''releaseOrderNumber'', Str ''A1''), (''ID'', Str ''BAD'')],
          True, ''Popup error detected''),
         ([(''account'', Obj []), (''releaseOrderNumber'', Str ''BOOM''), (''ID'', Num 7)],
          True, ''Element is not an input''),
         ([(''account'', Obj []), (''releaseOrderNumber'', Str ''A3''), (''ID'', Num 8)],
          False, [])]"
    by (simp add: demo_defs site2_defs orch_defs)
  have r': "roActions demoSurface 0 (sc_actions demoSite2) ?rd demoInit
      = ((True, ''Popup error detected''), ?s3)"
    using r by simp
  have f1: "map f_releaseOrderNumber (fc_data (the (failedFile
        (processItems demoSurface 0 demoSite2 (Obj []) ''D1'' ?items demoWorld))))
       = [Str ''A1'', Str ''BOOM'']"
    by (simp only: p tr) (simp add: appended_def failedEntry_def js_or_def js_get_def demoWorld_def)
  have f2: "map f_reason (fc_data (the (failedFile
        (processItems demoSurface 0 demoSite2 (Obj []) ''D1'' ?items demoWorld))))
       = [''Popup error detected'', ''Element is not an input'']"
    by (simp only: p tr) (simp add: appended_def failedEntry_def js_or_def js_get_def demoWorld_def)
  have f3: "map s_releaseOrderNumber (successList
        (processItems demoSurface 0 demoSite2 (Obj []) ''D1'' ?items demoWorld))
       = [Str ''A3'']"
    by (simp only: p tr) (simp add: successEntry_def js_or_def js_get_def demoWorld_def)
  from h a1 a2 a3 a4 r' f1 f2 f3 show ?thesis by blast
qed

text \<open>
  Claim C4 as stated fails: the error popup says \<open>Container is on hold\<close>, and the
  reason recorded is \<open>Popup error detected\<close>. An error without a message is recorded
  as \<open>Action execution failed\<close>, and over an unreadable failed file nothing is
  recorded.
\<close>

theorem popup_reason_counterexample:
  "fst (checkAndHandlePopup demoSurface 0
          (snd (executeAction demoSurface 0 demoInput [(''releaseOrderNumber'', Str ''BAD'')] demoInit)))
     = (Some ''error'', Some ''Container is on hold'')
   \<and> map f_reason (fc_data (the (failedFile
        (processReleaseOrder demoSurface 0 demoSite [(''releaseOrderNumber'', Str ''BAD'')] ''D1'' demoWorld))))
       = [''Popup error detected'']
   \<and> ''Popup error detected'' \<noteq> ''Container is on hold''
   \<and> reasonOfError (Error []) = ''Action execution failed''
   \<and> failedFile (processReleaseOrder demoSurface 0 demoSite [(''releaseOrderNumber'', Str ''BAD'')]
        ''D1'' (demoWorld\<lparr>failedFile := None\<rparr>)) = None"
  by (simp add: demo_defs orch_defs)

end
